theory Spec2Isabelle
  imports Main "HOL-Library.AList"
begin

section \<open>Data model (package models)\<close>

text \<open>
  The rows of the relational store, with the fields the scanner reads or writes.
  Go's \<open>uint\<close> identifiers are natural numbers (they are database row numbers and are
  never close to the 64-bit limit), \<open>int\<close> status codes are integers, a nullable
  pointer is an \<open>option\<close>, and a point in time is a natural number.
\<close>

record RootDomain =
  rd_ID :: nat
  rd_Domain :: string

record Subdomain =
  sub_ID :: nat
  sub_RootDomainID :: nat
  sub_Hostname :: string
  sub_IsActive :: bool
  sub_DiscoveredAt :: nat
  sub_ScanID :: "nat option"

record Endpoint =
  ep_ID :: nat
  ep_SubdomainID :: nat
  ep_Path :: string
  ep_Method :: string
  ep_StatusCode :: int
  ep_ContentType :: string
  ep_DiscoveredAt :: nat
  ep_ScanID :: "nat option"

record Parameter =
  par_ID :: nat
  par_EndpointID :: nat
  par_Name :: string
  par_ParamType :: string
  par_DiscoveredAt :: nat

record Technology =
  tech_ID :: nat
  tech_Name :: string

record SubdomainTechnology =
  st_SubdomainID :: nat
  st_TechnologyID :: nat
  st_DetectedAt :: nat

record Scan =
  scan_ID :: nat
  scan_Status :: string
  scan_ResultsSummary :: string
  scan_StartedAt :: nat
  scan_CompletedAt :: "nat option"

record Screenshot =
  shot_SubdomainID :: "nat option"
  shot_EndpointID :: "nat option"
  shot_URL :: string
  shot_FilePath :: string
  shot_ScanID :: nat
  shot_CapturedAt :: nat

text \<open>
  A scan template after \<open>json.Unmarshal\<close> of its configuration strings: a string is
  empty, fails to parse, or yields a section. Only the enable flags of a section and
  the names of its tools decide which phases run; the numeric tool options set
  time-outs and thread counts of the external tools and are left out.
\<close>

record ScanToolConfig =
  tool_Enabled :: bool

record ScanSectionConfig =
  sec_Enabled :: bool
  sec_Tools :: "string \<rightharpoonup> ScanToolConfig"

datatype config_json = EmptyConfig | MalformedConfig | ParsedConfig ScanSectionConfig

record ScanTemplate =
  tmpl_SubdomainScanConfig :: config_json
  tmpl_URLScanConfig :: config_json
  tmpl_TechDetectEnabled :: bool
  tmpl_ScreenshotEnabled :: bool

section \<open>The persistent store\<close>

text \<open>
  The catalogue tables reached through the package-level database handle. The
  screenshots table and the screenshot directory are written by \<open>TakeScreenshot\<close>
  only and read by no phase; they are the \<open>gallery\<close>. \<open>OpenTransaction\<close> says
  that a transaction begun on the handle was neither committed nor rolled back: it
  keeps its lock on the database file, and every later write through the handle is
  refused.
\<close>

record store =
  RootDomains :: "RootDomain list"
  Subdomains :: "Subdomain list"
  Endpoints :: "Endpoint list"
  Parameters :: "Parameter list"
  Technologies :: "Technology list"
  SubdomainTechnologies :: "SubdomainTechnology list"
  Scans :: "Scan list"
  OpenTransaction :: bool

record gallery =
  Screenshots :: "Screenshot list"
  Files :: "string list"

record world =
  db :: store
  shots :: gallery

text \<open>Every call on the database handle in the scanner package, by place in the source.\<close>

datatype db_site =
    UpdateScanStatus string
  | Existing_FindSubdomains
  | Existing_FindEndpoints
  | SaveSubs_Create
  | SaveSubs_Find
  | URL_LoadExisting
  | URL_CreateSubdomains
  | URL_RefetchCreated
  | URL_Refresh
  | URL_EndpointUpsert nat
  | URL_ParamUpsert nat nat
  | TechURLs_FindSubdomains
  | TechURLs_FindEndpoints
  | TechURLs_FirstSubdomain
  | TechURLs_FindTargetEndpoints
  | Tech_Begin
  | Tech_FirstRootDomain
  | Tech_FindSubdomains
  | Tech_FirstRootSubdomain
  | Tech_CreateRootSubdomain
  | Tech_FirstTechnology string string
  | Tech_CreateTechnology string string
  | Tech_CreateJoin
  | Tech_Commit

text \<open>A new row gets an identifier above every identifier of its table.\<close>

definition fresh_id :: "nat list \<Rightarrow> nat" where
  "fresh_id ids = Suc (fold max ids 0)"

text \<open>
  \<open>Create\<close> of a batch of subdomains with \<open>ON CONFLICT (hostname, root_domain_id)\<close>.
  The table has the unique index \<open>idx_hostname_rootdomain\<close>. A row whose key is
  absent is appended under a fresh identifier. A row whose key is present is left
  out (\<open>DoNothing\<close>) or rewrites \<open>scan_id\<close>, \<open>discovered_at\<close> and \<open>is_active\<close> of the
  stored row (\<open>DoUpdates\<close>, flag \<open>upd\<close>).
\<close>

definition same_key :: "Subdomain \<Rightarrow> Subdomain \<Rightarrow> bool" where
  "same_key a b \<longleftrightarrow> sub_Hostname a = sub_Hostname b \<and> sub_RootDomainID a = sub_RootDomainID b"

definition upsert_subdomain :: "bool \<Rightarrow> Subdomain list \<Rightarrow> Subdomain \<Rightarrow> Subdomain list" where
  "upsert_subdomain upd tbl r =
     (if \<exists>x \<in> set tbl. same_key x r
      then (if upd
            then map (\<lambda>x. if same_key x r
                           then x\<lparr>sub_ScanID := sub_ScanID r, sub_DiscoveredAt := sub_DiscoveredAt r,
                                  sub_IsActive := sub_IsActive r\<rparr>
                           else x) tbl
            else tbl)
      else tbl @ [r\<lparr>sub_ID := fresh_id (map sub_ID tbl)\<rparr>])"

definition create_subdomains :: "bool \<Rightarrow> Subdomain list \<Rightarrow> store \<Rightarrow> store" where
  "create_subdomains upd rows s = s\<lparr>Subdomains := foldl (upsert_subdomain upd) (Subdomains s) rows\<rparr>"

text \<open>\<open>Where("root_domain_id = ?").Find\<close> and \<open>Where("root_domain_id = ? AND hostname IN ?").Find\<close>.\<close>

definition find_subdomains :: "nat \<Rightarrow> store \<Rightarrow> Subdomain list" where
  "find_subdomains rid s = filter (\<lambda>x. sub_RootDomainID x = rid) (Subdomains s)"

definition find_subdomains_in :: "nat \<Rightarrow> string list \<Rightarrow> store \<Rightarrow> Subdomain list" where
  "find_subdomains_in rid hosts s =
     filter (\<lambda>x. sub_RootDomainID x = rid \<and> sub_Hostname x \<in> set hosts) (Subdomains s)"

section \<open>The world outside the scanner\<close>

text \<open>
  The tools, the network, the standard library and the database are not part of the
  scanner. What they answer during one scan is collected in an environment, so that a
  statement about the scanner holds for every answer they can give.
\<close>

datatype enum_error = DeadlineExceeded | EnumError string

datatype tempfile_outcome =
  TempFileOK | TempFileCreateError string | TempFileWriteError string | TempFileCloseError string

record httpx_result =
  hx_Input :: string
  hx_Err :: "string option"
  hx_StatusCode :: int

record parsed_url =
  pu_Scheme :: string
  pu_Hostname :: string
  pu_Path :: string
  pu_Query :: "(string \<times> string list) list"

record katana_request =
  rq_URL :: string
  rq_Method :: string

record katana_response =
  rs_StatusCode :: int
  rs_Headers :: "(string \<times> string) list"

record katana_result =
  kr_Request :: "katana_request option"
  kr_Response :: "katana_response option"

datatype fetch_outcome =
  RequestError string | FetchError string | BodyReadError string | Fetched string

record env =
  clock :: nat
  db_error :: "db_site \<Rightarrow> string option"
  parse_ip :: "string \<Rightarrow> bool"
  url_parse :: "string \<Rightarrow> parsed_url option"
  publicsuffix_parse :: "string \<Rightarrow> (string \<times> string) option"
  subfinder_new_error :: "string option"
  subfinder_enumerate :: "string \<Rightarrow> string list option \<times> enum_error option"
  httpx_tempfile :: tempfile_outcome
  httpx_new_error :: "string option"
  httpx_run :: "string list \<Rightarrow> httpx_result list"
  katana_options_error :: "string option"
  katana_new_error :: "string option"
  katana_crawl :: "string \<Rightarrow> katana_result list"
  wappalyzer_new_error :: "string option"
  http_fetch :: "nat \<Rightarrow> string \<Rightarrow> fetch_outcome"
  fingerprint :: "string \<Rightarrow> string list"
  reported_id :: "string \<Rightarrow> nat"

text \<open>
  \<open>parse_ip s\<close> is \<open>net.ParseIP(s) != nil\<close>; \<open>url_parse\<close> is \<open>url.Parse\<close> with
  \<open>Hostname()\<close>, \<open>Path\<close> and \<open>Query()\<close> read off; \<open>publicsuffix_parse\<close> is
  \<open>publicsuffix.Parse\<close> and returns the SLD and the TLD; \<open>http_fetch i u\<close> is what
  building the request, sending it and reading the body give for the \<open>i\<close>-th URL \<open>u\<close> of
  a fingerprint pass; \<open>db_error\<close> is the error, if any, of each database call;
  \<open>reported_id h\<close> is the identifier the driver writes back into the row for hostname
  \<open>h\<close> of a batch inserted with a conflict clause.
\<close>

text \<open>
  The error of a write at a place of the source: the lock of an open transaction
  refuses it, otherwise the database answers as the environment says.
\<close>

definition refused :: "env \<Rightarrow> store \<Rightarrow> db_site \<Rightarrow> string option" where
  "refused E s site = (if OpenTransaction s then Some ''database is locked'' else db_error E site)"

text \<open>What one call of \<open>TakeScreenshot\<close> meets: each step succeeds or returns an error.\<close>

record capture_outcome =
  mkdir_error :: "string option"
  chromedp_error :: "string option"
  write_error :: "string option"
  insert_error :: "string option"

datatype shot_site = ExistingSubdomain | ExistingEndpoint | SavedSubdomain | CrawledEndpoint

type_synonym capture_env = "shot_site \<Rightarrow> string \<Rightarrow> nat \<Rightarrow> capture_outcome"

section \<open>Strings\<close>

text \<open>\<open>strings.ToLower\<close> on ASCII letters, \<open>strings.HasSuffix\<close>, \<open>strings.ReplaceAll\<close>, \<open>%d\<close>.\<close>

definition to_lower_char :: "char \<Rightarrow> char" where
  "to_lower_char c =
     (if (65::nat) \<le> of_char c \<and> of_char c \<le> (90::nat) then char_of (of_char c + (32::nat)) else c)"

definition ToLower :: "string \<Rightarrow> string" where
  "ToLower s = map to_lower_char s"

definition HasSuffix :: "string \<Rightarrow> string \<Rightarrow> bool" where
  "HasSuffix s suf \<longleftrightarrow> length suf \<le> length s \<and> drop (length s - length suf) s = suf"

definition HasPrefix :: "string \<Rightarrow> string \<Rightarrow> bool" where
  "HasPrefix s pre \<longleftrightarrow> take (length pre) s = pre"

function ReplaceAll :: "string \<Rightarrow> string \<Rightarrow> string \<Rightarrow> string" where
  "ReplaceAll s old new =
     (if s = [] \<or> old = [] then s
      else if HasPrefix s old then new @ ReplaceAll (drop (length old) s) old new
      else hd s # ReplaceAll (tl s) old new)"
  by pat_completeness auto
termination
  by (relation "measure (\<lambda>(s, old, new). length s)") auto

declare ReplaceAll.simps [simp del]

function show_nat :: "nat \<Rightarrow> string" where
  "show_nat n = (if n < 10 then [char_of (48 + n)] else show_nat (n div 10) @ [char_of (48 + n mod 10)])"
  by pat_completeness auto
termination
  by (relation "measure id") auto

declare show_nat.simps [simp del]

section \<open>Screenshots (screenshot\_scanner.go)\<close>

definition screenshot_path :: "string \<Rightarrow> nat \<Rightarrow> nat \<Rightarrow> string" where
  "screenshot_path targetURL scanID nanos =
     (let s1 = ReplaceAll targetURL ''://'' ''_'';
          s2 = ReplaceAll s1 ''/'' ''_'';
          s3 = ReplaceAll s2 '':'' ''_'';
          s4 = ReplaceAll s3 ''?'' ''_'';
          s5 = ReplaceAll s4 ''&'' ''_'';
          safeFilename = (if length s5 > 100 then take 100 s5 else s5)
      in ''data/screenshots/scan_'' @ show_nat scanID @ ''/'' @ safeFilename @ ''_'' @ show_nat nanos @ ''.png'')"

definition TakeScreenshot ::
  "capture_outcome \<Rightarrow> nat \<Rightarrow> string \<Rightarrow> nat \<Rightarrow> nat option \<Rightarrow> nat option \<Rightarrow> gallery
    \<Rightarrow> string option \<times> gallery" where
  "TakeScreenshot oc nanos targetURL scanID subdomainID endpointID g =
     (case mkdir_error oc of
        Some e \<Rightarrow> (Some (''failed to create screenshot directory: '' @ e), g)
      | None \<Rightarrow>
         (let filePath = screenshot_path targetURL scanID nanos in
          case chromedp_error oc of
            Some e \<Rightarrow> (None, g)
          | None \<Rightarrow>
             (case write_error oc of
                Some e \<Rightarrow> (None, g)
              | None \<Rightarrow>
                 (let g1 = g\<lparr>Files := Files g @ [filePath]\<rparr>;
                      screenshot = \<lparr>shot_SubdomainID = subdomainID, shot_EndpointID = endpointID,
                                    shot_URL = targetURL, shot_FilePath = filePath,
                                    shot_ScanID = scanID, shot_CapturedAt = nanos\<rparr>
                  in (case insert_error oc of
                        Some e \<Rightarrow> (None, g1)
                      | None \<Rightarrow> (None, g1\<lparr>Screenshots := Screenshots g1 @ [screenshot]\<rparr>))))))"

definition excludedExtensions :: "string list" where
  "excludedExtensions =
     [''.js'', ''.css'', ''.json'', ''.xml'', ''.txt'', ''.pdf'', ''.doc'', ''.docx'', ''.xls'', ''.xlsx'',
      ''.ppt'', ''.pptx'', ''.zip'', ''.rar'', ''.tar'', ''.gz'', ''.7z'', ''.jpg'', ''.jpeg'', ''.gif'',
      ''.png'', ''.svg'', ''.ico'', ''.woff'', ''.woff2'', ''.ttf'', ''.eot'', ''.mp4'', ''.mp3'', ''.avi'',
      ''.mov'', ''.csv'', ''.map'', ''.yaml'', ''.yml'', ''.md'']"

definition ShouldScreenshot :: "string \<Rightarrow> bool" where
  "ShouldScreenshot urlStr =
     (let lowerURL = takeWhile (\<lambda>c. c \<noteq> CHR ''?'') (ToLower urlStr)
      in \<not> list_ex (HasSuffix lowerURL) excludedExtensions)"

text \<open>
  A screenshot task started with \<open>go\<close>: its caller only logs the returned error, so
  the task leaves nothing but the gallery it writes.
\<close>

definition screenshot_task ::
  "capture_env \<Rightarrow> shot_site \<Rightarrow> nat \<Rightarrow> nat \<Rightarrow> nat option \<Rightarrow> nat option \<Rightarrow> string \<Rightarrow> nat
    \<Rightarrow> gallery \<Rightarrow> gallery" where
  "screenshot_task cap site nanos scanID subdomainID endpointID targetURL ident g =
     snd (TakeScreenshot (cap site targetURL ident) nanos targetURL scanID subdomainID endpointID g)"

section \<open>Discovery and reconciliation (subdomain\_scanner.go)\<close>

definition scan_updates :: "env \<Rightarrow> string \<Rightarrow> string \<Rightarrow> Scan \<Rightarrow> Scan" where
  "scan_updates E status errMsg r =
     r\<lparr>scan_Status := status,
       scan_ResultsSummary := (if errMsg \<noteq> [] then errMsg else scan_ResultsSummary r),
       scan_StartedAt := (if status = ''running'' then clock E else scan_StartedAt r),
       scan_CompletedAt := (if status = ''completed'' \<or> status = ''failed''
                            then Some (clock E) else scan_CompletedAt r)\<rparr>"

definition updateScanStatus :: "env \<Rightarrow> store \<Rightarrow> nat \<Rightarrow> string \<Rightarrow> string \<Rightarrow> store" where
  "updateScanStatus E s scanID status errMsg =
     (case refused E s (UpdateScanStatus status) of
        Some e \<Rightarrow> s
      | None \<Rightarrow>
          s\<lparr>Scans := map (\<lambda>r. if scan_ID r = scanID then scan_updates E status errMsg r else r)
                          (Scans s)\<rparr>)"

text \<open>
  \<open>runSubfinder\<close>: the result map (\<open>None\<close> is Go's nil map) and the error. A deadline
  is not an error and keeps the partial results.
\<close>

definition runSubfinder :: "env \<Rightarrow> string \<Rightarrow> string list option \<times> string option" where
  "runSubfinder E domain =
     (case subfinder_new_error E of
        Some e \<Rightarrow> (None, Some (''failed to create subfinder runner: '' @ e))
      | None \<Rightarrow>
         (case subfinder_enumerate E domain of
            (sourceMap, Some err) \<Rightarrow>
              (let uniqueSubdomains = (case sourceMap of None \<Rightarrow> [] | Some m \<Rightarrow> remdups m)
               in (case err of
                     DeadlineExceeded \<Rightarrow> (Some uniqueSubdomains, None)
                   | EnumError e \<Rightarrow>
                       (Some uniqueSubdomains,
                        Some (''failed to enumerate domain '' @ domain @ '': '' @ e))))
          | (sourceMap, None) \<Rightarrow>
              (Some (case sourceMap of None \<Rightarrow> [] | Some m \<Rightarrow> remdups m), None)))"

text \<open>
  \<open>verifyActiveSubdomains\<close>: every error path returns the nil map together with the
  error; otherwise the inputs that httpx answered without error and with a status.
\<close>

definition verifyActiveSubdomains :: "env \<Rightarrow> string list \<Rightarrow> string list option \<times> string option" where
  "verifyActiveSubdomains E subdomains =
     (if subdomains = [] then (Some [], None)
      else case httpx_tempfile E of
        TempFileCreateError e \<Rightarrow>
          (None, Some (''failed to create temporary input file for httpx: '' @ e))
      | TempFileWriteError e \<Rightarrow>
          (None, Some (''failed to write to temporary httpx input file: '' @ e))
      | TempFileCloseError e \<Rightarrow>
          (None, Some (''failed to close temporary httpx input file: '' @ e))
      | TempFileOK \<Rightarrow>
         (case httpx_new_error E of
            Some e \<Rightarrow> (None, Some (''failed to create httpx runner: '' @ e))
          | None \<Rightarrow>
              (Some (remdups (map hx_Input
                       (filter (\<lambda>r. hx_Err r = None \<and> hx_StatusCode r > 0) (httpx_run E subdomains)))),
               None)))"

text \<open>
  \<open>saveSubdomains\<close>. The rows to create are the strings of the active set that are
  not IP addresses. The returned map from hostname to identifier is an association
  list, filled in the order of the rows fetched.
\<close>

definition modelsToCreate :: "env \<Rightarrow> nat \<Rightarrow> nat \<Rightarrow> string list \<Rightarrow> Subdomain list" where
  "modelsToCreate E rootDomainID scanID subdomains =
     map (\<lambda>sub. \<lparr>sub_ID = 0, sub_RootDomainID = rootDomainID, sub_Hostname = sub, sub_IsActive = True,
                 sub_DiscoveredAt = clock E, sub_ScanID = Some scanID\<rparr>)
         (filter (\<lambda>sub. \<not> parse_ip E sub) subdomains)"

definition id_map_of :: "Subdomain list \<Rightarrow> (string \<times> nat) list" where
  "id_map_of rows = fold (\<lambda>sub m. AList.update (sub_Hostname sub) (sub_ID sub) m) rows []"

text \<open>
  \<open>Create\<close> of an empty slice is an error of the library (\<open>empty slice found\<close>); it
  is what \<open>saveSubdomains\<close> meets when every string of the active set is an IP address.
\<close>

definition create_batch_error :: "env \<Rightarrow> store \<Rightarrow> Subdomain list \<Rightarrow> string option" where
  "create_batch_error E s rows =
     (if rows = [] then Some ''empty slice found'' else refused E s SaveSubs_Create)"

definition saveSubdomains ::
  "env \<Rightarrow> store \<Rightarrow> nat \<Rightarrow> nat \<Rightarrow> string list \<Rightarrow> (string \<times> nat) list \<times> string option \<times> store" where
  "saveSubdomains E s rootDomainID scanID subdomains =
     (if subdomains = [] then ([], None, s)
      else
        (let toCreate = modelsToCreate E rootDomainID scanID subdomains in
         case create_batch_error E s toCreate of
           Some e \<Rightarrow> ([], Some (''failed to save subdomains: '' @ e), s)
         | None \<Rightarrow>
            (let s1 = create_subdomains False toCreate s;
                 hostnamesToQuery = map sub_Hostname toCreate
             in if hostnamesToQuery \<noteq> []
                then (case db_error E SaveSubs_Find of
                        Some e \<Rightarrow> ([], Some (''failed to fetch subdomain IDs after save: '' @ e), s1)
                      | None \<Rightarrow>
                          (id_map_of (find_subdomains_in rootDomainID hostnamesToQuery s1), None, s1))
                else ([], None, s1))))"

section \<open>The crawl phase\<close>

record urlScanResult =
  usr_Hostname :: string
  usr_Endpoint :: Endpoint
  usr_Params :: "Parameter list"
  usr_FullURL :: string

text \<open>
  \<open>processKatanaOutput\<close>: \<open>None\<close> is a return without a send on the channel,
  \<open>Some res\<close> is \<open>resultsChan <- res\<close>.
\<close>

definition processKatanaOutput ::
  "env \<Rightarrow> katana_result \<Rightarrow> string \<Rightarrow> nat \<Rightarrow> nat \<Rightarrow> urlScanResult option" where
  "processKatanaOutput E result rootDomain rootDomainID scanID =
     (case kr_Request result of
        None \<Rightarrow> None
      | Some request \<Rightarrow>
         (case kr_Response result of
            None \<Rightarrow> None
          | Some response \<Rightarrow>
             (if rs_StatusCode response < 200 \<or> rs_StatusCode response \<ge> 400 then None
              else case url_parse E (rq_URL request) of
                None \<Rightarrow> None
              | Some parsedURL \<Rightarrow>
                 (let hostname = pu_Hostname parsedURL in
                  if hostname = [] then None
                  else case publicsuffix_parse E hostname of
                    None \<Rightarrow> None
                  | Some (sld, tld) \<Rightarrow>
                     (let hostRootDomain = (if sld = [] then hostname else sld @ ''.'' @ tld) in
                      if hostRootDomain \<noteq> rootDomain then None
                      else Some
                        \<lparr>usr_Hostname = hostname,
                         usr_Endpoint =
                           \<lparr>ep_ID = 0, ep_SubdomainID = 0, ep_Path = pu_Path parsedURL,
                            ep_Method = rq_Method request,
                            ep_StatusCode = rs_StatusCode response,
                            ep_ContentType =
                              (case map_of (rs_Headers response) ''Content-Type'' of
                                 None \<Rightarrow> [] | Some v \<Rightarrow> v),
                            ep_DiscoveredAt = clock E, ep_ScanID = Some scanID\<rparr>,
                         usr_Params =
                           map (\<lambda>(name, values).
                                  \<lparr>par_ID = 0, par_EndpointID = 0, par_Name = name,
                                   par_ParamType = ''query'', par_DiscoveredAt = clock E\<rparr>)
                               (filter (\<lambda>(name, values). values \<noteq> []) (pu_Query parsedURL)),
                         usr_FullURL = rq_URL request\<rparr>)))))"

text \<open>
  \<open>Where(struct).Assign(attrs).FirstOrCreate(&row)\<close>. A struct condition tests the
  non-zero fields only; the first match in identifier order is taken and the non-zero
  fields of \<open>attrs\<close> are written to the row of that identifier; with no match the row is
  created under a fresh identifier. The row handed back carries the identifier.
\<close>

definition endpoint_matches :: "Endpoint \<Rightarrow> Endpoint \<Rightarrow> bool" where
  "endpoint_matches c r \<longleftrightarrow>
     (ep_SubdomainID c = 0 \<or> ep_SubdomainID r = ep_SubdomainID c) \<and>
     (ep_Path c = [] \<or> ep_Path r = ep_Path c) \<and>
     (ep_Method c = [] \<or> ep_Method r = ep_Method c)"

definition assign_endpoint :: "Endpoint \<Rightarrow> Endpoint \<Rightarrow> Endpoint" where
  "assign_endpoint a r =
     r\<lparr>ep_StatusCode := (if ep_StatusCode a = 0 then ep_StatusCode r else ep_StatusCode a),
       ep_ContentType := (if ep_ContentType a = [] then ep_ContentType r else ep_ContentType a),
       ep_DiscoveredAt := ep_DiscoveredAt a,
       ep_ScanID := (case ep_ScanID a of None \<Rightarrow> ep_ScanID r | Some i \<Rightarrow> Some i)\<rparr>"

definition first_or_create_endpoint :: "Endpoint \<Rightarrow> store \<Rightarrow> Endpoint \<times> store" where
  "first_or_create_endpoint ep s =
     (case find (endpoint_matches ep) (sort_key ep_ID (Endpoints s)) of
        Some r \<Rightarrow>
          (assign_endpoint ep r,
           s\<lparr>Endpoints := map (\<lambda>x. if ep_ID x = ep_ID r then assign_endpoint ep x else x) (Endpoints s)\<rparr>)
      | None \<Rightarrow>
          (let created = ep\<lparr>ep_ID := fresh_id (map ep_ID (Endpoints s))\<rparr>
           in (created, s\<lparr>Endpoints := Endpoints s @ [created]\<rparr>)))"

definition parameter_matches :: "Parameter \<Rightarrow> Parameter \<Rightarrow> bool" where
  "parameter_matches c r \<longleftrightarrow>
     (par_EndpointID c = 0 \<or> par_EndpointID r = par_EndpointID c) \<and>
     (par_Name c = [] \<or> par_Name r = par_Name c) \<and>
     (par_ParamType c = [] \<or> par_ParamType r = par_ParamType c)"

definition first_or_create_parameter :: "Parameter \<Rightarrow> store \<Rightarrow> store" where
  "first_or_create_parameter p s =
     (case find (parameter_matches p) (sort_key par_ID (Parameters s)) of
        Some r \<Rightarrow>
          s\<lparr>Parameters :=
              map (\<lambda>x. if par_ID x = par_ID r then x\<lparr>par_DiscoveredAt := par_DiscoveredAt p\<rparr> else x)
                  (Parameters s)\<rparr>
      | None \<Rightarrow> s\<lparr>Parameters := Parameters s @ [p\<lparr>par_ID := fresh_id (map par_ID (Parameters s))\<rparr>]\<rparr>)"

text \<open>
  \<open>saveURLScanResults\<close>, in the order of the source. The two hostname maps are
  \<open>subdomainMap\<close> (local) and \<open>existingSubdomains\<close> (the shared \<open>sync.Map\<close>, here
  \<open>cache\<close>); every value stored in the \<open>sync.Map\<close> is a \<open>uint\<close>, so its type test
  always succeeds. The four slices and maps keyed by the same index are one list of
  buffered results.
\<close>

definition load_ids :: "Subdomain list \<Rightarrow> (string \<rightharpoonup> nat) \<Rightarrow> (string \<rightharpoonup> nat)" where
  "load_ids rows m = fold (\<lambda>sub m. m(sub_Hostname sub \<mapsto> sub_ID sub)) rows m"

definition collect_result ::
  "env \<Rightarrow> string \<Rightarrow> nat \<Rightarrow> nat \<Rightarrow> urlScanResult
    \<Rightarrow> (string \<rightharpoonup> nat) \<times> Subdomain list \<times> urlScanResult list
    \<Rightarrow> (string \<rightharpoonup> nat) \<times> Subdomain list \<times> urlScanResult list" where
  "collect_result E rootDomain rootDomainID scanID res st =
     (case st of (cache, newSubdomainsToCreate, buffered) \<Rightarrow>
        (let currentHostname = usr_Hostname res;
             loaded = (cache currentHostname \<noteq> None);
             cache1 = (if loaded then cache else cache(currentHostname \<mapsto> 0));
             new1 = (if \<not> loaded \<and> currentHostname \<noteq> rootDomain
                        \<and> \<not> list_ex (\<lambda>x. sub_Hostname x = currentHostname) newSubdomainsToCreate
                     then newSubdomainsToCreate @
                          [\<lparr>sub_ID = 0, sub_RootDomainID = rootDomainID, sub_Hostname = currentHostname,
                            sub_IsActive = True, sub_DiscoveredAt = clock E, sub_ScanID = Some scanID\<rparr>]
                     else newSubdomainsToCreate)
         in (cache1, new1, buffered @ [res])))"

text \<open>
  The batch creation of the new subdomains and the refresh that follows it. The
  identifier that \<open>Create\<close> writes back into a row of the slice is what the driver
  reports (\<open>reported_id\<close>); the refresh clears \<open>subdomainMap\<close> and reads every subdomain
  of the root domain again.
\<close>

definition create_new_subdomains ::
  "env \<Rightarrow> nat \<Rightarrow> Subdomain list \<Rightarrow> store
    \<Rightarrow> (string \<rightharpoonup> nat) \<times> (string \<rightharpoonup> nat)
    \<Rightarrow> store \<times> (string \<rightharpoonup> nat) \<times> (string \<rightharpoonup> nat)" where
  "create_new_subdomains E rootDomainID new s maps =
     (case maps of (subdomainMap, cache) \<Rightarrow>
      if new = [] then (s, subdomainMap, cache)
      else
        (let (s1, cache1) =
               (case refused E s URL_CreateSubdomains of
                  Some e \<Rightarrow> (s, cache)
                | None \<Rightarrow>
                   (let s1 = create_subdomains True new s;
                        written = filter (\<lambda>sub. sub_ID sub \<noteq> 0)
                                    (map (\<lambda>sub. sub\<lparr>sub_ID := reported_id E (sub_Hostname sub)\<rparr>) new);
                        m1 = load_ids written subdomainMap;
                        c1 = load_ids written cache;
                        createdSubs = (case db_error E URL_RefetchCreated of
                                         Some e \<Rightarrow> []
                                       | None \<Rightarrow> find_subdomains_in rootDomainID (map sub_Hostname new) s1);
                        missed = fold (\<lambda>sub (m, c).
                                         if m (sub_Hostname sub) = None \<or> m (sub_Hostname sub) = Some 0
                                         then (m(sub_Hostname sub \<mapsto> sub_ID sub), c(sub_Hostname sub \<mapsto> sub_ID sub))
                                         else (m, c)) createdSubs (m1, c1)
                    in (s1, snd missed)));
             allCurrentSubdomains = (case db_error E URL_Refresh of
                                       Some e \<Rightarrow> []
                                     | None \<Rightarrow> find_subdomains rootDomainID s1)
         in (s1, load_ids allCurrentSubdomains Map.empty, load_ids allCurrentSubdomains cache1)))"

text \<open>
  Resolution of one buffered result: the refreshed map first, then the cache. A
  result without a non-zero identifier is dropped.
\<close>

definition resolve_endpoint ::
  "env \<Rightarrow> (string \<rightharpoonup> nat) \<Rightarrow> (string \<rightharpoonup> nat) \<Rightarrow> urlScanResult \<Rightarrow> urlScanResult option" where
  "resolve_endpoint E subdomainMap cache res =
     (let hostname = usr_Hostname res;
          (resolvedSubID, found) = (case subdomainMap hostname of None \<Rightarrow> (0, False) | Some v \<Rightarrow> (v, True));
          (resolvedSubID, found) =
            (if \<not> found \<or> resolvedSubID = 0
             then (case cache hostname of
                     None \<Rightarrow> (resolvedSubID, found)
                   | Some i \<Rightarrow> if i \<noteq> 0 then (i, True) else (resolvedSubID, found))
             else (resolvedSubID, found))
      in if \<not> found \<or> resolvedSubID = 0 then None
         else
           (let ep = (usr_Endpoint res)\<lparr>ep_SubdomainID := resolvedSubID\<rparr>;
                ep1 = (case url_parse E (ep_Path ep) of
                         None \<Rightarrow> ep
                       | Some parsedFinalURL \<Rightarrow>
                           if pu_Scheme parsedFinalURL \<noteq> []
                           then ep\<lparr>ep_Path := (if pu_Path parsedFinalURL = [] then ''/''
                                               else pu_Path parsedFinalURL)\<rparr>
                           else ep)
            in Some (res\<lparr>usr_Endpoint := ep1\<rparr>)))"

fun save_parameters :: "env \<Rightarrow> nat \<Rightarrow> nat \<Rightarrow> nat \<Rightarrow> Parameter list \<Rightarrow> store \<Rightarrow> store" where
  "save_parameters E i j endpointID [] s = s"
| "save_parameters E i j endpointID (param # params) s =
     save_parameters E i (Suc j) endpointID params
       (case refused E s (URL_ParamUpsert i j) of
          Some e \<Rightarrow> s
        | None \<Rightarrow> first_or_create_parameter (param\<lparr>par_EndpointID := endpointID\<rparr>) s)"

text \<open>
  One round of the loop over the final endpoints: the upsert, then (with an
  identifier) the screenshot task and the parameters.
\<close>

definition process_endpoint ::
  "env \<Rightarrow> capture_env \<Rightarrow> nat \<Rightarrow> bool \<Rightarrow> nat \<Rightarrow> urlScanResult \<Rightarrow> world \<Rightarrow> world" where
  "process_endpoint E cap scanID screenshotEnabled i res w =
     (case refused E (db w) (URL_EndpointUpsert i) of
        Some e \<Rightarrow> w
      | None \<Rightarrow>
         (case first_or_create_endpoint (usr_Endpoint res) (db w) of
            (ep, s1) \<Rightarrow>
              if ep_ID ep = 0 then w\<lparr>db := s1\<rparr>
              else
                \<lparr>db = save_parameters E i 0 (ep_ID ep) (usr_Params res) s1,
                 shots = (if screenshotEnabled \<and> ShouldScreenshot (usr_FullURL res)
                          then screenshot_task cap CrawledEndpoint (clock E) scanID None (Some (ep_ID ep))
                                 (usr_FullURL res) (ep_ID ep) (shots w)
                          else shots w)\<rparr>))"

fun process_endpoints ::
  "env \<Rightarrow> capture_env \<Rightarrow> nat \<Rightarrow> bool \<Rightarrow> nat \<Rightarrow> urlScanResult list \<Rightarrow> world \<Rightarrow> world" where
  "process_endpoints E cap scanID screenshotEnabled i [] w = w"
| "process_endpoints E cap scanID screenshotEnabled i (res # rest) w =
     process_endpoints E cap scanID screenshotEnabled (Suc i) rest
       (process_endpoint E cap scanID screenshotEnabled i res w)"

text \<open>
  The part of \<open>saveURLScanResults\<close> before the endpoint loop: the known subdomains are
  loaded, the results are collected, new subdomains are created and the maps
  refreshed, and each buffered result is resolved. It leaves the store and the final
  list of endpoints.
\<close>

definition prepare_endpoints ::
  "env \<Rightarrow> string \<Rightarrow> nat \<Rightarrow> nat \<Rightarrow> urlScanResult list \<Rightarrow> (string \<rightharpoonup> nat) \<Rightarrow> store
    \<Rightarrow> store \<times> urlScanResult list" where
  "prepare_endpoints E rootDomain rootDomainID scanID results existingSubdomains s =
     (let existingDBSubdomains = (case db_error E URL_LoadExisting of
                                    Some e \<Rightarrow> []
                                  | None \<Rightarrow> find_subdomains rootDomainID s);
          subdomainMap = load_ids existingDBSubdomains Map.empty;
          cache = load_ids existingDBSubdomains existingSubdomains
      in case fold (collect_result E rootDomain rootDomainID scanID) results (cache, [], []) of
           (cache1, newSubdomainsToCreate, buffered) \<Rightarrow>
             (case create_new_subdomains E rootDomainID newSubdomainsToCreate s (subdomainMap, cache1) of
                (s1, subdomainMap1, cache2) \<Rightarrow>
                  (s1, List.map_filter (resolve_endpoint E subdomainMap1 cache2) buffered)))"

definition saveURLScanResults ::
  "env \<Rightarrow> capture_env \<Rightarrow> string \<Rightarrow> nat \<Rightarrow> nat \<Rightarrow> urlScanResult list
    \<Rightarrow> (string \<rightharpoonup> nat) \<Rightarrow> bool \<Rightarrow> world \<Rightarrow> world" where
  "saveURLScanResults E cap rootDomain rootDomainID scanID results existingSubdomains
       screenshotEnabled w =
     (case prepare_endpoints E rootDomain rootDomainID scanID results existingSubdomains (db w) of
        (s1, finalEndpointsToCreate) \<Rightarrow>
          process_endpoints E cap scanID screenshotEnabled 0 finalEndpointsToCreate (w\<lparr>db := s1\<rparr>))"

definition ExecuteURLScan ::
  "env \<Rightarrow> capture_env \<Rightarrow> string list \<Rightarrow> string \<Rightarrow> nat \<Rightarrow> nat
    \<Rightarrow> (string \<rightharpoonup> nat) \<Rightarrow> ScanTemplate option \<Rightarrow> world \<Rightarrow> string option \<times> world" where
  "ExecuteURLScan E cap seedURLs rootDomain rootDomainID scanID existingSubdomains scanTemplate w =
     (case scanTemplate of
        None \<Rightarrow> (Some ''internal error: ExecuteURLScan called with nil scanTemplate'', w)
      | Some tmpl \<Rightarrow>
         (if seedURLs = [] then (None, w)
          else
            (let save = (\<lambda>results. saveURLScanResults E cap rootDomain rootDomainID scanID results
                                      existingSubdomains (tmpl_ScreenshotEnabled tmpl) w)
             in case katana_options_error E of
                  Some e \<Rightarrow> (Some (''failed to create crawler options: '' @ e), save [])
                | None \<Rightarrow>
                   (case katana_new_error E of
                      Some e \<Rightarrow> (Some (''failed to create standard crawler: '' @ e), save [])
                    | None \<Rightarrow>
                        (None,
                         save (List.map_filter
                                 (\<lambda>result. processKatanaOutput E result rootDomain rootDomainID scanID)
                                 (concat (map (katana_crawl E) seedURLs))))))))"

section \<open>The fingerprint phase (tech\_scanner.go)\<close>

text \<open>
  \<open>saveTechnologies\<close> works on a transaction: \<open>tx\<close> is the working copy that the
  statements of the transaction read and write, and the store handed back is what
  the database holds afterwards. \<open>Commit\<close> ends the transaction, also when it fails.
  The deferred function rolls back when \<open>tx.Error\<close> is set, but the statements of the
  transaction return their errors on handles of their own and never set it: on an
  error return before \<open>Commit\<close> nothing is committed and the transaction stays open.
\<close>

definition leave_open :: "store \<Rightarrow> store" where
  "leave_open s = s\<lparr>OpenTransaction := True\<rparr>"

definition link_technology ::
  "env \<Rightarrow> string \<Rightarrow> nat \<Rightarrow> string
    \<Rightarrow> store \<times> (string \<rightharpoonup> nat) \<times> SubdomainTechnology list
    \<Rightarrow> store \<times> (string \<rightharpoonup> nat) \<times> SubdomainTechnology list" where
  "link_technology E urlStr subdomainID techName st =
     (case st of (tx, processedTechs, joinEntriesToCreate) \<Rightarrow>
        (let normalizedTechName = ToLower techName;
             join = (\<lambda>technologyID.
                       joinEntriesToCreate @
                       [\<lparr>st_SubdomainID = subdomainID, st_TechnologyID = technologyID,
                         st_DetectedAt = clock E\<rparr>])
         in case processedTechs normalizedTechName of
              Some technologyID \<Rightarrow> (tx, processedTechs, join technologyID)
            | None \<Rightarrow>
               (case db_error E (Tech_FirstTechnology urlStr techName) of
                  Some e \<Rightarrow> (tx, processedTechs, joinEntriesToCreate)
                | None \<Rightarrow>
                   (case find (\<lambda>r. tech_Name r = normalizedTechName) (sort_key tech_ID (Technologies tx)) of
                      Some technology \<Rightarrow>
                        (tx, processedTechs(normalizedTechName \<mapsto> tech_ID technology),
                         join (tech_ID technology))
                    | None \<Rightarrow>
                       (case refused E tx (Tech_CreateTechnology urlStr techName) of
                          Some e \<Rightarrow> (tx, processedTechs, joinEntriesToCreate)
                        | None \<Rightarrow>
                           (let technologyID = fresh_id (map tech_ID (Technologies tx))
                            in (tx\<lparr>Technologies := Technologies tx @
                                     [\<lparr>tech_ID = technologyID, tech_Name = normalizedTechName\<rparr>]\<rparr>,
                                processedTechs(normalizedTechName \<mapsto> technologyID),
                                join technologyID)))))))"

definition link_url ::
  "env \<Rightarrow> (string \<rightharpoonup> nat) \<Rightarrow> string \<times> string list
    \<Rightarrow> store \<times> (string \<rightharpoonup> nat) \<times> SubdomainTechnology list
    \<Rightarrow> store \<times> (string \<rightharpoonup> nat) \<times> SubdomainTechnology list" where
  "link_url E subdomainIDMap entry st =
     (case entry of (urlStr, techs) \<Rightarrow>
        (case url_parse E urlStr of
           None \<Rightarrow> st
         | Some parsedURL \<Rightarrow>
            (let host = pu_Hostname parsedURL in
             if host = [] then st
             else case subdomainIDMap host of
                    None \<Rightarrow> st
                  | Some subdomainID \<Rightarrow> fold (link_technology E urlStr subdomainID) techs st)))"

text \<open>
  The steps of \<open>saveTechnologies\<close>: the root domain is read, the subdomain row of the
  apex hostname is found or created, every URL is linked, and the join rows are
  inserted and the transaction committed.
\<close>

definition fetch_root_domain :: "env \<Rightarrow> store \<Rightarrow> nat \<Rightarrow> string + RootDomain" where
  "fetch_root_domain E s rootDomainID =
     (case db_error E Tech_FirstRootDomain of
        Some e \<Rightarrow> Inl e
      | None \<Rightarrow> (case find (\<lambda>r. rd_ID r = rootDomainID) (RootDomains s) of
                   None \<Rightarrow> Inl ''record not found''
                 | Some r \<Rightarrow> Inr r))"

definition ensure_root_subdomain ::
  "env \<Rightarrow> store \<Rightarrow> nat \<Rightarrow> nat \<Rightarrow> RootDomain \<Rightarrow> (string \<rightharpoonup> nat) \<Rightarrow> string + store \<times> (string \<rightharpoonup> nat)" where
  "ensure_root_subdomain E s rootDomainID scanID rootDomain subdomainIDMap =
     (case find (\<lambda>x. sub_RootDomainID x = rootDomainID \<and> sub_Hostname x = rd_Domain rootDomain)
                (sort_key sub_ID (Subdomains s)) of
        Some rootSubdomain \<Rightarrow>
          Inr (s, subdomainIDMap(sub_Hostname rootSubdomain \<mapsto> sub_ID rootSubdomain))
      | None \<Rightarrow>
         (case refused E s Tech_CreateRootSubdomain of
            Some e \<Rightarrow> Inl e
          | None \<Rightarrow>
             (let rootSubdomain =
                    \<lparr>sub_ID = fresh_id (map sub_ID (Subdomains s)),
                     sub_RootDomainID = rootDomainID,
                     sub_Hostname = rd_Domain rootDomain, sub_IsActive = True,
                     sub_DiscoveredAt = clock E, sub_ScanID = Some scanID\<rparr>
              in Inr (s\<lparr>Subdomains := Subdomains s @ [rootSubdomain]\<rparr>,
                      subdomainIDMap(sub_Hostname rootSubdomain \<mapsto> sub_ID rootSubdomain)))))"

definition commit_technologies ::
  "env \<Rightarrow> store \<Rightarrow> store \<Rightarrow> SubdomainTechnology list \<Rightarrow> string option \<times> store" where
  "commit_technologies E s tx joinEntriesToCreate =
     (if joinEntriesToCreate = []
      then (case db_error E Tech_Commit of
              Some e \<Rightarrow>
                (Some (''failed to commit transaction after finding no tech relationships: '' @ e), s)
            | None \<Rightarrow> (None, tx))
      else (case refused E s Tech_CreateJoin of
              Some e \<Rightarrow> (Some (''failed to save technology relationships: '' @ e), leave_open s)
            | None \<Rightarrow>
               (case db_error E Tech_Commit of
                  Some e \<Rightarrow> (Some (''failed to commit transaction: '' @ e), s)
                | None \<Rightarrow>
                    (None,
                     tx\<lparr>SubdomainTechnologies := SubdomainTechnologies tx @ joinEntriesToCreate\<rparr>))))"

definition saveTechnologies ::
  "env \<Rightarrow> store \<Rightarrow> (string \<times> string list) list \<Rightarrow> nat \<Rightarrow> nat \<Rightarrow> string option \<times> store" where
  "saveTechnologies E s resultsByURL scanID rootDomainID =
     (if resultsByURL = [] then (None, s)
      else case db_error E Tech_Begin of
        Some e \<Rightarrow> (Some (''failed to begin transaction: '' @ e), s)
      | None \<Rightarrow>
         (case fetch_root_domain E s rootDomainID of
            Inl e \<Rightarrow> (Some (''failed to fetch root domain: '' @ e), leave_open s)
          | Inr rootDomain \<Rightarrow>
             (let existingSubdomains = (case db_error E Tech_FindSubdomains of
                                          Some e \<Rightarrow> []
                                        | None \<Rightarrow> find_subdomains rootDomainID s);
                  subdomainIDMap = load_ids existingSubdomains Map.empty
              in case db_error E Tech_FirstRootSubdomain of
                   Some e \<Rightarrow>
                     (Some (''failed to query subdomain entry for root domain '' @ rd_Domain rootDomain
                            @ '': '' @ e), leave_open s)
                 | None \<Rightarrow>
                    (case ensure_root_subdomain E s rootDomainID scanID rootDomain subdomainIDMap of
                       Inl e \<Rightarrow>
                         (Some (''failed to create subdomain entry for root domain '' @ rd_Domain rootDomain
                                @ '': '' @ e), leave_open s)
                     | Inr (tx0, subdomainIDMap1) \<Rightarrow>
                        (case fold (link_url E subdomainIDMap1) resultsByURL (tx0, Map.empty, []) of
                           (tx, processedTechs, joinEntriesToCreate) \<Rightarrow>
                             commit_technologies E s tx joinEntriesToCreate)))))"

text \<open>
  The sequential pass of \<open>ExecuteTechScan\<close> over the URLs: the results keyed by URL
  and the errors, after the URLs from position \<open>i\<close> on.
\<close>

fun fetch_all ::
  "env \<Rightarrow> nat \<Rightarrow> string list \<Rightarrow> (string \<times> string list) list \<times> string list
    \<Rightarrow> (string \<times> string list) list \<times> string list" where
  "fetch_all E i [] acc = acc"
| "fetch_all E i (urlStr # rest) acc =
     fetch_all E (Suc i) rest
       (case acc of (allResultsByURL, scanErrors) \<Rightarrow>
          (case http_fetch E i urlStr of
             RequestError e \<Rightarrow>
               (allResultsByURL,
                scanErrors @ [''url '' @ urlStr @ '': failed to create request for '' @ urlStr @ '': '' @ e])
           | FetchError e \<Rightarrow>
               (allResultsByURL,
                scanErrors @ [''url '' @ urlStr @ '': failed to fetch '' @ urlStr @ '': '' @ e])
           | BodyReadError e \<Rightarrow>
               (allResultsByURL,
                scanErrors @ [''url '' @ urlStr @ '': failed to read body for '' @ urlStr @ '': '' @ e])
           | Fetched response \<Rightarrow>
               (let fingerprints = remdups (fingerprint E response)
                in if fingerprints \<noteq> []
                   then (AList.update urlStr fingerprints allResultsByURL, scanErrors)
                   else (allResultsByURL, scanErrors))))"

definition ExecuteTechScan :: "env \<Rightarrow> store \<Rightarrow> string list \<Rightarrow> nat \<Rightarrow> nat \<Rightarrow> string option \<times> store" where
  "ExecuteTechScan E s urls scanID rootDomainID =
     (if urls = [] then (None, s)
      else case wappalyzer_new_error E of
        Some e \<Rightarrow> (Some (''failed to create wappalyzer client: '' @ e), s)
      | None \<Rightarrow>
         (case fetch_all E 0 urls ([], []) of
            (allResultsByURL, scanErrors) \<Rightarrow>
              (case saveTechnologies E s allResultsByURL scanID rootDomainID of
                 (saveErr, s1) \<Rightarrow>
                   (let scanErrors1 =
                          (case saveErr of
                             None \<Rightarrow> scanErrors
                           | Some e \<Rightarrow> scanErrors @ [''failed to save technologies: '' @ e])
                    in (case scanErrors1 of
                          [] \<Rightarrow> None
                        | e # es \<Rightarrow> Some (''technology detection encountered errors: '' @ e),
                        s1)))))"

section \<open>The orchestrator (ExecuteSubdomainScan)\<close>

text \<open>The enable flags that the template gives for the two configurable phases.\<close>

definition subfinderEnabled_of :: "string \<Rightarrow> ScanTemplate \<Rightarrow> bool" where
  "subfinderEnabled_of scanType scanTemplate =
     (if scanType = ''root_domain''
      then (case tmpl_SubdomainScanConfig scanTemplate of
              EmptyConfig \<Rightarrow> True
            | MalformedConfig \<Rightarrow> True
            | ParsedConfig subdomainSection \<Rightarrow>
                (if \<not> sec_Enabled subdomainSection then False
                 else case sec_Tools subdomainSection ''subfinder'' of
                        Some toolCfg \<Rightarrow> tool_Enabled toolCfg
                      | None \<Rightarrow> False))
      else False)"

definition urlScanEnabled_of :: "ScanTemplate \<Rightarrow> bool" where
  "urlScanEnabled_of scanTemplate =
     (case tmpl_URLScanConfig scanTemplate of
        EmptyConfig \<Rightarrow> True
      | MalformedConfig \<Rightarrow> True
      | ParsedConfig urlSection \<Rightarrow>
          (if sec_Enabled urlSection
           then (case sec_Tools urlSection ''katana'' of
                   Some toolCfg \<Rightarrow> tool_Enabled toolCfg
                 | None \<Rightarrow> False)
           else False))"

definition host_urls :: "string \<Rightarrow> string list" where
  "host_urls host = [''http://'' @ host, ''https://'' @ host]"

definition with_slash :: "string \<Rightarrow> string" where
  "with_slash path = (if HasPrefix path ''/'' then path else ''/'' @ path)"

text \<open>
  \<open>Preload("Subdomain")\<close>: the hostname of the subdomain an endpoint points to. The
  endpoints are selected by the identifiers of stored subdomains, so the subdomain
  is found.
\<close>

definition preloaded_hostname :: "store \<Rightarrow> Endpoint \<Rightarrow> string" where
  "preloaded_hostname s ep =
     (case find (\<lambda>x. sub_ID x = ep_SubdomainID ep) (Subdomains s) of
        None \<Rightarrow> [] | Some x \<Rightarrow> sub_Hostname x)"

definition shoot_urls ::
  "capture_env \<Rightarrow> shot_site \<Rightarrow> nat \<Rightarrow> nat \<Rightarrow> nat option \<Rightarrow> nat option \<Rightarrow> nat \<Rightarrow> string list
    \<Rightarrow> gallery \<Rightarrow> gallery" where
  "shoot_urls cap site nanos scanID subdomainID endpointID ident urlsToTry g =
     fold (\<lambda>urlStr g. if ShouldScreenshot urlStr
                       then screenshot_task cap site nanos scanID subdomainID endpointID urlStr ident g
                       else g) urlsToTry g"

definition screenshot_existing :: "env \<Rightarrow> capture_env \<Rightarrow> nat \<Rightarrow> nat \<Rightarrow> world \<Rightarrow> world" where
  "screenshot_existing E cap rootDomainID scanID w =
     (let existingSubdomainsDB = (case db_error E Existing_FindSubdomains of
                                    Some e \<Rightarrow> []
                                  | None \<Rightarrow> find_subdomains rootDomainID (db w));
          g1 = fold (\<lambda>sub. shoot_urls cap ExistingSubdomain (clock E) scanID (Some (sub_ID sub)) None
                              (sub_ID sub) (host_urls (sub_Hostname sub)))
                    existingSubdomainsDB (shots w);
          subdomainIDs = map sub_ID existingSubdomainsDB;
          existingEndpointsDB =
            (if subdomainIDs \<noteq> []
             then (case db_error E Existing_FindEndpoints of
                     Some e \<Rightarrow> []
                   | None \<Rightarrow> filter (\<lambda>ep. ep_SubdomainID ep \<in> set subdomainIDs) (Endpoints (db w)))
             else []);
          g2 = fold (\<lambda>ep g.
                       if preloaded_hostname (db w) ep = [] \<or> ep_Path ep = [] then g
                       else shoot_urls cap ExistingEndpoint (clock E) scanID None (Some (ep_ID ep)) (ep_ID ep)
                              (host_urls (preloaded_hostname (db w) ep @ with_slash (ep_Path ep))) g)
                    existingEndpointsDB g1
      in w\<lparr>shots := g2\<rparr>)"

text \<open>
  Discovery of a root-domain scan: the candidate set, the active set and the errors
  collected. \<open>None\<close> is the run-time panic of an assignment to an entry of the nil map
  that \<open>verifyActiveSubdomains\<close> returns together with an error.
\<close>

definition discover_root ::
  "env \<Rightarrow> string \<Rightarrow> bool \<Rightarrow> (string list \<times> string list \<times> string list) option" where
  "discover_root E targetHost subfinderEnabled =
     (let (allSubdomains, scanErrors) =
            (if subfinderEnabled
             then (case runSubfinder E targetHost of
                     (subs, Some err) \<Rightarrow> ([], [''Subfinder: '' @ err])
                   | (Some subs, None) \<Rightarrow> (subs, [])
                   | (None, None) \<Rightarrow> ([], []))
             else ([], []));
          allSubdomains1 = (if targetHost \<notin> set allSubdomains then allSubdomains @ [targetHost]
                            else allSubdomains);
          (verifiedSubs, verifyErr) = verifyActiveSubdomains E allSubdomains1;
          scanErrors1 = (case verifyErr of
                           None \<Rightarrow> scanErrors
                         | Some e \<Rightarrow> scanErrors @ [''Subdomain verification: '' @ e])
      in if targetHost \<in> set allSubdomains1
         then (case verifiedSubs of
                 None \<Rightarrow> None
               | Some activeSubdomains \<Rightarrow>
                   Some (allSubdomains1,
                         (if targetHost \<notin> set activeSubdomains then activeSubdomains @ [targetHost]
                          else activeSubdomains),
                         scanErrors1))
         else Some (allSubdomains1, (case verifiedSubs of None \<Rightarrow> [] | Some a \<Rightarrow> a), scanErrors1))"

definition seed_urls :: "string \<Rightarrow> string \<Rightarrow> string list \<Rightarrow> string list" where
  "seed_urls scanType targetHost activeSubdomains =
     (if scanType = ''root_domain''
      then host_urls targetHost @ concat (map host_urls (filter (\<lambda>host. host \<noteq> targetHost) activeSubdomains))
      else host_urls targetHost)"

text \<open>The URLs of the fingerprint phase and the errors of the reads that gather them.\<close>

definition endpoint_urls :: "string \<Rightarrow> string \<Rightarrow> string list" where
  "endpoint_urls host path = (if host \<noteq> [] \<and> path \<noteq> [] then host_urls (host @ with_slash path) else [])"

definition gather_tech_urls ::
  "env \<Rightarrow> store \<Rightarrow> string \<Rightarrow> string \<Rightarrow> nat \<Rightarrow> (string \<times> nat) list \<Rightarrow> string list \<times> string list" where
  "gather_tech_urls E s scanType targetHost rootDomainID savedSubdomainMap =
     (if scanType = ''root_domain''
      then
        (let (allDbSubdomains, errs1) =
               (case db_error E TechURLs_FindSubdomains of
                  Some e \<Rightarrow> ([], [''Tech Detect Target Fetch (Subdomains): '' @ e])
                | None \<Rightarrow> (find_subdomains rootDomainID s, []));
             subdomainIDs = map sub_ID allDbSubdomains;
             (allDbEndpoints, errs2) =
               (if subdomainIDs \<noteq> []
                then (case db_error E TechURLs_FindEndpoints of
                        Some e \<Rightarrow> ([], [''Tech Detect Target Fetch (Endpoints): '' @ e])
                      | None \<Rightarrow> (filter (\<lambda>ep. ep_SubdomainID ep \<in> set subdomainIDs) (Endpoints s), []))
                else ([], []))
         in (remdups (concat (map (\<lambda>sub. host_urls (sub_Hostname sub)) allDbSubdomains)
                      @ concat (map (\<lambda>ep. endpoint_urls (preloaded_hostname s ep) (ep_Path ep)) allDbEndpoints)),
             errs1 @ errs2))
      else
        (let found = (case map_of savedSubdomainMap targetHost of
                        Some i \<Rightarrow> Some i
                      | None \<Rightarrow>
                         (case db_error E TechURLs_FirstSubdomain of
                            Some e \<Rightarrow> None
                          | None \<Rightarrow>
                             map_option sub_ID
                               (find (\<lambda>x. sub_Hostname x = targetHost \<and> sub_RootDomainID x = rootDomainID)
                                     (sort_key sub_ID (Subdomains s)))));
             (paths, errs) =
               (case found of
                  None \<Rightarrow> ([], [])
                | Some targetSubdomainID \<Rightarrow>
                   (case db_error E TechURLs_FindTargetEndpoints of
                      Some e \<Rightarrow> ([], [''Tech Detect Target Fetch (Endpoints for '' @ targetHost @ ''): '' @ e])
                    | None \<Rightarrow>
                       (map ep_Path (filter (\<lambda>ep. ep_SubdomainID ep = targetSubdomainID) (Endpoints s)), [])))
         in (remdups (host_urls targetHost @ concat (map (endpoint_urls targetHost) paths)), errs)))"

datatype scan_outcome = Crashed | Aborted world | Finished world "string list"

definition finalStatus :: "string list \<Rightarrow> string" where
  "finalStatus scanErrors = (if length scanErrors > 0 then ''failed'' else ''completed'')"

text \<open>\<open>strings.Join(scanErrors, "; ")\<close>.\<close>

fun Join :: "string list \<Rightarrow> string \<Rightarrow> string" where
  "Join [] sep = []"
| "Join [x] sep = x"
| "Join (x # y # ys) sep = x @ sep @ Join (y # ys) sep"

definition finalMessage :: "string list \<Rightarrow> string" where
  "finalMessage scanErrors =
     (if length scanErrors > 0 then Join scanErrors ''; '' else ''Scan completed successfully'')"

text \<open>
  The phases after discovery, in the order of the source: the active set is saved,
  the saved hosts are captured, the URL scan runs, technologies are detected. Each
  phase hands on the world and the error list.
\<close>

definition save_active ::
  "env \<Rightarrow> nat \<Rightarrow> nat \<Rightarrow> string list \<Rightarrow> string list \<Rightarrow> world
    \<Rightarrow> (string \<times> nat) list \<times> string list \<times> world" where
  "save_active E rootDomainID scanID activeSubdomains scanErrors w =
     (if length activeSubdomains > 0
      then (case saveSubdomains E (db w) rootDomainID scanID activeSubdomains of
              (saved, saveErr, s1) \<Rightarrow>
                (saved,
                 (case saveErr of
                    None \<Rightarrow> scanErrors
                  | Some e \<Rightarrow> scanErrors @ [''Subdomain Save/ID Fetch: '' @ e]),
                 w\<lparr>db := s1\<rparr>))
      else ([], scanErrors, w))"

definition screenshot_saved ::
  "env \<Rightarrow> capture_env \<Rightarrow> nat \<Rightarrow> ScanTemplate \<Rightarrow> (string \<times> nat) list \<Rightarrow> world \<Rightarrow> world" where
  "screenshot_saved E cap scanID scanTemplate savedSubdomainMap w =
     (if tmpl_ScreenshotEnabled scanTemplate \<and> length savedSubdomainMap > 0
      then w\<lparr>shots :=
               fold (\<lambda>(hostname, subID).
                       shoot_urls cap SavedSubdomain (clock E) scanID (Some subID) None subID
                         (host_urls hostname))
                    savedSubdomainMap (shots w)\<rparr>
      else w)"

definition url_scan_phase ::
  "env \<Rightarrow> capture_env \<Rightarrow> string \<Rightarrow> string \<Rightarrow> nat \<Rightarrow> nat \<Rightarrow> ScanTemplate \<Rightarrow> string list
    \<Rightarrow> (string \<times> nat) list \<Rightarrow> string list \<Rightarrow> world \<Rightarrow> string list \<times> world" where
  "url_scan_phase E cap targetHost scanType rootDomainID scanID scanTemplate activeSubdomains
       savedSubdomainMap scanErrors w =
     (if urlScanEnabled_of scanTemplate
      then (case ExecuteURLScan E cap (seed_urls scanType targetHost activeSubdomains) targetHost
                   rootDomainID scanID (map_of savedSubdomainMap) (Some scanTemplate) w of
              (urlScanErr, w1) \<Rightarrow>
                ((case urlScanErr of
                    None \<Rightarrow> scanErrors
                  | Some e \<Rightarrow> scanErrors @ [''URL Scan: '' @ e]), w1))
      else (scanErrors, w))"

definition tech_phase ::
  "env \<Rightarrow> string \<Rightarrow> string \<Rightarrow> nat \<Rightarrow> nat \<Rightarrow> ScanTemplate \<Rightarrow> (string \<times> nat) list \<Rightarrow> string list
    \<Rightarrow> store \<Rightarrow> store \<times> string list" where
  "tech_phase E targetHost scanType rootDomainID scanID scanTemplate savedSubdomainMap scanErrors s =
     (if tmpl_TechDetectEnabled scanTemplate
      then (case gather_tech_urls E s scanType targetHost rootDomainID savedSubdomainMap of
              (finalUrlsToScan, fetchErrs) \<Rightarrow>
                (if finalUrlsToScan = [] then (s, scanErrors @ fetchErrs)
                 else case ExecuteTechScan E s finalUrlsToScan scanID rootDomainID of
                        (techScanErr, s1) \<Rightarrow>
                          (s1,
                           (case techScanErr of
                              None \<Rightarrow> scanErrors @ fetchErrs
                            | Some e \<Rightarrow> scanErrors @ fetchErrs @ [''Tech Detect: '' @ e]))))
      else (s, scanErrors))"

definition run_phases ::
  "env \<Rightarrow> capture_env \<Rightarrow> string \<Rightarrow> string \<Rightarrow> nat \<Rightarrow> nat \<Rightarrow> ScanTemplate \<Rightarrow> string list \<Rightarrow> string list
    \<Rightarrow> world \<Rightarrow> world \<times> string list" where
  "run_phases E cap targetHost scanType rootDomainID scanID scanTemplate activeSubdomains scanErrors w =
     (case save_active E rootDomainID scanID activeSubdomains scanErrors w of
        (savedSubdomainMap, scanErrors1, w1) \<Rightarrow>
          (case url_scan_phase E cap targetHost scanType rootDomainID scanID scanTemplate activeSubdomains
                  savedSubdomainMap scanErrors1
                  (screenshot_saved E cap scanID scanTemplate savedSubdomainMap w1) of
             (scanErrors2, w3) \<Rightarrow>
               (case tech_phase E targetHost scanType rootDomainID scanID scanTemplate savedSubdomainMap
                       scanErrors2 (db w3) of
                  (s4, scanErrors3) \<Rightarrow> (w3\<lparr>db := s4\<rparr>, scanErrors3))))"

text \<open>
  The start of a scan (status \<open>running\<close>, screenshots of the assets already known) and
  its end (the phases, then the final status and summary).
\<close>

definition start_scan :: "env \<Rightarrow> capture_env \<Rightarrow> nat \<Rightarrow> nat \<Rightarrow> ScanTemplate \<Rightarrow> world \<Rightarrow> world" where
  "start_scan E cap rootDomainID scanID scanTemplate w =
     (let w1 = w\<lparr>db := updateScanStatus E (db w) scanID ''running'' []\<rparr>
      in if tmpl_ScreenshotEnabled scanTemplate then screenshot_existing E cap rootDomainID scanID w1
         else w1)"

definition finish_scan ::
  "env \<Rightarrow> capture_env \<Rightarrow> string \<Rightarrow> string \<Rightarrow> nat \<Rightarrow> nat \<Rightarrow> ScanTemplate \<Rightarrow> string list \<Rightarrow> string list
    \<Rightarrow> world \<Rightarrow> scan_outcome" where
  "finish_scan E cap targetHost scanType rootDomainID scanID scanTemplate activeSubdomains scanErrors w =
     (case run_phases E cap targetHost scanType rootDomainID scanID scanTemplate activeSubdomains
             scanErrors w of
        (w3, errs) \<Rightarrow>
          Finished (w3\<lparr>db := updateScanStatus E (db w3) scanID (finalStatus errs) (finalMessage errs)\<rparr>)
                   errs)"

definition ExecuteSubdomainScan ::
  "env \<Rightarrow> capture_env \<Rightarrow> string \<Rightarrow> string \<Rightarrow> nat \<Rightarrow> nat \<Rightarrow> ScanTemplate option \<Rightarrow> world
    \<Rightarrow> scan_outcome" where
  "ExecuteSubdomainScan E cap targetHost scanType rootDomainID scanID scanTemplate w =
     (case scanTemplate of
        None \<Rightarrow>
          Aborted (w\<lparr>db := updateScanStatus E (db w) scanID ''failed''
                               ''Internal error: Scan template missing''\<rparr>)
      | Some tmpl \<Rightarrow>
         (let w2 = start_scan E cap rootDomainID scanID tmpl w
          in if scanType = ''root_domain''
             then (case discover_root E targetHost (subfinderEnabled_of scanType tmpl) of
                     None \<Rightarrow> Crashed
                   | Some (allSubdomains, activeSubdomains, scanErrors) \<Rightarrow>
                       finish_scan E cap targetHost scanType rootDomainID scanID tmpl
                         activeSubdomains scanErrors w2)
             else if scanType = ''subdomain''
             then finish_scan E cap targetHost scanType rootDomainID scanID tmpl [targetHost] [] w2
             else Aborted (w2\<lparr>db := updateScanStatus E (db w2) scanID ''failed''
                                      (''Internal error: Unknown scanType '' @ scanType)\<rparr>)))"

section \<open>Notions used in the statements\<close>

text \<open>
  A fetch of the fingerprint pass failed if it did not produce a response; the
  technologies detected on an outcome are the non-empty set the provider finds on
  the response. \<open>fetch_step\<close> is one round of the loop of \<open>ExecuteTechScan\<close>.
\<close>

definition fetch_failed :: "fetch_outcome \<Rightarrow> bool" where
  "fetch_failed oc = (case oc of Fetched response \<Rightarrow> False | _ \<Rightarrow> True)"

definition detected :: "env \<Rightarrow> fetch_outcome \<Rightarrow> string list option" where
  "detected E oc =
     (case oc of
        Fetched response \<Rightarrow>
          (if remdups (fingerprint E response) = [] then None else Some (remdups (fingerprint E response)))
      | _ \<Rightarrow> None)"

definition fetch_step ::
  "env \<Rightarrow> nat \<Rightarrow> string \<Rightarrow> (string \<times> string list) list \<times> string list
     \<Rightarrow> (string \<times> string list) list \<times> string list" where
  "fetch_step E i urlStr acc = fetch_all E i [urlStr] acc"

text \<open>
  A sample environment for evaluating the scanner: a root domain \<open>example.com\<close> with one
  further host, one crawled URL with a query parameter, one detected technology, and
  no failure anywhere.
\<close>

definition example_url_parse :: "string \<Rightarrow> parsed_url option" where
  "example_url_parse u =
     (let (scheme, rest) = (if HasPrefix u ''https://'' then (''https'', drop 8 u)
                            else if HasPrefix u ''http://'' then (''http'', drop 7 u)
                            else ([], u));
          host = (if scheme = [] then [] else takeWhile (\<lambda>c. c \<noteq> CHR ''/'' \<and> c \<noteq> CHR ''?'') rest);
          after = drop (length host) rest;
          path = takeWhile (\<lambda>c. c \<noteq> CHR ''?'') after;
          query = drop (Suc (length path)) after
      in Some \<lparr>pu_Scheme = scheme, pu_Hostname = host, pu_Path = path,
               pu_Query = (if query = [] then []
                           else [(takeWhile (\<lambda>c. c \<noteq> CHR ''='') query,
                                  [drop (Suc (length (takeWhile (\<lambda>c. c \<noteq> CHR ''='') query))) query])])\<rparr>)"

definition example_publicsuffix :: "string \<Rightarrow> (string \<times> string) option" where
  "example_publicsuffix h =
     (if h = ''example.com'' \<or> HasSuffix h ''.example.com'' then Some (''example'', ''com'')
      else if h = ''other.com'' \<or> HasSuffix h ''.other.com'' then Some (''other'', ''com'')
      else None)"

definition example_result :: "string \<Rightarrow> katana_result" where
  "example_result u =
     \<lparr>kr_Request = Some \<lparr>rq_URL = u, rq_Method = ''GET''\<rparr>,
      kr_Response = Some \<lparr>rs_StatusCode = 200, rs_Headers = [(''Content-Type'', ''text/html'')]\<rparr>\<rparr>"

definition example_env :: env where
  "example_env =
     \<lparr>clock = 1000,
      db_error = (\<lambda>site. None),
      parse_ip = (\<lambda>s. s = ''192.0.2.7''),
      url_parse = example_url_parse,
      publicsuffix_parse = example_publicsuffix,
      subfinder_new_error = None,
      subfinder_enumerate = (\<lambda>d. (Some [''www.'' @ d, ''192.0.2.7''], None)),
      httpx_tempfile = TempFileOK,
      httpx_new_error = None,
      httpx_run = map (\<lambda>h. \<lparr>hx_Input = h, hx_Err = None, hx_StatusCode = 200\<rparr>),
      katana_options_error = None,
      katana_new_error = None,
      katana_crawl = (\<lambda>seed. if HasPrefix seed ''https://'' then [example_result (seed @ ''/login?next=1'')] else []),
      wappalyzer_new_error = None,
      http_fetch = (\<lambda>i u. Fetched u),
      fingerprint = (\<lambda>response. if HasPrefix response ''https://'' then [''Nginx''] else []),
      reported_id = (\<lambda>h. 0)\<rparr>"

definition example_capture :: capture_env where
  "example_capture = (\<lambda>site u i. \<lparr>mkdir_error = None, chromedp_error = None, write_error = None,
                                     insert_error = None\<rparr>)"

definition example_template :: ScanTemplate where
  "example_template =
     \<lparr>tmpl_SubdomainScanConfig = EmptyConfig, tmpl_URLScanConfig = EmptyConfig,
      tmpl_TechDetectEnabled = True, tmpl_ScreenshotEnabled = False\<rparr>"

definition example_world :: world where
  "example_world =
     \<lparr>db = \<lparr>RootDomains = [\<lparr>rd_ID = 1, rd_Domain = ''example.com''\<rparr>], Subdomains = [], Endpoints = [],
             Parameters = [], Technologies = [], SubdomainTechnologies = [],
             Scans = [\<lparr>scan_ID = 7, scan_Status = ''pending'', scan_ResultsSummary = [],
                       scan_StartedAt = 0, scan_CompletedAt = None\<rparr>],
             OpenTransaction = False\<rparr>,
      shots = \<lparr>Screenshots = [], Files = []\<rparr>\<rparr>"

text \<open>
  A fingerprint pass of three URLs whose second fetch is refused.
\<close>

definition refusing_env :: env where
  "refusing_env = example_env\<lparr>http_fetch := (\<lambda>i u. if i = 1 then FetchError ''connection refused'' else Fetched u)\<rparr>"

definition three_urls :: "string list" where
  "three_urls = [''https://a.example.com'', ''https://b.example.com'', ''https://c.example.com'']"

text \<open>
  The outcome of a scan without the gallery: what the catalogue, the scan row and
  the error list show.
\<close>

fun forget_gallery :: "scan_outcome \<Rightarrow> scan_outcome" where
  "forget_gallery Crashed = Crashed"
| "forget_gallery (Aborted w) = Aborted (w\<lparr>shots := \<lparr>Screenshots = [], Files = []\<rparr>\<rparr>)"
| "forget_gallery (Finished w errs) = Finished (w\<lparr>shots := \<lparr>Screenshots = [], Files = []\<rparr>\<rparr>) errs"

text \<open>
  A capture engine that fails every navigation, and the sample template with
  screenshots switched on.
\<close>

definition failing_capture :: capture_env where
  "failing_capture = (\<lambda>site u i. \<lparr>mkdir_error = None, chromedp_error = Some ''timeout'',
                                     write_error = None, insert_error = None\<rparr>)"

definition shooting_template :: ScanTemplate where
  "shooting_template = example_template\<lparr>tmpl_ScreenshotEnabled := True\<rparr>"

text \<open>
  A store has no zero reference when no endpoint points to subdomain 0 and no
  parameter points to endpoint 0.
\<close>

definition no_zero_references :: "store \<Rightarrow> bool" where
  "no_zero_references s \<longleftrightarrow>
     (\<forall>e \<in> set (Endpoints s). ep_SubdomainID e \<noteq> 0) \<and> (\<forall>p \<in> set (Parameters s). par_EndpointID p \<noteq> 0)"

text \<open>
  A crawl result on a host that is not yet known, and a store that refuses the batch
  insert of new subdomains.
\<close>

definition ghost_result :: urlScanResult where
  "ghost_result =
     \<lparr>usr_Hostname = ''ghost.example.com'',
      usr_Endpoint = \<lparr>ep_ID = 0, ep_SubdomainID = 0, ep_Path = ''/x'', ep_Method = ''GET'',
                      ep_StatusCode = 200, ep_ContentType = ''text/html'', ep_DiscoveredAt = 1000,
                      ep_ScanID = Some 7\<rparr>,
      usr_Params = [\<lparr>par_ID = 0, par_EndpointID = 0, par_Name = ''q'', par_ParamType = ''query'',
                     par_DiscoveredAt = 1000\<rparr>],
      usr_FullURL = ''https://ghost.example.com/x?q=1''\<rparr>"

definition locked_env :: env where
  "locked_env = example_env\<lparr>db_error := (\<lambda>site. if site = URL_CreateSubdomains
                                                    then Some ''database is locked'' else None)\<rparr>"


text \<open>
  The sample scan in a store that refuses the insert of the association rows of the
  fingerprint batch.
\<close>

definition leaking_env :: env where
  "leaking_env = example_env\<lparr>db_error := (\<lambda>site. if site = Tech_CreateJoin then Some ''disk I/O error''
                                                     else None)\<rparr>"

text \<open>
  The natural keys of the three catalogue tables, and a row's identity: its
  identifier together with its natural key.
\<close>

definition subdomain_key :: "Subdomain \<Rightarrow> string \<times> nat" where
  "subdomain_key r = (sub_Hostname r, sub_RootDomainID r)"

definition endpoint_key :: "Endpoint \<Rightarrow> nat \<times> string \<times> string" where
  "endpoint_key r = (ep_SubdomainID r, ep_Path r, ep_Method r)"

definition parameter_key :: "Parameter \<Rightarrow> nat \<times> string \<times> string" where
  "parameter_key r = (par_EndpointID r, par_Name r, par_ParamType r)"

definition subdomain_ident :: "Subdomain \<Rightarrow> nat \<times> string \<times> nat" where
  "subdomain_ident r = (sub_ID r, subdomain_key r)"

definition endpoint_ident :: "Endpoint \<Rightarrow> nat \<times> nat \<times> string \<times> string" where
  "endpoint_ident r = (ep_ID r, endpoint_key r)"

definition parameter_ident :: "Parameter \<Rightarrow> nat \<times> nat \<times> string \<times> string" where
  "parameter_ident r = (par_ID r, parameter_key r)"

text \<open>
  A table of identities \<open>new\<close> continues a table \<open>old\<close> when it starts with the rows of
  \<open>old\<close>, each in its place with its identifier and key, and goes on with rows whose
  keys differ from one another and from every key of \<open>old\<close>.
\<close>

definition continues :: "('i \<times> 'k) list \<Rightarrow> ('i \<times> 'k) list \<Rightarrow> bool" where
  "continues old new \<longleftrightarrow>
     take (length old) new = old \<and>
     distinct (map snd (drop (length old) new)) \<and>
     (\<forall>k \<in> set (map snd (drop (length old) new)). k \<notin> set (map snd old))"


definition tech_state_le ::
  "store \<times> (string \<rightharpoonup> nat) \<times> SubdomainTechnology list
    \<Rightarrow> store \<times> (string \<rightharpoonup> nat) \<times> SubdomainTechnology list \<Rightarrow> bool" where
  "tech_state_le st st' \<longleftrightarrow>
     set (Technologies (fst st)) \<subseteq> set (Technologies (fst st')) \<and>
     set (snd (snd st)) \<subseteq> set (snd (snd st'))"






text \<open>
  An identifier is held for a hostname when it is the identifier of a subdomain row
  of that hostname under the root domain, or the identifier the caller's map gives
  for the hostname, or the identifier the driver reported for the hostname's new row.
\<close>

definition id_held :: "env \<Rightarrow> (string \<rightharpoonup> nat) \<Rightarrow> store \<Rightarrow> nat \<Rightarrow> string \<Rightarrow> nat \<Rightarrow> bool" where
  "id_held E existingSubdomains s rootDomainID host i \<longleftrightarrow>
     list_ex (\<lambda>x. sub_ID x = i \<and> sub_Hostname x = host \<and> sub_RootDomainID x = rootDomainID) (Subdomains s)
     \<or> existingSubdomains host = Some i
     \<or> reported_id E host = i"

text \<open>
  The non-zero identifiers of a hostname map all satisfy a property of the hostname
  and the identifier.
\<close>

definition ids_from :: "(string \<Rightarrow> nat \<Rightarrow> bool) \<Rightarrow> (string \<rightharpoonup> nat) \<Rightarrow> bool" where
  "ids_from H m \<longleftrightarrow> (\<forall>h i. m h = Some i \<longrightarrow> i = 0 \<or> H h i)"

text \<open>
  An endpoint row is written for a result when it has an identifier and the
  result's subdomain, path and method. A parameter row is written for a result in a
  store when it has an identifier, the name and type of a parameter of the result,
  and points to an endpoint row of the store that belongs to the result's subdomain.
\<close>

definition endpoint_written_for :: "urlScanResult \<Rightarrow> Endpoint \<Rightarrow> bool" where
  "endpoint_written_for res e \<longleftrightarrow> ep_ID e \<noteq> 0 \<and> endpoint_key e = endpoint_key (usr_Endpoint res)"

definition parameter_written_for :: "store \<Rightarrow> urlScanResult \<Rightarrow> Parameter \<Rightarrow> bool" where
  "parameter_written_for s res p \<longleftrightarrow>
     par_ID p \<noteq> 0 \<and> par_EndpointID p \<noteq> 0 \<and>
     list_ex (\<lambda>q. par_Name q = par_Name p \<and> par_ParamType q = par_ParamType p) (usr_Params res) \<and>
     list_ex (\<lambda>e. ep_ID e = par_EndpointID p \<and> ep_SubdomainID e = ep_SubdomainID (usr_Endpoint res))
             (Endpoints s)"

text \<open>
  The sample store after the apex hostname has been saved, and a crawl result on the
  apex hostname.
\<close>

definition known_world :: world where
  "known_world =
     example_world\<lparr>db := (db example_world)\<lparr>Subdomains :=
       [\<lparr>sub_ID = 1, sub_RootDomainID = 1, sub_Hostname = ''example.com'', sub_IsActive = True,
         sub_DiscoveredAt = 900, sub_ScanID = Some 6\<rparr>]\<rparr>\<rparr>"

definition login_result :: urlScanResult where
  "login_result =
     \<lparr>usr_Hostname = ''example.com'',
      usr_Endpoint = \<lparr>ep_ID = 0, ep_SubdomainID = 0, ep_Path = ''/login'', ep_Method = ''GET'',
                      ep_StatusCode = 200, ep_ContentType = ''text/html'', ep_DiscoveredAt = 1000,
                      ep_ScanID = Some 7\<rparr>,
      usr_Params = [\<lparr>par_ID = 0, par_EndpointID = 0, par_Name = ''next'', par_ParamType = ''query'',
                     par_DiscoveredAt = 1000\<rparr>],
      usr_FullURL = ''https://example.com/login?next=1''\<rparr>"

section \<open>Properties\<close>

text \<open>
  C10. \<open>TakeScreenshot\<close> returns an error exactly when the screenshot directory cannot
  be created: a navigation or capture error, a file write error and a failed insert
  of the Screenshot row all return nil.
\<close>

theorem TakeScreenshot_error_iff_mkdir:
  "fst (TakeScreenshot oc now targetURL scanID subdomainID endpointID g) \<noteq> None
     \<longleftrightarrow> mkdir_error oc \<noteq> None"
  by (simp add: TakeScreenshot_def Let_def split: option.split)

subsection \<open>IP addresses are not persisted\<close>

lemma upsert_hostnames:
  "sub_Hostname ` set (upsert_subdomain upd tbl r) \<subseteq> insert (sub_Hostname r) (sub_Hostname ` set tbl)"
  by (auto simp: upsert_subdomain_def)

lemma foldl_upsert_hostnames:
  "sub_Hostname ` set (foldl (upsert_subdomain upd) tbl rows)
     \<subseteq> sub_Hostname ` set tbl \<union> sub_Hostname ` set rows"
proof (induction rows arbitrary: tbl)
  case Nil
  then show ?case by simp
next
  case (Cons r rows)
  have "sub_Hostname ` set (foldl (upsert_subdomain upd) (upsert_subdomain upd tbl r) rows)
          \<subseteq> sub_Hostname ` set (upsert_subdomain upd tbl r) \<union> sub_Hostname ` set rows"
    by (rule Cons.IH)
  also have "\<dots> \<subseteq> insert (sub_Hostname r) (sub_Hostname ` set tbl) \<union> sub_Hostname ` set rows"
    using upsert_hostnames [of upd tbl r] by blast
  finally show ?case by auto
qed

lemma modelsToCreate_hostnames:
  "map sub_Hostname (modelsToCreate E rootDomainID scanID subdomains) = filter (\<lambda>sub. \<not> parse_ip E sub) subdomains"
  by (simp add: modelsToCreate_def comp_def)

lemma create_models_hostnames:
  "sub_Hostname ` set (Subdomains (create_subdomains False (modelsToCreate E rootDomainID scanID subdomains) s))
     \<subseteq> sub_Hostname ` set (Subdomains s) \<union> {h \<in> set subdomains. \<not> parse_ip E h}"
proof -
  have "sub_Hostname ` set (modelsToCreate E rootDomainID scanID subdomains)
          = set (filter (\<lambda>sub. \<not> parse_ip E sub) subdomains)"
    using modelsToCreate_hostnames [of E rootDomainID scanID subdomains]
    by (metis set_map)
  then show ?thesis
    using foldl_upsert_hostnames [of False "Subdomains s" "modelsToCreate E rootDomainID scanID subdomains"]
    by (simp add: create_subdomains_def)
qed

lemma saveSubdomains_store:
  "snd (snd (saveSubdomains E s rootDomainID scanID subdomains)) = s \<or>
   snd (snd (saveSubdomains E s rootDomainID scanID subdomains))
     = create_subdomains False (modelsToCreate E rootDomainID scanID subdomains) s"
  by (simp add: saveSubdomains_def Let_def split: option.splits)

subsection \<open>A failed fetch skips one URL only\<close>

lemma fetch_all_Cons: "fetch_all E i (urlStr # rest) acc = fetch_all E (Suc i) rest (fetch_step E i urlStr acc)"
  by (simp add: fetch_step_def)

lemma fetch_step_results:
  "map_of (fst (fetch_step E i urlStr acc)) v =
     (if v = urlStr
      then (case detected E (http_fetch E i urlStr) of None \<Rightarrow> map_of (fst acc) v | Some fp \<Rightarrow> Some fp)
      else map_of (fst acc) v)"
  by (cases acc; cases "http_fetch E i urlStr")
     (simp_all add: fetch_step_def detected_def Let_def update_conv')

lemma fetch_step_errors:
  "length (snd (fetch_step E i urlStr acc)) =
     length (snd acc) + (if fetch_failed (http_fetch E i urlStr) then 1 else 0)"
  by (cases acc; cases "http_fetch E i urlStr")
     (simp_all add: fetch_step_def fetch_failed_def Let_def)

lemma fetch_all_other:
  "v \<notin> set urls \<Longrightarrow> map_of (fst (fetch_all E i urls acc)) v = map_of (fst acc) v"
proof (induction urls arbitrary: i acc)
  case Nil
  then show ?case by simp
next
  case (Cons u urls)
  then have "v \<noteq> u" and "v \<notin> set urls" by auto
  then show ?case
    using Cons.IH [of "Suc i" "fetch_step E i u acc"]
    by (simp add: fetch_all_Cons fetch_step_results del: fetch_all.simps)
qed

lemma fetch_all_at:
  "distinct urls \<Longrightarrow> (j, u) \<in> set (enumerate i urls) \<Longrightarrow>
     map_of (fst (fetch_all E i urls acc)) u =
       (case detected E (http_fetch E j u) of None \<Rightarrow> map_of (fst acc) u | Some fp \<Rightarrow> Some fp)"
proof (induction urls arbitrary: i acc)
  case Nil
  then show ?case by simp
next
  case (Cons x urls)
  from Cons.prems have dist: "distinct urls" and notin: "x \<notin> set urls" by auto
  from Cons.prems(2) consider "j = i" "u = x" | "(j, u) \<in> set (enumerate (Suc i) urls)"
    by auto
  then show ?case
  proof cases
    case 1
    then show ?thesis
      using fetch_all_other [OF notin, of E "Suc i" "fetch_step E i x acc"]
      by (simp add: fetch_all_Cons fetch_step_results del: fetch_all.simps split: option.split)
  next
    case 2
    then have "u \<in> set urls" by (auto simp: in_set_enumerate_eq)
    with notin have "u \<noteq> x" by auto
    then show ?thesis
      using Cons.IH [OF dist 2, of "fetch_step E i x acc"]
      by (simp add: fetch_all_Cons fetch_step_results del: fetch_all.simps split: option.split)
  qed
qed

lemma fetch_all_errors:
  "length (snd (fetch_all E i urls acc)) =
     length (snd acc) + length (filter (\<lambda>(j, u). fetch_failed (http_fetch E j u)) (enumerate i urls))"
proof (induction urls arbitrary: i acc)
  case Nil
  then show ?case by simp
next
  case (Cons x urls)
  show ?case
    using Cons.IH [of "Suc i" "fetch_step E i x acc"]
    by (simp add: fetch_all_Cons fetch_step_errors del: fetch_all.simps)
qed

lemma fetch_all_dom:
  "map_of (fst (fetch_all E i urls acc)) v \<noteq> None \<Longrightarrow> v \<in> set urls \<or> map_of (fst acc) v \<noteq> None"
  using fetch_all_other by metis

lemma ExecuteTechScan_saves:
  "urls \<noteq> [] \<Longrightarrow> wappalyzer_new_error E = None \<Longrightarrow>
     snd (ExecuteTechScan E s urls scanID rootDomainID)
       = snd (saveTechnologies E s (fst (fetch_all E 0 urls ([], []))) scanID rootDomainID)"
  by (simp add: ExecuteTechScan_def Let_def split: prod.splits)

text \<open>
  C8. In the sequential pass of \<open>ExecuteTechScan\<close> every fetch that fails adds one entry
  to the error list and nothing to the results, every other URL of the batch is still
  fetched and keeps the technologies found on it, no other URL gets results, and the
  results of the whole pass are what is handed to \<open>saveTechnologies\<close>.
\<close>

theorem fetch_failure_skips_only_that_url:
  "length (snd (fetch_all E 0 urls ([], [])))
     = length (filter (\<lambda>(j, u). fetch_failed (http_fetch E j u)) (enumerate 0 urls))
   \<and> (distinct urls \<longrightarrow>
        (\<forall>(j, u) \<in> set (enumerate 0 urls).
           map_of (fst (fetch_all E 0 urls ([], []))) u = detected E (http_fetch E j u)
           \<and> (fetch_failed (http_fetch E j u) \<longrightarrow> map_of (fst (fetch_all E 0 urls ([], []))) u = None)))
   \<and> (\<forall>v. v \<notin> set urls \<longrightarrow> map_of (fst (fetch_all E 0 urls ([], []))) v = None)
   \<and> (urls \<noteq> [] \<and> wappalyzer_new_error E = None \<longrightarrow>
        snd (ExecuteTechScan E s urls scanID rootDomainID)
          = snd (saveTechnologies E s (fst (fetch_all E 0 urls ([], []))) scanID rootDomainID))"
proof (intro conjI allI impI)
  show "length (snd (fetch_all E 0 urls ([], [])))
     = length (filter (\<lambda>(j, u). fetch_failed (http_fetch E j u)) (enumerate 0 urls))"
    by (simp add: fetch_all_errors)
next
  assume d: "distinct urls"
  show "\<forall>(j, u) \<in> set (enumerate 0 urls).
           map_of (fst (fetch_all E 0 urls ([], []))) u = detected E (http_fetch E j u)
           \<and> (fetch_failed (http_fetch E j u) \<longrightarrow> map_of (fst (fetch_all E 0 urls ([], []))) u = None)"
  proof (clarify, rule conjI)
    fix j u assume m: "(j, u) \<in> set (enumerate 0 urls)"
    show eq: "map_of (fst (fetch_all E 0 urls ([], []))) u = detected E (http_fetch E j u)"
      using fetch_all_at [OF d m, of E "([], [])"] by (simp split: option.split)
    show "fetch_failed (http_fetch E j u) \<longrightarrow> map_of (fst (fetch_all E 0 urls ([], []))) u = None"
      unfolding eq by (cases "http_fetch E j u") (simp_all add: fetch_failed_def detected_def)
  qed
next
  fix v assume "v \<notin> set urls"
  then show "map_of (fst (fetch_all E 0 urls ([], []))) v = None"
    by (simp add: fetch_all_other)
next
  assume "urls \<noteq> [] \<and> wappalyzer_new_error E = None"
  then show "snd (ExecuteTechScan E s urls scanID rootDomainID)
          = snd (saveTechnologies E s (fst (fetch_all E 0 urls ([], []))) scanID rootDomainID)"
    by (simp add: ExecuteTechScan_saves)
qed

subsection \<open>The sample scan\<close>

lemma example_root_scan:
  "(case ExecuteSubdomainScan example_env example_capture ''example.com'' ''root_domain'' 1 7
           (Some example_template) example_world of
      Finished w' errs \<Rightarrow>
        errs = [] \<and> map scan_Status (Scans (db w')) = [''completed''] \<and> \<not> OpenTransaction (db w')
    | _ \<Rightarrow> False)"
  by code_simp

subsection \<open>The final status\<close>

lemma scan_updates_fields [simp]:
  "scan_Status (scan_updates E status errMsg r) = status"
  "scan_ID (scan_updates E status errMsg r) = scan_ID r"
  by (simp_all add: scan_updates_def)

lemma updateScanStatus_status:
  assumes "refused E s (UpdateScanStatus status) = None"
    and "r \<in> set (Scans (updateScanStatus E s scanID status msg))"
    and "scan_ID r = scanID"
  shows "scan_Status r = status"
proof -
  from assms(1,2) obtain r0 where "r0 \<in> set (Scans s)"
    and r: "r = (if scan_ID r0 = scanID then scan_updates E status msg r0 else r0)"
    by (auto simp: updateScanStatus_def)
  show ?thesis
  proof (cases "scan_ID r0 = scanID")
    case True
    with r show ?thesis by simp
  next
    case False
    with r assms(3) show ?thesis by simp
  qed
qed

lemma finalStatus_iff: "finalStatus scanErrors = (if scanErrors = [] then ''completed'' else ''failed'')"
  by (simp add: finalStatus_def)

lemma finish_scan_Finished:
  assumes "finish_scan E cap targetHost scanType rootDomainID scanID tmpl active errs0 w2 = Finished w' scanErrors"
  shows "\<exists>w3. w' = w3\<lparr>db := updateScanStatus E (db w3) scanID (finalStatus scanErrors) (finalMessage scanErrors)\<rparr>"
proof -
  obtain w3 errs where r: "run_phases E cap targetHost scanType rootDomainID scanID tmpl active errs0 w2 = (w3, errs)"
    by (cases "run_phases E cap targetHost scanType rootDomainID scanID tmpl active errs0 w2")
  from assms have "w' = w3\<lparr>db := updateScanStatus E (db w3) scanID (finalStatus errs) (finalMessage errs)\<rparr>"
    and "scanErrors = errs"
    by (auto simp add: finish_scan_def r)
  then show ?thesis by blast
qed

lemma ExecuteSubdomainScan_cases:
  assumes "ExecuteSubdomainScan E cap targetHost scanType rootDomainID scanID scanTemplate w = Finished w' scanErrors"
  obtains tmpl active errs0 where "scanTemplate = Some tmpl"
    and "finish_scan E cap targetHost scanType rootDomainID scanID tmpl active errs0
           (start_scan E cap rootDomainID scanID tmpl w) = Finished w' scanErrors"
    and "scanType = ''root_domain'' \<Longrightarrow>
           \<exists>allSubdomains. discover_root E targetHost (subfinderEnabled_of scanType tmpl)
              = Some (allSubdomains, active, errs0)"
    and "scanType \<noteq> ''root_domain'' \<Longrightarrow> scanType = ''subdomain'' \<and> active = [targetHost] \<and> errs0 = []"
proof (cases scanTemplate)
  case None
  with assms show ?thesis by (simp add: ExecuteSubdomainScan_def)
next
  case (Some tmpl)
  show ?thesis
  proof (cases "scanType = ''root_domain''")
    case True
    show ?thesis
    proof (cases "discover_root E targetHost (subfinderEnabled_of scanType tmpl)")
      case None
      with assms Some True show ?thesis
        by (simp add: ExecuteSubdomainScan_def)
    next
      case d: (Some d)
      obtain allSubdomains active errs0 where d': "d = (allSubdomains, active, errs0)"
        by (cases d) auto
      from assms Some True d d' have
        "finish_scan E cap targetHost scanType rootDomainID scanID tmpl active errs0
           (start_scan E cap rootDomainID scanID tmpl w) = Finished w' scanErrors"
        by (simp add: ExecuteSubdomainScan_def)
      with that [of tmpl active errs0] Some True d d' show ?thesis by blast
    qed
  next
    case False
    show ?thesis
    proof (cases "scanType = ''subdomain''")
      case True
      from assms Some False True have
        "finish_scan E cap targetHost scanType rootDomainID scanID tmpl [targetHost] []
           (start_scan E cap rootDomainID scanID tmpl w) = Finished w' scanErrors"
        by (simp add: ExecuteSubdomainScan_def)
      with that [of tmpl "[targetHost]" "[]"] Some False True show ?thesis by blast
    next
      case nsub: False
      from assms Some False nsub show ?thesis
        by (simp add: ExecuteSubdomainScan_def Let_def)
    qed
  qed
qed

lemma ExecuteSubdomainScan_Finished:
  assumes "ExecuteSubdomainScan E cap targetHost scanType rootDomainID scanID scanTemplate w = Finished w' scanErrors"
  shows "\<exists>w3. w' = w3\<lparr>db := updateScanStatus E (db w3) scanID (finalStatus scanErrors) (finalMessage scanErrors)\<rparr>"
  using assms by (elim ExecuteSubdomainScan_cases) (rule finish_scan_Finished)

lemma refusing_env_simps:
  "http_fetch refusing_env i u = (if i = 1 then FetchError ''connection refused'' else Fetched u)"
  "fingerprint refusing_env r = (if HasPrefix r ''https://'' then [''Nginx''] else [])"
  "wappalyzer_new_error refusing_env = None"
  by (simp_all add: refusing_env_def example_env_def)

theorem fetch_failure_witness:
  "distinct three_urls
   \<and> length (snd (fetch_all refusing_env 0 three_urls ([], []))) = 1
   \<and> map_of (fst (fetch_all refusing_env 0 three_urls ([], []))) ''https://b.example.com'' = None
   \<and> map_of (fst (fetch_all refusing_env 0 three_urls ([], []))) ''https://c.example.com'' = Some [''Nginx'']
   \<and> snd (ExecuteTechScan refusing_env (db example_world) three_urls 7 1)
         = snd (saveTechnologies refusing_env (db example_world)
                  (fst (fetch_all refusing_env 0 three_urls ([], []))) 7 1)"
proof -
  have d: "distinct three_urls"
    by (simp add: three_urls_def)
  have en: "enumerate 0 three_urls
              = [(0, ''https://a.example.com''), (1, ''https://b.example.com''), (2, ''https://c.example.com'')]"
    by (simp add: three_urls_def)
  note T = fetch_failure_skips_only_that_url [of refusing_env three_urls "db example_world" 7 1]
  from T have "length (snd (fetch_all refusing_env 0 three_urls ([], [])))
     = length (filter (\<lambda>(j, u). fetch_failed (http_fetch refusing_env j u)) (enumerate 0 three_urls))"
    by (rule conjunct1)
  then have errs: "length (snd (fetch_all refusing_env 0 three_urls ([], []))) = 1"
    by (simp add: en refusing_env_simps fetch_failed_def)
  from T d have at: "\<forall>(j, u) \<in> set (enumerate 0 three_urls).
           map_of (fst (fetch_all refusing_env 0 three_urls ([], []))) u = detected refusing_env (http_fetch refusing_env j u)
           \<and> (fetch_failed (http_fetch refusing_env j u) \<longrightarrow> map_of (fst (fetch_all refusing_env 0 three_urls ([], []))) u = None)"
    by blast
  have b: "map_of (fst (fetch_all refusing_env 0 three_urls ([], []))) ''https://b.example.com'' = None"
    using at by (simp add: en refusing_env_simps fetch_failed_def detected_def)
  have c: "map_of (fst (fetch_all refusing_env 0 three_urls ([], []))) ''https://c.example.com'' = Some [''Nginx'']"
    using at by (simp add: en refusing_env_simps detected_def HasPrefix_def)
  from T have "three_urls \<noteq> [] \<and> wappalyzer_new_error refusing_env = None \<longrightarrow>
        snd (ExecuteTechScan refusing_env (db example_world) three_urls 7 1)
          = snd (saveTechnologies refusing_env (db example_world) (fst (fetch_all refusing_env 0 three_urls ([], []))) 7 1)"
    by blast
  then have s: "snd (ExecuteTechScan refusing_env (db example_world) three_urls 7 1)
          = snd (saveTechnologies refusing_env (db example_world) (fst (fetch_all refusing_env 0 three_urls ([], []))) 7 1)"
    by (simp add: refusing_env_simps three_urls_def)
  from d errs b c s show ?thesis by blast
qed

theorem TakeScreenshot_error_witness:
  "fst (TakeScreenshot \<lparr>mkdir_error = None, chromedp_error = Some ''timeout'', write_error = None,
                         insert_error = None\<rparr> 5 ''http://example.com'' 7 (Some 1) None \<lparr>Screenshots = [], Files = []\<rparr>) = None
   \<and> fst (TakeScreenshot \<lparr>mkdir_error = Some ''permission denied'', chromedp_error = None, write_error = None,
                         insert_error = None\<rparr> 5 ''http://example.com'' 7 (Some 1) None \<lparr>Screenshots = [], Files = []\<rparr>) \<noteq> None"
  using TakeScreenshot_error_iff_mkdir [of "\<lparr>mkdir_error = None, chromedp_error = Some ''timeout'', write_error = None,
                         insert_error = None\<rparr>" 5 "''http://example.com''" 7 "Some 1" None "\<lparr>Screenshots = [], Files = []\<rparr>"]
    TakeScreenshot_error_iff_mkdir [of "\<lparr>mkdir_error = Some ''permission denied'', chromedp_error = None, write_error = None,
                         insert_error = None\<rparr>" 5 "''http://example.com''" 7 "Some 1" None "\<lparr>Screenshots = [], Files = []\<rparr>"]
  by simp

subsection \<open>Screenshots never fail a scan\<close>

lemma db_screenshot_existing [simp]: "db (screenshot_existing E cap rootDomainID scanID w) = db w"
  by (simp add: screenshot_existing_def Let_def)

lemma db_screenshot_saved [simp]: "db (screenshot_saved E cap scanID tmpl saved w) = db w"
  by (simp add: screenshot_saved_def)

lemma db_start_scan: "db (start_scan E cap rootDomainID scanID tmpl w) = updateScanStatus E (db w) scanID ''running'' []"
  by (simp add: start_scan_def Let_def)

lemma db_process_endpoint:
  "db w = db w' \<Longrightarrow>
     db (process_endpoint E cap scanID se i res w) = db (process_endpoint E cap' scanID se i res w')"
  by (simp add: process_endpoint_def split: option.split prod.split)

lemma db_process_endpoints:
  "db w = db w' \<Longrightarrow>
     db (process_endpoints E cap scanID se i rs w) = db (process_endpoints E cap' scanID se i rs w')"
proof (induction rs arbitrary: i w w')
  case Nil
  then show ?case by simp
next
  case (Cons res rs)
  show ?case
    using Cons.IH [OF db_process_endpoint [OF Cons.prems]] by simp
qed

lemma db_saveURLScanResults:
  assumes "db w = db w'"
  shows "db (saveURLScanResults E cap rootDomain rootDomainID scanID results existing se w)
       = db (saveURLScanResults E cap' rootDomain rootDomainID scanID results existing se w')"
proof -
  obtain s1 final where p: "prepare_endpoints E rootDomain rootDomainID scanID results existing (db w) = (s1, final)"
    by (cases "prepare_endpoints E rootDomain rootDomainID scanID results existing (db w)")
  have "db (w\<lparr>db := s1\<rparr>) = db (w'\<lparr>db := s1\<rparr>)" by simp
  from db_process_endpoints [OF this] show ?thesis
    using p assms by (simp add: saveURLScanResults_def)
qed

lemma db_ExecuteURLScan:
  assumes "db w = db w'"
  shows "fst (ExecuteURLScan E cap seeds rootDomain rootDomainID scanID existing tmpl w)
       = fst (ExecuteURLScan E cap' seeds rootDomain rootDomainID scanID existing tmpl w')
     \<and> db (snd (ExecuteURLScan E cap seeds rootDomain rootDomainID scanID existing tmpl w))
       = db (snd (ExecuteURLScan E cap' seeds rootDomain rootDomainID scanID existing tmpl w'))"
  using assms db_saveURLScanResults [OF assms, of E cap rootDomain rootDomainID scanID _ existing _ cap']
  by (simp add: ExecuteURLScan_def Let_def split: option.split)

lemma db_url_scan_phase:
  assumes "db w = db w'"
  shows "fst (url_scan_phase E cap targetHost scanType rootDomainID scanID tmpl active saved errs w)
       = fst (url_scan_phase E cap' targetHost scanType rootDomainID scanID tmpl active saved errs w')
     \<and> db (snd (url_scan_phase E cap targetHost scanType rootDomainID scanID tmpl active saved errs w))
       = db (snd (url_scan_phase E cap' targetHost scanType rootDomainID scanID tmpl active saved errs w'))"
proof (cases "urlScanEnabled_of tmpl")
  case False
  with assms show ?thesis by (simp add: url_scan_phase_def)
next
  case True
  obtain e1 w1 where r1: "ExecuteURLScan E cap (seed_urls scanType targetHost active) targetHost rootDomainID scanID
      (map_of saved) (Some tmpl) w = (e1, w1)"
    by (cases "ExecuteURLScan E cap (seed_urls scanType targetHost active) targetHost rootDomainID scanID
      (map_of saved) (Some tmpl) w")
  obtain e2 w2 where r2: "ExecuteURLScan E cap' (seed_urls scanType targetHost active) targetHost rootDomainID scanID
      (map_of saved) (Some tmpl) w' = (e2, w2)"
    by (cases "ExecuteURLScan E cap' (seed_urls scanType targetHost active) targetHost rootDomainID scanID
      (map_of saved) (Some tmpl) w'")
  from db_ExecuteURLScan [OF assms, of E cap "seed_urls scanType targetHost active" targetHost rootDomainID scanID
      "map_of saved" "Some tmpl" cap'] r1 r2
  have "e1 = e2" "db w1 = db w2" by simp_all
  with True r1 r2 show ?thesis by (simp add: url_scan_phase_def)
qed

lemma db_run_phases:
  assumes "db w = db w'"
  shows "snd (run_phases E cap targetHost scanType rootDomainID scanID tmpl active errs w)
       = snd (run_phases E cap' targetHost scanType rootDomainID scanID tmpl active errs w')
     \<and> db (fst (run_phases E cap targetHost scanType rootDomainID scanID tmpl active errs w))
       = db (fst (run_phases E cap' targetHost scanType rootDomainID scanID tmpl active errs w'))"
proof -
  obtain saved errs1 w1 where s1: "save_active E rootDomainID scanID active errs w = (saved, errs1, w1)"
    by (cases "save_active E rootDomainID scanID active errs w")
  obtain saved' errs1' w1' where s2: "save_active E rootDomainID scanID active errs w' = (saved', errs1', w1')"
    by (cases "save_active E rootDomainID scanID active errs w'")
  from s1 s2 assms have same: "saved' = saved" "errs1' = errs1" "db w1 = db w1'"
    by (auto simp: save_active_def split: if_splits prod.splits)
  let ?u = "url_scan_phase E cap targetHost scanType rootDomainID scanID tmpl active saved errs1
              (screenshot_saved E cap scanID tmpl saved w1)"
  let ?u' = "url_scan_phase E cap' targetHost scanType rootDomainID scanID tmpl active saved errs1
              (screenshot_saved E cap' scanID tmpl saved w1')"
  have "db (screenshot_saved E cap scanID tmpl saved w1) = db (screenshot_saved E cap' scanID tmpl saved w1')"
    using same by simp
  from db_url_scan_phase [OF this, of E cap targetHost scanType rootDomainID scanID tmpl active saved errs1 cap']
  have u: "fst ?u = fst ?u'" "db (snd ?u) = db (snd ?u')" by simp_all
  obtain e2 w3 where u1: "?u = (e2, w3)" by (cases ?u)
  obtain e2' w3' where u2: "?u' = (e2', w3')" by (cases ?u')
  from u u1 u2 have eq: "e2' = e2" "db w3' = db w3" by simp_all
  obtain s4 e4 where t1: "tech_phase E targetHost scanType rootDomainID scanID tmpl saved e2 (db w3) = (s4, e4)"
    by (cases "tech_phase E targetHost scanType rootDomainID scanID tmpl saved e2 (db w3)")
  show ?thesis
    by (simp add: run_phases_def s1 s2 same u1 u2 eq t1)
qed

lemma forget_finish_scan:
  assumes "db w = db w'"
  shows "forget_gallery (finish_scan E cap targetHost scanType rootDomainID scanID tmpl active errs w)
       = forget_gallery (finish_scan E cap' targetHost scanType rootDomainID scanID tmpl active errs w')"
proof -
  obtain w3 e3 where r1: "run_phases E cap targetHost scanType rootDomainID scanID tmpl active errs w = (w3, e3)"
    by (cases "run_phases E cap targetHost scanType rootDomainID scanID tmpl active errs w")
  obtain w4 e4 where r2: "run_phases E cap' targetHost scanType rootDomainID scanID tmpl active errs w' = (w4, e4)"
    by (cases "run_phases E cap' targetHost scanType rootDomainID scanID tmpl active errs w'")
  from db_run_phases [OF assms, of E cap targetHost scanType rootDomainID scanID tmpl active errs cap'] r1 r2
  have "e3 = e4" "db w3 = db w4" by simp_all
  then show ?thesis
    by (simp add: finish_scan_def r1 r2)
qed

lemma forget_abort:
  "db w1 = db w2 \<Longrightarrow>
     forget_gallery (Aborted (w1\<lparr>db := updateScanStatus E (db w1) scanID st msg\<rparr>))
       = forget_gallery (Aborted (w2\<lparr>db := updateScanStatus E (db w2) scanID st msg\<rparr>))"
  by simp

lemma forget_ExecuteSubdomainScan:
  "forget_gallery (ExecuteSubdomainScan E cap targetHost scanType rootDomainID scanID tmpl w)
     = forget_gallery (ExecuteSubdomainScan E cap' targetHost scanType rootDomainID scanID tmpl w)"
proof (cases tmpl)
  case None
  then show ?thesis by (simp add: ExecuteSubdomainScan_def)
next
  case (Some t)
  let ?w2 = "start_scan E cap rootDomainID scanID t w"
  let ?w2' = "start_scan E cap' rootDomainID scanID t w"
  have d: "db ?w2 = db ?w2'"
    by (simp add: db_start_scan)
  have f: "forget_gallery (finish_scan E cap targetHost scanType rootDomainID scanID t active errs ?w2)
         = forget_gallery (finish_scan E cap' targetHost scanType rootDomainID scanID t active errs ?w2')"
    for active errs
    by (rule forget_finish_scan [OF d])
  show ?thesis
  proof (cases "scanType = ''root_domain''")
    case True
    show ?thesis
    proof (cases "discover_root E targetHost (subfinderEnabled_of scanType t)")
      case None
      with Some True show ?thesis by (simp add: ExecuteSubdomainScan_def)
    next
      case d': (Some r)
      obtain allSubdomains active errs where r: "r = (allSubdomains, active, errs)"
        by (cases r) auto
      have "ExecuteSubdomainScan E cap targetHost scanType rootDomainID scanID tmpl w
              = finish_scan E cap targetHost scanType rootDomainID scanID t active errs ?w2"
        using Some True d' r by (simp add: ExecuteSubdomainScan_def)
      moreover have "ExecuteSubdomainScan E cap' targetHost scanType rootDomainID scanID tmpl w
              = finish_scan E cap' targetHost scanType rootDomainID scanID t active errs ?w2'"
        using Some True d' r by (simp add: ExecuteSubdomainScan_def)
      ultimately show ?thesis using f by simp
    qed
  next
    case False
    show ?thesis
    proof (cases "scanType = ''subdomain''")
      case True
      have "ExecuteSubdomainScan E cap targetHost scanType rootDomainID scanID tmpl w
              = finish_scan E cap targetHost scanType rootDomainID scanID t [targetHost] [] ?w2"
        using Some False True by (simp add: ExecuteSubdomainScan_def)
      moreover have "ExecuteSubdomainScan E cap' targetHost scanType rootDomainID scanID tmpl w
              = finish_scan E cap' targetHost scanType rootDomainID scanID t [targetHost] [] ?w2'"
        using Some False True by (simp add: ExecuteSubdomainScan_def)
      ultimately show ?thesis using f by simp
    next
      case nsub: False
      have "ExecuteSubdomainScan E cap targetHost scanType rootDomainID scanID tmpl w
              = Aborted (?w2\<lparr>db := updateScanStatus E (db ?w2) scanID ''failed''
                                      (''Internal error: Unknown scanType '' @ scanType)\<rparr>)"
        using Some False nsub by (simp add: ExecuteSubdomainScan_def Let_def)
      moreover have "ExecuteSubdomainScan E cap' targetHost scanType rootDomainID scanID tmpl w
              = Aborted (?w2'\<lparr>db := updateScanStatus E (db ?w2') scanID ''failed''
                                      (''Internal error: Unknown scanType '' @ scanType)\<rparr>)"
        using Some False nsub by (simp add: ExecuteSubdomainScan_def Let_def)
      ultimately show ?thesis using forget_abort [OF d] by simp
    qed
  qed
qed

lemma TakeScreenshot_nil_after_mkdir:
  assumes "mkdir_error oc = None"
  shows "fst (TakeScreenshot oc nanos targetURL scanID subdomainID endpointID g) = None"
  using assms by (simp add: TakeScreenshot_def Let_def split: option.split)

lemma TakeScreenshot_no_row:
  assumes "chromedp_error oc \<noteq> None \<or> write_error oc \<noteq> None \<or> insert_error oc \<noteq> None"
  shows "Screenshots (snd (TakeScreenshot oc nanos targetURL scanID subdomainID endpointID g)) = Screenshots g"
  using assms by (auto simp: TakeScreenshot_def Let_def split: option.split)

lemma TakeScreenshot_no_file:
  assumes "chromedp_error oc \<noteq> None \<or> write_error oc \<noteq> None"
  shows "snd (TakeScreenshot oc nanos targetURL scanID subdomainID endpointID g) = g"
  using assms by (auto simp: TakeScreenshot_def Let_def split: option.split)

text \<open>
  C9. Once the screenshot directory exists, a capture that fails in the browser
  (navigation, time-out), in writing the file or in inserting the Screenshot row
  makes \<open>TakeScreenshot\<close> return nil and adds no Screenshot row (and, for the first
  two, no file). What the captures of a scan do has no effect on the scan beyond the
  gallery: with any two capture engines the scan ends the same way, with the same
  error list, the same status and summary and the same catalogue.
\<close>

theorem capture_errors_never_fail_the_scan:
  "(mkdir_error oc = None \<longrightarrow>
      fst (TakeScreenshot oc nanos targetURL scanID subdomainID endpointID g) = None)
   \<and> (chromedp_error oc \<noteq> None \<or> write_error oc \<noteq> None \<or> insert_error oc \<noteq> None \<longrightarrow>
      Screenshots (snd (TakeScreenshot oc nanos targetURL scanID subdomainID endpointID g)) = Screenshots g)
   \<and> (chromedp_error oc \<noteq> None \<or> write_error oc \<noteq> None \<longrightarrow>
      snd (TakeScreenshot oc nanos targetURL scanID subdomainID endpointID g) = g)
   \<and> forget_gallery (ExecuteSubdomainScan E cap targetHost scanType rootDomainID scanID scanTemplate w)
       = forget_gallery (ExecuteSubdomainScan E cap' targetHost scanType rootDomainID scanID scanTemplate w)"
  using TakeScreenshot_nil_after_mkdir [of oc nanos targetURL scanID subdomainID endpointID g]
    TakeScreenshot_no_row [of oc nanos targetURL scanID subdomainID endpointID g]
    TakeScreenshot_no_file [of oc nanos targetURL scanID subdomainID endpointID g]
    forget_ExecuteSubdomainScan [of E cap targetHost scanType rootDomainID scanID scanTemplate w cap']
  by blast

lemma failing_capture_scan:
  "(case ExecuteSubdomainScan example_env failing_capture ''example.com'' ''root_domain'' 1 7
           (Some shooting_template) example_world of
      Finished w' errs \<Rightarrow> errs = [] \<and> Screenshots (shots w') = [] \<and> map scan_Status (Scans (db w')) = [''completed'']
    | _ \<Rightarrow> False)"
  by code_simp

theorem capture_errors_witness:
  "fst (TakeScreenshot (failing_capture CrawledEndpoint ''http://example.com/login'' 1) 1000
          ''http://example.com/login'' 7 None (Some 1) \<lparr>Screenshots = [], Files = []\<rparr>) = None
   \<and> snd (TakeScreenshot (failing_capture CrawledEndpoint ''http://example.com/login'' 1) 1000
          ''http://example.com/login'' 7 None (Some 1) \<lparr>Screenshots = [], Files = []\<rparr>)
        = \<lparr>Screenshots = [], Files = []\<rparr>
   \<and> forget_gallery (ExecuteSubdomainScan example_env failing_capture ''example.com'' ''root_domain'' 1 7
                        (Some shooting_template) example_world)
       = forget_gallery (ExecuteSubdomainScan example_env example_capture ''example.com'' ''root_domain'' 1 7
                        (Some shooting_template) example_world)"
proof -
  let ?oc = "failing_capture CrawledEndpoint ''http://example.com/login'' 1"
  have m: "mkdir_error ?oc = None" and c: "chromedp_error ?oc \<noteq> None"
    by (simp_all add: failing_capture_def)
  note T = capture_errors_never_fail_the_scan [where oc = ?oc and nanos = 1000
      and targetURL = "''http://example.com/login''" and scanID = 7 and subdomainID = None
      and endpointID = "Some 1" and g = "\<lparr>Screenshots = [], Files = []\<rparr>" and E = example_env
      and cap = failing_capture and targetHost = "''example.com''" and scanType = "''root_domain''"
      and rootDomainID = 1 and scanTemplate = "Some shooting_template" and w = example_world
      and cap' = example_capture]
  from T m c show ?thesis by blast
qed

subsection \<open>What the store operations touch\<close>

lemma fresh_id_pos [simp]: "fresh_id ids \<noteq> 0"
  by (simp add: fresh_id_def)

lemma find_sort_key_None: "find P (sort_key f xs) = None \<longleftrightarrow> (\<forall>x \<in> set xs. \<not> P x)"
  by (auto simp: find_None_iff)

lemma find_sort_key_Some:
  assumes "find P (sort_key f xs) = Some r"
  shows "r \<in> set xs \<and> P r"
proof -
  from assms obtain i where i: "i < length (sort_key f xs)" "P (sort_key f xs ! i)" "r = sort_key f xs ! i"
    by (auto simp: find_Some_iff)
  from i(1) have "sort_key f xs ! i \<in> set (sort_key f xs)" by (rule nth_mem)
  with i show ?thesis by simp
qed

lemma assign_endpoint_fields [simp]:
  "ep_ID (assign_endpoint a r) = ep_ID r"
  "ep_SubdomainID (assign_endpoint a r) = ep_SubdomainID r"
  "ep_Path (assign_endpoint a r) = ep_Path r"
  "ep_Method (assign_endpoint a r) = ep_Method r"
  by (simp_all add: assign_endpoint_def)

lemma create_subdomains_other [simp]:
  "Endpoints (create_subdomains upd rows s) = Endpoints s"
  "Parameters (create_subdomains upd rows s) = Parameters s"
  "Technologies (create_subdomains upd rows s) = Technologies s"
  "SubdomainTechnologies (create_subdomains upd rows s) = SubdomainTechnologies s"
  "RootDomains (create_subdomains upd rows s) = RootDomains s"
  "Scans (create_subdomains upd rows s) = Scans s"
  by (simp_all add: create_subdomains_def)

lemma create_new_subdomains_store:
  "fst (create_new_subdomains E rootDomainID new s maps) = s
   \<or> fst (create_new_subdomains E rootDomainID new s maps) = create_subdomains True new s"
  by (cases maps) (simp add: create_new_subdomains_def Let_def split: option.split prod.split)

lemma prepare_endpoints_store:
  "fst (prepare_endpoints E rootDomain rootDomainID scanID results existing s) = s
   \<or> (\<exists>new. fst (prepare_endpoints E rootDomain rootDomainID scanID results existing s)
              = create_subdomains True new s)"
proof -
  let ?m = "load_ids (case db_error E URL_LoadExisting of None \<Rightarrow> find_subdomains rootDomainID s | Some e \<Rightarrow> []) Map.empty"
  let ?c = "load_ids (case db_error E URL_LoadExisting of None \<Rightarrow> find_subdomains rootDomainID s | Some e \<Rightarrow> []) existing"
  obtain cache1 new buffered where
    f: "fold (collect_result E rootDomain rootDomainID scanID) results (?c, [], []) = (cache1, new, buffered)"
    by (cases "fold (collect_result E rootDomain rootDomainID scanID) results (?c, [], [])")
  obtain s1 m1 c2 where c: "create_new_subdomains E rootDomainID new s (?m, cache1) = (s1, m1, c2)"
    by (cases "create_new_subdomains E rootDomainID new s (?m, cache1)")
  have "fst (prepare_endpoints E rootDomain rootDomainID scanID results existing s) = s1"
    by (simp add: prepare_endpoints_def Let_def f c)
  moreover from create_new_subdomains_store [of E rootDomainID new s "(?m, cache1)"] c
  have "s1 = s \<or> s1 = create_subdomains True new s" by simp
  ultimately show ?thesis by auto
qed

lemma prepare_endpoints_other:
  "Endpoints (fst (prepare_endpoints E rootDomain rootDomainID scanID results existing s)) = Endpoints s"
  "Parameters (fst (prepare_endpoints E rootDomain rootDomainID scanID results existing s)) = Parameters s"
  using prepare_endpoints_store [of E rootDomain rootDomainID scanID results existing s]
  by auto

subsection \<open>No write with a zero identifier\<close>

lemma resolve_endpoint_None:
  "resolve_endpoint E subdomainMap cache res = None \<longleftrightarrow>
     (subdomainMap (usr_Hostname res) = None \<or> subdomainMap (usr_Hostname res) = Some 0)
     \<and> (cache (usr_Hostname res) = None \<or> cache (usr_Hostname res) = Some 0)"
  by (auto simp: resolve_endpoint_def Let_def split: option.splits)

lemma resolve_endpoint_Some:
  assumes "resolve_endpoint E subdomainMap cache res = Some res'"
  shows "ep_SubdomainID (usr_Endpoint res') \<noteq> 0
       \<and> (subdomainMap (usr_Hostname res) = Some (ep_SubdomainID (usr_Endpoint res'))
          \<or> cache (usr_Hostname res) = Some (ep_SubdomainID (usr_Endpoint res')))
       \<and> usr_Hostname res' = usr_Hostname res \<and> usr_Params res' = usr_Params res"
  using assms
  by (auto simp: resolve_endpoint_def Let_def split: option.splits if_splits)

lemma map_filter_resolved:
  "res' \<in> set (List.map_filter (resolve_endpoint E m c) buffered) \<Longrightarrow>
     ep_SubdomainID (usr_Endpoint res') \<noteq> 0"
  using resolve_endpoint_Some by (fastforce simp: map_filter_def)

lemma prepare_endpoints_resolved:
  assumes "res' \<in> set (snd (prepare_endpoints E rootDomain rootDomainID scanID results existing s))"
  shows "ep_SubdomainID (usr_Endpoint res') \<noteq> 0"
proof -
  let ?m = "load_ids (case db_error E URL_LoadExisting of None \<Rightarrow> find_subdomains rootDomainID s | Some e \<Rightarrow> []) Map.empty"
  let ?c = "load_ids (case db_error E URL_LoadExisting of None \<Rightarrow> find_subdomains rootDomainID s | Some e \<Rightarrow> []) existing"
  obtain cache1 new buffered where
    f: "fold (collect_result E rootDomain rootDomainID scanID) results (?c, [], []) = (cache1, new, buffered)"
    by (cases "fold (collect_result E rootDomain rootDomainID scanID) results (?c, [], [])")
  obtain s1 m1 c2 where c: "create_new_subdomains E rootDomainID new s (?m, cache1) = (s1, m1, c2)"
    by (cases "create_new_subdomains E rootDomainID new s (?m, cache1)")
  have "snd (prepare_endpoints E rootDomain rootDomainID scanID results existing s)
          = List.map_filter (resolve_endpoint E m1 c2) buffered"
    by (simp add: prepare_endpoints_def Let_def f c)
  with assms show ?thesis using map_filter_resolved by simp
qed

lemma first_or_create_endpoint_other [simp]:
  "Parameters (snd (first_or_create_endpoint ep s)) = Parameters s"
  "Subdomains (snd (first_or_create_endpoint ep s)) = Subdomains s"
  by (simp_all add: first_or_create_endpoint_def Let_def split: option.split)

lemma first_or_create_parameter_other [simp]:
  "Endpoints (first_or_create_parameter p s) = Endpoints s"
  "Subdomains (first_or_create_parameter p s) = Subdomains s"
  by (simp_all add: first_or_create_parameter_def split: option.split)

lemma save_parameters_other [simp]:
  "Endpoints (save_parameters E i j endpointID params s) = Endpoints s"
  "Subdomains (save_parameters E i j endpointID params s) = Subdomains s"
  by (induction params arbitrary: j s) (simp_all split: option.split)

lemma first_or_create_endpoint_table:
  "Endpoints (snd (first_or_create_endpoint ep s)) =
     (case find (endpoint_matches ep) (sort_key ep_ID (Endpoints s)) of
        Some r \<Rightarrow> map (\<lambda>x. if ep_ID x = ep_ID r then assign_endpoint ep x else x) (Endpoints s)
      | None \<Rightarrow> Endpoints s @ [ep\<lparr>ep_ID := fresh_id (map ep_ID (Endpoints s))\<rparr>])"
  by (simp add: first_or_create_endpoint_def Let_def split: option.split)

lemma first_or_create_parameter_table:
  "Parameters (first_or_create_parameter p s) =
     (case find (parameter_matches p) (sort_key par_ID (Parameters s)) of
        Some r \<Rightarrow> map (\<lambda>x. if par_ID x = par_ID r then x\<lparr>par_DiscoveredAt := par_DiscoveredAt p\<rparr> else x)
                    (Parameters s)
      | None \<Rightarrow> Parameters s @ [p\<lparr>par_ID := fresh_id (map par_ID (Parameters s))\<rparr>])"
  by (simp add: first_or_create_parameter_def split: option.split)

lemma endpoint_created:
  assumes "find (endpoint_matches ep) (sort_key ep_ID (Endpoints s)) = None"
    and "e \<in> set (Endpoints (snd (first_or_create_endpoint ep s)))"
  shows "e \<in> set (Endpoints s) \<or> e = ep\<lparr>ep_ID := fresh_id (map ep_ID (Endpoints s))\<rparr>"
proof -
  have "Endpoints (snd (first_or_create_endpoint ep s))
          = Endpoints s @ [ep\<lparr>ep_ID := fresh_id (map ep_ID (Endpoints s))\<rparr>]"
    unfolding first_or_create_endpoint_table assms(1) by simp
  with assms(2) show ?thesis by auto
qed

lemma endpoint_updated:
  assumes "find (endpoint_matches ep) (sort_key ep_ID (Endpoints s)) = Some r"
    and "e \<in> set (Endpoints (snd (first_or_create_endpoint ep s)))"
  shows "\<exists>x \<in> set (Endpoints s). e = (if ep_ID x = ep_ID r then assign_endpoint ep x else x)"
proof -
  have "Endpoints (snd (first_or_create_endpoint ep s))
          = map (\<lambda>x. if ep_ID x = ep_ID r then assign_endpoint ep x else x) (Endpoints s)"
    unfolding first_or_create_endpoint_table assms(1) by simp
  with assms(2) show ?thesis by auto
qed

lemma parameter_created:
  assumes "find (parameter_matches p) (sort_key par_ID (Parameters s)) = None"
    and "q \<in> set (Parameters (first_or_create_parameter p s))"
  shows "q \<in> set (Parameters s) \<or> q = p\<lparr>par_ID := fresh_id (map par_ID (Parameters s))\<rparr>"
proof -
  have "Parameters (first_or_create_parameter p s)
          = Parameters s @ [p\<lparr>par_ID := fresh_id (map par_ID (Parameters s))\<rparr>]"
    unfolding first_or_create_parameter_table assms(1) by simp
  with assms(2) show ?thesis by auto
qed

lemma parameter_updated:
  assumes "find (parameter_matches p) (sort_key par_ID (Parameters s)) = Some r"
    and "q \<in> set (Parameters (first_or_create_parameter p s))"
  shows "\<exists>x \<in> set (Parameters s).
           q = (if par_ID x = par_ID r then x\<lparr>par_DiscoveredAt := par_DiscoveredAt p\<rparr> else x)"
proof -
  have "Parameters (first_or_create_parameter p s)
          = map (\<lambda>x. if par_ID x = par_ID r then x\<lparr>par_DiscoveredAt := par_DiscoveredAt p\<rparr> else x)
                (Parameters s)"
    unfolding first_or_create_parameter_table assms(1) by simp
  with assms(2) show ?thesis by auto
qed

lemma first_or_create_endpoint_refs:
  assumes "\<forall>e \<in> set (Endpoints s). ep_SubdomainID e \<noteq> 0" and "ep_SubdomainID ep \<noteq> 0"
  shows "\<forall>e \<in> set (Endpoints (snd (first_or_create_endpoint ep s))). ep_SubdomainID e \<noteq> 0"
proof
  fix e assume e: "e \<in> set (Endpoints (snd (first_or_create_endpoint ep s)))"
  show "ep_SubdomainID e \<noteq> 0"
  proof (cases "find (endpoint_matches ep) (sort_key ep_ID (Endpoints s))")
    case None
    from endpoint_created [OF None e] show ?thesis
    proof
      assume "e \<in> set (Endpoints s)"
      with assms(1) show ?thesis by blast
    next
      assume "e = ep\<lparr>ep_ID := fresh_id (map ep_ID (Endpoints s))\<rparr>"
      then have "ep_SubdomainID e = ep_SubdomainID ep" by simp
      with assms(2) show ?thesis by simp
    qed
  next
    case (Some r)
    from endpoint_updated [OF Some e] obtain x where x: "x \<in> set (Endpoints s)"
      and "e = (if ep_ID x = ep_ID r then assign_endpoint ep x else x)"
      by blast
    then have "ep_SubdomainID e = ep_SubdomainID x" by simp
    with assms(1) x show ?thesis by simp
  qed
qed

lemma first_or_create_parameter_refs:
  assumes "\<forall>q \<in> set (Parameters s). par_EndpointID q \<noteq> 0" and "par_EndpointID p \<noteq> 0"
  shows "\<forall>q \<in> set (Parameters (first_or_create_parameter p s)). par_EndpointID q \<noteq> 0"
proof
  fix q assume q: "q \<in> set (Parameters (first_or_create_parameter p s))"
  show "par_EndpointID q \<noteq> 0"
  proof (cases "find (parameter_matches p) (sort_key par_ID (Parameters s))")
    case None
    from parameter_created [OF None q] show ?thesis
    proof
      assume "q \<in> set (Parameters s)"
      with assms(1) show ?thesis by blast
    next
      assume "q = p\<lparr>par_ID := fresh_id (map par_ID (Parameters s))\<rparr>"
      then have "par_EndpointID q = par_EndpointID p" by simp
      with assms(2) show ?thesis by simp
    qed
  next
    case (Some r)
    from parameter_updated [OF Some q] obtain x where x: "x \<in> set (Parameters s)"
      and "q = (if par_ID x = par_ID r then x\<lparr>par_DiscoveredAt := par_DiscoveredAt p\<rparr> else x)"
      by blast
    then have "par_EndpointID q = par_EndpointID x" by simp
    with assms(1) x show ?thesis by simp
  qed
qed

lemma save_parameters_refs:
  assumes "\<forall>p \<in> set (Parameters s). par_EndpointID p \<noteq> 0" and "endpointID \<noteq> 0"
  shows "\<forall>p \<in> set (Parameters (save_parameters E i j endpointID params s)). par_EndpointID p \<noteq> 0"
  using assms(1)
proof (induction params arbitrary: j s)
  case Nil
  then show ?case by simp
next
  case (Cons param params)
  show ?case
  proof (cases "refused E s (URL_ParamUpsert i j)")
    case None
    have "\<forall>p \<in> set (Parameters (first_or_create_parameter (param\<lparr>par_EndpointID := endpointID\<rparr>) s)).
            par_EndpointID p \<noteq> 0"
      using first_or_create_parameter_refs [OF Cons.prems, of "param\<lparr>par_EndpointID := endpointID\<rparr>"] assms(2)
      by simp
    from Cons.IH [OF this] None show ?thesis by simp
  next
    case (Some e)
    with Cons.IH [OF Cons.prems] show ?thesis by simp
  qed
qed

lemma process_endpoint_upsert:
  assumes "refused E (db w) (URL_EndpointUpsert i) = None"
  shows "db (process_endpoint E cap scanID se i res w) =
     (if ep_ID (fst (first_or_create_endpoint (usr_Endpoint res) (db w))) = 0
      then snd (first_or_create_endpoint (usr_Endpoint res) (db w))
      else save_parameters E i 0 (ep_ID (fst (first_or_create_endpoint (usr_Endpoint res) (db w))))
             (usr_Params res) (snd (first_or_create_endpoint (usr_Endpoint res) (db w))))"
  using assms by (simp add: process_endpoint_def split: prod.split)

lemma process_endpoint_failed:
  assumes "refused E (db w) (URL_EndpointUpsert i) \<noteq> None"
  shows "process_endpoint E cap scanID se i res w = w"
  using assms by (auto simp: process_endpoint_def)

lemma process_endpoint_refs:
  assumes "no_zero_references (db w)" and "ep_SubdomainID (usr_Endpoint res) \<noteq> 0"
  shows "no_zero_references (db (process_endpoint E cap scanID se i res w))"
proof (cases "refused E (db w) (URL_EndpointUpsert i)")
  case (Some e)
  then have "process_endpoint E cap scanID se i res w = w"
    by (intro process_endpoint_failed) simp
  with assms(1) show ?thesis by simp
next
  case None
  define r where "r = first_or_create_endpoint (usr_Endpoint res) (db w)"
  from assms(1) have a: "\<forall>e \<in> set (Endpoints (db w)). ep_SubdomainID e \<noteq> 0"
    and b: "\<forall>p \<in> set (Parameters (db w)). par_EndpointID p \<noteq> 0"
    by (simp_all add: no_zero_references_def)
  have e1: "\<forall>e \<in> set (Endpoints (snd r)). ep_SubdomainID e \<noteq> 0"
    unfolding r_def by (rule first_or_create_endpoint_refs [OF a assms(2)])
  have p1: "\<forall>p \<in> set (Parameters (snd r)). par_EndpointID p \<noteq> 0"
    unfolding r_def using b by simp
  show ?thesis
  proof (cases "ep_ID (fst r) = 0")
    case True
    then have "db (process_endpoint E cap scanID se i res w) = snd r"
      unfolding r_def by (simp add: process_endpoint_upsert [OF None])
    with e1 p1 show ?thesis by (simp add: no_zero_references_def)
  next
    case False
    then have d: "db (process_endpoint E cap scanID se i res w)
                 = save_parameters E i 0 (ep_ID (fst r)) (usr_Params res) (snd r)"
      unfolding r_def by (simp add: process_endpoint_upsert [OF None])
    from save_parameters_refs [OF p1 False, of E i 0 "usr_Params res"] e1
    show ?thesis unfolding d by (simp add: no_zero_references_def)
  qed
qed

lemma process_endpoints_refs:
  assumes "no_zero_references (db w)" and "\<forall>res \<in> set rs. ep_SubdomainID (usr_Endpoint res) \<noteq> 0"
  shows "no_zero_references (db (process_endpoints E cap scanID se i rs w))"
  using assms
proof (induction rs arbitrary: i w)
  case Nil
  then show ?case by simp
next
  case (Cons res rs)
  from Cons.prems have "no_zero_references (db (process_endpoint E cap scanID se i res w))"
    by (intro process_endpoint_refs) simp_all
  from Cons.IH [OF this] Cons.prems(2) show ?case by simp
qed

lemma saveURLScanResults_refs:
  assumes "no_zero_references (db w)"
  shows "no_zero_references (db (saveURLScanResults E cap rootDomain rootDomainID scanID results existing se w))"
proof -
  define r where "r = prepare_endpoints E rootDomain rootDomainID scanID results existing (db w)"
  have s1: "no_zero_references (db (w\<lparr>db := fst r\<rparr>))"
    using assms unfolding r_def by (simp add: no_zero_references_def prepare_endpoints_other)
  have "\<forall>res \<in> set (snd r). ep_SubdomainID (usr_Endpoint res) \<noteq> 0"
    unfolding r_def using prepare_endpoints_resolved by blast
  from process_endpoints_refs [OF s1 this]
  show ?thesis
    unfolding r_def by (simp add: saveURLScanResults_def case_prod_beta)
qed

lemma process_endpoint_skips_parameters:
  assumes "refused E (db w) (URL_EndpointUpsert i) \<noteq> None
           \<or> ep_ID (fst (first_or_create_endpoint (usr_Endpoint res) (db w))) = 0"
  shows "Parameters (db (process_endpoint E cap scanID se i res w)) = Parameters (db w)"
proof (cases "refused E (db w) (URL_EndpointUpsert i)")
  case (Some e)
  then have "process_endpoint E cap scanID se i res w = w"
    by (intro process_endpoint_failed) simp
  then show ?thesis by simp
next
  case None
  with assms have "ep_ID (fst (first_or_create_endpoint (usr_Endpoint res) (db w))) = 0" by simp
  then show ?thesis
    by (simp add: process_endpoint_upsert [OF None])
qed

text \<open>
  C1. The scan of the sample domain, in a store that refuses the insert of the
  association rows, reaches the end of its phases with one error in its list, so the
  status to write is \<open>failed\<close>. The error return of \<open>saveTechnologies\<close> has left its
  transaction open, the final update of the scan row is refused, and the scan keeps
  the status \<open>running\<close>.
\<close>

theorem scan_with_errors_stays_running:
  "(case ExecuteSubdomainScan leaking_env example_capture ''example.com'' ''root_domain'' 1 7
           (Some example_template) example_world of
      Finished w' errs \<Rightarrow>
        length errs = 1 \<and> finalStatus errs = ''failed''
        \<and> map scan_Status (Scans (db w')) = [''running'']
        \<and> OpenTransaction (db w')
    | _ \<Rightarrow> False)"
  by code_simp

subsection \<open>Tables that only grow by new keys\<close>

lemma continues_iff:
  "continues old new \<longleftrightarrow>
     (\<exists>ext. new = old @ ext \<and> distinct (map snd ext) \<and> set (map snd ext) \<inter> set (map snd old) = {})"
proof
  assume c: "continues old new"
  then have "new = old @ drop (length old) new"
    by (metis append_take_drop_id continues_def)
  with c show "\<exists>ext. new = old @ ext \<and> distinct (map snd ext) \<and> set (map snd ext) \<inter> set (map snd old) = {}"
    unfolding continues_def by (intro exI [of _ "drop (length old) new"]) auto
next
  assume "\<exists>ext. new = old @ ext \<and> distinct (map snd ext) \<and> set (map snd ext) \<inter> set (map snd old) = {}"
  then obtain ext where "new = old @ ext" "distinct (map snd ext)"
    "set (map snd ext) \<inter> set (map snd old) = {}" by blast
  then show "continues old new"
    unfolding continues_def by auto
qed

lemma continues_refl [simp]: "continues xs xs"
  by (simp add: continues_def)

lemma continues_trans:
  assumes "continues xs ys" and "continues ys zs"
  shows "continues xs zs"
proof -
  from assms(1) obtain e1 where 1: "ys = xs @ e1" "distinct (map snd e1)"
    "set (map snd e1) \<inter> set (map snd xs) = {}"
    unfolding continues_iff by blast
  from assms(2) obtain e2 where 2: "zs = ys @ e2" "distinct (map snd e2)"
    "set (map snd e2) \<inter> set (map snd ys) = {}"
    unfolding continues_iff by blast
  have "zs = xs @ (e1 @ e2)" using 1(1) 2(1) by simp
  moreover have "distinct (map snd (e1 @ e2))"
    using 1(1,2) 2(2,3) by auto
  moreover have "set (map snd (e1 @ e2)) \<inter> set (map snd xs) = {}"
    using 1(1,3) 2(3) by auto
  ultimately show ?thesis
    unfolding continues_iff by blast
qed

lemma continues_snoc: "k \<notin> set (map snd xs) \<Longrightarrow> continues xs (xs @ [(i, k)])"
  unfolding continues_iff by (intro exI [of _ "[(i, k)]"]) simp

lemma continues_distinct:
  assumes "continues old new" and "distinct (map snd old)"
  shows "distinct (map snd new)"
proof -
  from assms(1) obtain ext where "new = old @ ext" "distinct (map snd ext)"
    "set (map snd ext) \<inter> set (map snd old) = {}"
    unfolding continues_iff by blast
  with assms(2) show ?thesis by auto
qed

lemma continues_subset: "continues old new \<Longrightarrow> set old \<subseteq> set new"
  unfolding continues_iff by auto

subsection \<open>The subdomain table under a batch insert\<close>

lemma subdomain_key_simps [simp]:
  "subdomain_key (r\<lparr>sub_ID := n\<rparr>) = subdomain_key r"
  "subdomain_key (x\<lparr>sub_ScanID := a, sub_DiscoveredAt := b, sub_IsActive := c\<rparr>) = subdomain_key x"
  by (simp_all add: subdomain_key_def)

lemma subdomain_ident_simps [simp]:
  "subdomain_ident (x\<lparr>sub_ScanID := a, sub_DiscoveredAt := b, sub_IsActive := c\<rparr>) = subdomain_ident x"
  "subdomain_ident (r\<lparr>sub_ID := n\<rparr>) = (n, subdomain_key r)"
  by (simp_all add: subdomain_ident_def subdomain_key_def)

lemma snd_subdomain_ident [simp]: "snd (subdomain_ident x) = subdomain_key x"
  by (simp add: subdomain_ident_def)

lemma same_key_iff: "same_key x r \<longleftrightarrow> subdomain_key x = subdomain_key r"
  by (auto simp: same_key_def subdomain_key_def)

lemma upsert_subdomain_idents:
  "map subdomain_ident (upsert_subdomain upd tbl r) =
     (if subdomain_key r \<in> subdomain_key ` set tbl then map subdomain_ident tbl
      else map subdomain_ident tbl @ [(fresh_id (map sub_ID tbl), subdomain_key r)])"
proof (cases "\<exists>x \<in> set tbl. same_key x r")
  case True
  then have in_keys: "subdomain_key r \<in> subdomain_key ` set tbl"
    by (auto simp: same_key_iff) (metis imageI)
  have "map subdomain_ident (upsert_subdomain upd tbl r) = map subdomain_ident tbl"
  proof (cases upd)
    case True
    have "map subdomain_ident
            (map (\<lambda>x. if same_key x r
                       then x\<lparr>sub_ScanID := sub_ScanID r, sub_DiscoveredAt := sub_DiscoveredAt r,
                              sub_IsActive := sub_IsActive r\<rparr>
                       else x) tbl) = map subdomain_ident tbl"
      by (induction tbl) simp_all
    with True \<open>\<exists>x \<in> set tbl. same_key x r\<close> show ?thesis
      by (simp add: upsert_subdomain_def)
  next
    case False
    with \<open>\<exists>x \<in> set tbl. same_key x r\<close> show ?thesis
      by (simp add: upsert_subdomain_def)
  qed
  with in_keys show ?thesis by simp
next
  case False
  then have "subdomain_key r \<notin> subdomain_key ` set tbl"
    by (auto simp: same_key_iff)
  with False show ?thesis
    by (simp add: upsert_subdomain_def)
qed

lemma upsert_subdomain_continues:
  "continues (map subdomain_ident tbl) (map subdomain_ident (upsert_subdomain upd tbl r))"
proof (cases "subdomain_key r \<in> subdomain_key ` set tbl")
  case True
  then show ?thesis by (simp add: upsert_subdomain_idents)
next
  case False
  then have "subdomain_key r \<notin> set (map snd (map subdomain_ident tbl))"
    by (simp add: comp_def)
  from continues_snoc [OF this] False show ?thesis
    by (simp add: upsert_subdomain_idents)
qed

lemma upsert_subdomain_key_set:
  "subdomain_key ` set (upsert_subdomain upd tbl r) = insert (subdomain_key r) (subdomain_key ` set tbl)"
proof -
  have "subdomain_key ` set (upsert_subdomain upd tbl r)
          = snd ` set (map subdomain_ident (upsert_subdomain upd tbl r))"
    by (simp add: image_image)
  also have "\<dots> = insert (subdomain_key r) (subdomain_key ` set tbl)"
    unfolding upsert_subdomain_idents by (auto simp: image_image)
  finally show ?thesis .
qed

lemma foldl_upsert_continues:
  "continues (map subdomain_ident tbl) (map subdomain_ident (foldl (upsert_subdomain upd) tbl rows))"
proof (induction rows arbitrary: tbl)
  case Nil
  show ?case by simp
next
  case (Cons r rows)
  from continues_trans [OF upsert_subdomain_continues Cons.IH]
  show ?case by simp
qed

lemma foldl_upsert_key_set:
  "subdomain_key ` set (foldl (upsert_subdomain upd) tbl rows)
     = subdomain_key ` set tbl \<union> subdomain_key ` set rows"
proof (induction rows arbitrary: tbl)
  case Nil
  show ?case by simp
next
  case (Cons r rows)
  show ?case
    using Cons.IH [of "upsert_subdomain upd tbl r"]
    by (simp add: upsert_subdomain_key_set)
qed

lemma upsert_insert_rows:
  "x \<in> set (upsert_subdomain False tbl r) \<Longrightarrow> x \<in> set tbl \<or> subdomain_key x = subdomain_key r"
  by (auto simp: upsert_subdomain_def split: if_splits)

lemma foldl_upsert_insert_rows:
  "x \<in> set (foldl (upsert_subdomain False) tbl rows) \<Longrightarrow>
     x \<in> set tbl \<or> subdomain_key x \<in> subdomain_key ` set rows"
proof (induction rows arbitrary: tbl)
  case Nil
  then show ?case by simp
next
  case (Cons r rows)
  from Cons.prems have "x \<in> set (foldl (upsert_subdomain False) (upsert_subdomain False tbl r) rows)"
    by simp
  from Cons.IH [OF this] show ?case
    using upsert_insert_rows [of x tbl r] by auto
qed

lemma modelsToCreate_keys:
  "subdomain_key ` set (modelsToCreate E rootDomainID scanID subdomains)
     = {(h, rootDomainID) | h. h \<in> set subdomains \<and> \<not> parse_ip E h}"
proof -
  have "subdomain_key ` set (modelsToCreate E rootDomainID scanID subdomains)
          = (\<lambda>h. (h, rootDomainID)) ` {h \<in> set subdomains. \<not> parse_ip E h}"
    by (simp add: modelsToCreate_def subdomain_key_def image_image)
  also have "\<dots> = {(h, rootDomainID) | h. h \<in> set subdomains \<and> \<not> parse_ip E h}"
    by blast
  finally show ?thesis .
qed

lemma saveSubdomains_batch:
  "snd (snd (saveSubdomains E s rootDomainID scanID subdomains))
     = (if subdomains = [] \<or> create_batch_error E s (modelsToCreate E rootDomainID scanID subdomains) \<noteq> None
        then s
        else create_subdomains False (modelsToCreate E rootDomainID scanID subdomains) s)"
  by (simp add: saveSubdomains_def Let_def split: option.splits)

lemma saveSubdomains_rows:
  assumes "r \<in> set (Subdomains (snd (snd (saveSubdomains E s rootDomainID scanID subdomains))))"
  shows "r \<in> set (Subdomains s)
         \<or> (sub_Hostname r \<in> set subdomains \<and> \<not> parse_ip E (sub_Hostname r)
            \<and> sub_RootDomainID r = rootDomainID)"
proof (cases "subdomains = [] \<or> create_batch_error E s (modelsToCreate E rootDomainID scanID subdomains) \<noteq> None")
  case True
  with assms show ?thesis by (simp add: saveSubdomains_batch)
next
  case False
  with assms have "r \<in> set (foldl (upsert_subdomain False) (Subdomains s)
                              (modelsToCreate E rootDomainID scanID subdomains))"
    by (simp add: saveSubdomains_batch create_subdomains_def)
  from foldl_upsert_insert_rows [OF this] show ?thesis
    unfolding modelsToCreate_keys by (auto simp: subdomain_key_def)
qed

lemma saveSubdomains_persists:
  assumes "refused E s SaveSubs_Create = None" and "h \<in> set subdomains" and "\<not> parse_ip E h"
  shows "\<exists>r \<in> set (Subdomains (snd (snd (saveSubdomains E s rootDomainID scanID subdomains)))).
           sub_Hostname r = h \<and> sub_RootDomainID r = rootDomainID"
proof -
  from assms(2,3) have ne: "modelsToCreate E rootDomainID scanID subdomains \<noteq> []"
    by (auto simp: modelsToCreate_def filter_empty_conv)
  from assms(2) have "subdomains \<noteq> []" by auto
  with ne assms(1) have
    "snd (snd (saveSubdomains E s rootDomainID scanID subdomains))
       = create_subdomains False (modelsToCreate E rootDomainID scanID subdomains) s"
    by (simp add: saveSubdomains_batch create_batch_error_def)
  moreover have "(h, rootDomainID) \<in> subdomain_key ` set (foldl (upsert_subdomain False) (Subdomains s)
                              (modelsToCreate E rootDomainID scanID subdomains))"
    unfolding foldl_upsert_key_set modelsToCreate_keys using assms(2,3) by simp
  ultimately show ?thesis
    by (auto simp: create_subdomains_def subdomain_key_def)
qed

lemma saveSubdomains_all_ip:
  assumes "subdomains \<noteq> []" and "\<forall>h \<in> set subdomains. parse_ip E h"
  shows "saveSubdomains E s rootDomainID scanID subdomains
           = ([], Some ''failed to save subdomains: empty slice found'', s)"
proof -
  from assms(2) have "modelsToCreate E rootDomainID scanID subdomains = []"
    by (simp add: modelsToCreate_def filter_empty_conv)
  with assms(1) show ?thesis
    by (simp add: saveSubdomains_def create_batch_error_def)
qed

text \<open>
  C7. \<open>saveSubdomains\<close> builds its batch from the strings of the active set that do not
  parse as an IP address, in their order, and hands that batch to the insert. No
  string that parses as an IP address gets a row: every row of the table after the
  call was there before or belongs to a string of the active set that is not an IP
  address. Every other string of the set is persisted: when the store takes the
  insert, it has a row under the root domain after the call.
\<close>

theorem saveSubdomains_skips_ip_addresses:
  "map sub_Hostname (modelsToCreate E rootDomainID scanID subdomains)
     = filter (\<lambda>sub. \<not> parse_ip E sub) subdomains
   \<and> snd (snd (saveSubdomains E s rootDomainID scanID subdomains))
       = (if subdomains = [] \<or> create_batch_error E s (modelsToCreate E rootDomainID scanID subdomains) \<noteq> None
          then s
          else create_subdomains False (modelsToCreate E rootDomainID scanID subdomains) s)
   \<and> (\<forall>r \<in> set (Subdomains (snd (snd (saveSubdomains E s rootDomainID scanID subdomains)))).
         r \<in> set (Subdomains s)
         \<or> (sub_Hostname r \<in> set subdomains \<and> \<not> parse_ip E (sub_Hostname r)
            \<and> sub_RootDomainID r = rootDomainID))
   \<and> (refused E s SaveSubs_Create = None \<longrightarrow>
        (\<forall>h \<in> set subdomains. \<not> parse_ip E h \<longrightarrow>
           (\<exists>r \<in> set (Subdomains (snd (snd (saveSubdomains E s rootDomainID scanID subdomains)))).
              sub_Hostname r = h \<and> sub_RootDomainID r = rootDomainID)))"
proof (intro conjI ballI impI)
  show "map sub_Hostname (modelsToCreate E rootDomainID scanID subdomains)
          = filter (\<lambda>sub. \<not> parse_ip E sub) subdomains"
    by (rule modelsToCreate_hostnames)
  show "snd (snd (saveSubdomains E s rootDomainID scanID subdomains))
       = (if subdomains = [] \<or> create_batch_error E s (modelsToCreate E rootDomainID scanID subdomains) \<noteq> None
          then s
          else create_subdomains False (modelsToCreate E rootDomainID scanID subdomains) s)"
    by (rule saveSubdomains_batch)
next
  fix r assume "r \<in> set (Subdomains (snd (snd (saveSubdomains E s rootDomainID scanID subdomains))))"
  then show "r \<in> set (Subdomains s)
         \<or> (sub_Hostname r \<in> set subdomains \<and> \<not> parse_ip E (sub_Hostname r)
            \<and> sub_RootDomainID r = rootDomainID)"
    by (rule saveSubdomains_rows)
next
  fix h assume "refused E s SaveSubs_Create = None" "h \<in> set subdomains" "\<not> parse_ip E h"
  then show "\<exists>r \<in> set (Subdomains (snd (snd (saveSubdomains E s rootDomainID scanID subdomains)))).
              sub_Hostname r = h \<and> sub_RootDomainID r = rootDomainID"
    by (rule saveSubdomains_persists)
qed

lemma sample_batch_saved:
  "map sub_Hostname (Subdomains (snd (snd (saveSubdomains example_env (db example_world) 1 7
          [''www.example.com'', ''192.0.2.7'', ''example.com''])))) = [''www.example.com'', ''example.com'']
   \<and> fst (snd (saveSubdomains example_env (db example_world) 1 7
          [''www.example.com'', ''192.0.2.7'', ''example.com''])) = None
   \<and> fst (snd (saveSubdomains example_env (db example_world) 1 7 [''192.0.2.7'']))
        = Some ''failed to save subdomains: empty slice found''"
  by code_simp

theorem saveSubdomains_ip_witness:
  "refused example_env (db example_world) SaveSubs_Create = None
   \<and> (\<exists>r \<in> set (Subdomains (snd (snd (saveSubdomains example_env (db example_world) 1 7
                     [''www.example.com'', ''192.0.2.7'', ''example.com''])))).
         sub_Hostname r = ''www.example.com'' \<and> sub_RootDomainID r = 1)
   \<and> ''192.0.2.7'' \<notin> set (map sub_Hostname
          (Subdomains (snd (snd (saveSubdomains example_env (db example_world) 1 7
                     [''www.example.com'', ''192.0.2.7'', ''example.com''])))))"
proof -
  let ?subs = "[''www.example.com'', ''192.0.2.7'', ''example.com'']"
  note T = saveSubdomains_skips_ip_addresses [of example_env 1 7 ?subs "db example_world"]
  have ok: "refused example_env (db example_world) SaveSubs_Create = None"
    by (simp add: refused_def example_env_def example_world_def)
  have ip: "parse_ip example_env h \<longleftrightarrow> h = ''192.0.2.7''" for h
    by (simp add: example_env_def)
  from T ok have low: "\<forall>h \<in> set ?subs. \<not> parse_ip example_env h \<longrightarrow>
           (\<exists>r \<in> set (Subdomains (snd (snd (saveSubdomains example_env (db example_world) 1 7 ?subs)))).
              sub_Hostname r = h \<and> sub_RootDomainID r = 1)"
    by blast
  have www: "\<exists>r \<in> set (Subdomains (snd (snd (saveSubdomains example_env (db example_world) 1 7 ?subs)))).
              sub_Hostname r = ''www.example.com'' \<and> sub_RootDomainID r = 1"
    using low [rule_format, of "''www.example.com''"] by (simp add: ip)
  from T have up: "\<forall>r \<in> set (Subdomains (snd (snd (saveSubdomains example_env (db example_world) 1 7 ?subs)))).
         r \<in> set (Subdomains (db example_world))
         \<or> (sub_Hostname r \<in> set ?subs \<and> \<not> parse_ip example_env (sub_Hostname r)
            \<and> sub_RootDomainID r = 1)"
    by blast
  have "sub_Hostname r \<noteq> ''192.0.2.7''"
    if "r \<in> set (Subdomains (snd (snd (saveSubdomains example_env (db example_world) 1 7 ?subs))))" for r
  proof -
    from up that have "r \<in> set (Subdomains (db example_world))
         \<or> (sub_Hostname r \<in> set ?subs \<and> \<not> parse_ip example_env (sub_Hostname r)
            \<and> sub_RootDomainID r = 1)" by blast
    moreover have "Subdomains (db example_world) = []" by (simp add: example_world_def)
    ultimately show ?thesis by (auto simp: ip)
  qed
  then have nf: "\<forall>r \<in> set (Subdomains (snd (snd (saveSubdomains example_env (db example_world) 1 7 ?subs)))).
                   sub_Hostname r \<noteq> ''192.0.2.7''"
    by (rule ballI)
  have "''192.0.2.7'' \<notin> sub_Hostname `
          set (Subdomains (snd (snd (saveSubdomains example_env (db example_world) 1 7 ?subs))))"
  proof
    assume "''192.0.2.7'' \<in> sub_Hostname `
          set (Subdomains (snd (snd (saveSubdomains example_env (db example_world) 1 7 ?subs))))"
    then obtain r where eq: "''192.0.2.7'' = sub_Hostname r"
      and mem: "r \<in> set (Subdomains (snd (snd (saveSubdomains example_env (db example_world) 1 7 ?subs))))"
      by (rule imageE)
    from nf mem have "sub_Hostname r \<noteq> ''192.0.2.7''" by (rule bspec)
    with eq show False by simp
  qed
  then have "''192.0.2.7'' \<notin> set (map sub_Hostname
          (Subdomains (snd (snd (saveSubdomains example_env (db example_world) 1 7 ?subs)))))"
    unfolding set_map .
  with ok www show ?thesis by blast
qed

subsection \<open>One technology of the fingerprint batch\<close>


lemma tech_state_le_refl [simp]: "tech_state_le st st"
  by (simp add: tech_state_le_def)







subsection \<open>The technologies of one URL and of the batch\<close>









subsection \<open>The hostname map of the fingerprint batch\<close>

lemma load_ids_Cons: "load_ids (x # rows) m = load_ids rows (m(sub_Hostname x \<mapsto> sub_ID x))"
  by (simp add: load_ids_def)

lemma load_ids_Nil [simp]: "load_ids [] m = m"
  by (simp add: load_ids_def)

lemma load_ids_Some:
  "load_ids rows m h = Some i \<Longrightarrow>
     (\<exists>x \<in> set rows. sub_Hostname x = h \<and> sub_ID x = i) \<or> m h = Some i"
proof (induction rows arbitrary: m)
  case Nil
  then show ?case by simp
next
  case (Cons x rows)
  from Cons.prems have "load_ids rows (m(sub_Hostname x \<mapsto> sub_ID x)) h = Some i"
    by (simp add: load_ids_Cons)
  from Cons.IH [OF this] show ?case
    by (auto split: if_splits)
qed






subsection \<open>The transaction of the fingerprint phase\<close>









subsection \<open>The hostname maps of the crawl phase\<close>

lemma ids_from_empty [simp]: "ids_from H Map.empty"
  by (simp add: ids_from_def)

lemma ids_from_mono: "ids_from H m \<Longrightarrow> (\<And>h i. H h i \<Longrightarrow> H' h i) \<Longrightarrow> ids_from H' m"
  unfolding ids_from_def by blast

lemma ids_from_update: "ids_from H m \<Longrightarrow> i = 0 \<or> H h i \<Longrightarrow> ids_from H (m(h \<mapsto> i))"
  unfolding ids_from_def by auto

lemma ids_from_load:
  assumes "ids_from H m" and "\<forall>x \<in> set rows. H (sub_Hostname x) (sub_ID x)"
  shows "ids_from H (load_ids rows m)"
  unfolding ids_from_def
proof (intro allI impI)
  fix h i assume "load_ids rows m h = Some i"
  from load_ids_Some [OF this] show "i = 0 \<or> H h i"
  proof
    assume "\<exists>x \<in> set rows. sub_Hostname x = h \<and> sub_ID x = i"
    with assms(2) show ?thesis by blast
  next
    assume "m h = Some i"
    with assms(1) show ?thesis by (simp add: ids_from_def)
  qed
qed

lemma collect_result_step:
  "fst (collect_result E rootDomain rootDomainID scanID res st) = fst st
   \<or> fst (collect_result E rootDomain rootDomainID scanID res st) = (fst st)(usr_Hostname res \<mapsto> 0)"
  "snd (snd (collect_result E rootDomain rootDomainID scanID res st)) = snd (snd st) @ [res]"
  by (cases st; simp add: collect_result_def Let_def)+

lemma collect_result_ids:
  assumes "ids_from H (fst st)"
  shows "ids_from H (fst (collect_result E rootDomain rootDomainID scanID res st))"
proof -
  from collect_result_step(1) [of E rootDomain rootDomainID scanID res st] show ?thesis
  proof
    assume "fst (collect_result E rootDomain rootDomainID scanID res st) = fst st"
    with assms show ?thesis by simp
  next
    assume eq: "fst (collect_result E rootDomain rootDomainID scanID res st) = (fst st)(usr_Hostname res \<mapsto> 0)"
    show ?thesis unfolding eq using assms by (rule ids_from_update) simp
  qed
qed

lemma fold_collect_result:
  assumes "ids_from H (fst st)"
  shows "ids_from H (fst (fold (collect_result E rootDomain rootDomainID scanID) results st))
       \<and> snd (snd (fold (collect_result E rootDomain rootDomainID scanID) results st)) = snd (snd st) @ results"
  using assms
proof (induction results arbitrary: st)
  case Nil
  then show ?case by simp
next
  case (Cons res results)
  from Cons.IH [OF collect_result_ids [OF Cons.prems]] show ?case
    by (simp add: collect_result_step(2))
qed

lemma create_subdomains_continues:
  "continues (map subdomain_ident (Subdomains s))
             (map subdomain_ident (Subdomains (create_subdomains upd rows s)))"
  by (simp add: create_subdomains_def foldl_upsert_continues)

lemma subdomain_ident_eq:
  "subdomain_ident x = subdomain_ident y \<longleftrightarrow>
     sub_ID x = sub_ID y \<and> sub_Hostname x = sub_Hostname y \<and> sub_RootDomainID x = sub_RootDomainID y"
  by (auto simp: subdomain_ident_def subdomain_key_def)

lemma id_held_row:
  "x \<in> set (Subdomains s) \<Longrightarrow> sub_RootDomainID x = rootDomainID \<Longrightarrow>
     id_held E ex s rootDomainID (sub_Hostname x) (sub_ID x)"
  by (auto simp: id_held_def list_ex_iff)

lemma id_held_mono:
  assumes "set (map subdomain_ident (Subdomains s)) \<subseteq> set (map subdomain_ident (Subdomains s'))"
    and "id_held E ex s rootDomainID h i"
  shows "id_held E ex s' rootDomainID h i"
proof (cases "ex h = Some i \<or> reported_id E h = i")
  case True
  then show ?thesis by (auto simp: id_held_def)
next
  case False
  with assms(2) obtain x where x: "x \<in> set (Subdomains s)" "sub_ID x = i" "sub_Hostname x = h"
    "sub_RootDomainID x = rootDomainID"
    by (auto simp: id_held_def list_ex_iff)
  from x(1) have "subdomain_ident x \<in> set (map subdomain_ident (Subdomains s))" by simp
  with assms(1) have "subdomain_ident x \<in> set (map subdomain_ident (Subdomains s'))" by blast
  then obtain y where y: "y \<in> set (Subdomains s')" "subdomain_ident y = subdomain_ident x"
    by auto
  with x(2,3,4) have "sub_ID y = i \<and> sub_Hostname y = h \<and> sub_RootDomainID y = rootDomainID"
    by (simp add: subdomain_ident_eq)
  with y(1) show ?thesis by (auto simp: id_held_def list_ex_iff)
qed

lemma find_subdomains_held:
  "\<forall>x \<in> set (find_subdomains rootDomainID s). id_held E ex s rootDomainID (sub_Hostname x) (sub_ID x)"
  by (auto simp: find_subdomains_def intro: id_held_row)

lemma find_subdomains_in_held:
  "\<forall>x \<in> set (find_subdomains_in rootDomainID hosts s). id_held E ex s rootDomainID (sub_Hostname x) (sub_ID x)"
  by (auto simp: find_subdomains_in_def intro: id_held_row)

lemma read_subdomains_held:
  "\<forall>x \<in> set (case err of Some e \<Rightarrow> [] | None \<Rightarrow> find_subdomains rootDomainID s).
      id_held E ex s rootDomainID (sub_Hostname x) (sub_ID x)"
  using find_subdomains_held [of rootDomainID s E ex] by (cases err) simp_all

lemma read_subdomains_in_held:
  "\<forall>x \<in> set (case err of Some e \<Rightarrow> [] | None \<Rightarrow> find_subdomains_in rootDomainID hosts s).
      id_held E ex s rootDomainID (sub_Hostname x) (sub_ID x)"
  using find_subdomains_in_held [of rootDomainID hosts s E ex] by (cases err) simp_all

lemma missed_ids:
  assumes "ids_from H (fst mc)" and "ids_from H (snd mc)"
    and "\<forall>x \<in> set rows. H (sub_Hostname x) (sub_ID x)"
  shows "ids_from H (snd (fold (\<lambda>sub (m, c).
                                 if m (sub_Hostname sub) = None \<or> m (sub_Hostname sub) = Some 0
                                 then (m(sub_Hostname sub \<mapsto> sub_ID sub), c(sub_Hostname sub \<mapsto> sub_ID sub))
                                 else (m, c)) rows mc))
       \<and> ids_from H (fst (fold (\<lambda>sub (m, c).
                                 if m (sub_Hostname sub) = None \<or> m (sub_Hostname sub) = Some 0
                                 then (m(sub_Hostname sub \<mapsto> sub_ID sub), c(sub_Hostname sub \<mapsto> sub_ID sub))
                                 else (m, c)) rows mc))"
  using assms
proof (induction rows arbitrary: mc)
  case Nil
  then show ?case by simp
next
  case (Cons x rows)
  obtain m c where mc: "mc = (m, c)" by (cases mc)
  let ?mc1 = "if m (sub_Hostname x) = None \<or> m (sub_Hostname x) = Some 0
              then (m(sub_Hostname x \<mapsto> sub_ID x), c(sub_Hostname x \<mapsto> sub_ID x)) else (m, c)"
  from Cons.prems have H: "H (sub_Hostname x) (sub_ID x)" by simp
  from Cons.prems(1,2) H have "ids_from H (fst ?mc1)" "ids_from H (snd ?mc1)"
    by (auto simp: mc intro: ids_from_update)
  moreover from Cons.prems(3) have "\<forall>y \<in> set rows. H (sub_Hostname y) (sub_ID y)" by simp
  ultimately show ?case
    using Cons.IH [of ?mc1] by (simp add: mc)
qed

lemma create_new_subdomains_Nil:
  "create_new_subdomains E rootDomainID [] s (m, c) = (s, m, c)"
  by (simp add: create_new_subdomains_def)

lemma create_new_subdomains_refused:
  assumes "new \<noteq> []" and "refused E s URL_CreateSubdomains \<noteq> None"
  shows "create_new_subdomains E rootDomainID new s (m, c)
         = (s, load_ids (case db_error E URL_Refresh of Some e \<Rightarrow> [] | None \<Rightarrow> find_subdomains rootDomainID s) Map.empty,
               load_ids (case db_error E URL_Refresh of Some e \<Rightarrow> [] | None \<Rightarrow> find_subdomains rootDomainID s) c)"
  using assms by (auto simp: create_new_subdomains_def Let_def)

lemma create_new_subdomains_created:
  assumes "new \<noteq> []" and "refused E s URL_CreateSubdomains = None"
  shows "create_new_subdomains E rootDomainID new s (m, c)
         = (create_subdomains True new s,
            load_ids (case db_error E URL_Refresh of Some e \<Rightarrow> []
                      | None \<Rightarrow> find_subdomains rootDomainID (create_subdomains True new s)) Map.empty,
            load_ids (case db_error E URL_Refresh of Some e \<Rightarrow> []
                      | None \<Rightarrow> find_subdomains rootDomainID (create_subdomains True new s))
              (snd (fold (\<lambda>sub (m, c).
                            if m (sub_Hostname sub) = None \<or> m (sub_Hostname sub) = Some 0
                            then (m(sub_Hostname sub \<mapsto> sub_ID sub), c(sub_Hostname sub \<mapsto> sub_ID sub))
                            else (m, c))
                         (case db_error E URL_RefetchCreated of Some e \<Rightarrow> []
                          | None \<Rightarrow> find_subdomains_in rootDomainID (map sub_Hostname new)
                                      (create_subdomains True new s))
                         (load_ids (filter (\<lambda>sub. sub_ID sub \<noteq> 0)
                                      (map (\<lambda>sub. sub\<lparr>sub_ID := reported_id E (sub_Hostname sub)\<rparr>) new)) m,
                          load_ids (filter (\<lambda>sub. sub_ID sub \<noteq> 0)
                                      (map (\<lambda>sub. sub\<lparr>sub_ID := reported_id E (sub_Hostname sub)\<rparr>) new)) c))))"
  using assms by (simp add: create_new_subdomains_def Let_def)

lemma create_new_subdomains_ids:
  assumes m: "ids_from (id_held E ex s rootDomainID) m" and c: "ids_from (id_held E ex s rootDomainID) c"
  shows "ids_from (id_held E ex (fst (create_new_subdomains E rootDomainID new s (m, c))) rootDomainID)
           (fst (snd (create_new_subdomains E rootDomainID new s (m, c))))
       \<and> ids_from (id_held E ex (fst (create_new_subdomains E rootDomainID new s (m, c))) rootDomainID)
           (snd (snd (create_new_subdomains E rootDomainID new s (m, c))))"
proof (cases "new = []")
  case True
  with m c show ?thesis by (simp add: create_new_subdomains_Nil)
next
  case ne: False
  show ?thesis
  proof (cases "refused E s URL_CreateSubdomains")
    case (Some e)
    then have r: "refused E s URL_CreateSubdomains \<noteq> None" by simp
    let ?all = "case db_error E URL_Refresh of Some e \<Rightarrow> [] | None \<Rightarrow> find_subdomains rootDomainID s"
    have all: "\<forall>x \<in> set ?all. id_held E ex s rootDomainID (sub_Hostname x) (sub_ID x)"
      by (rule read_subdomains_held)
    have "ids_from (id_held E ex s rootDomainID) (load_ids ?all Map.empty)"
      by (rule ids_from_load [OF ids_from_empty all])
    moreover have "ids_from (id_held E ex s rootDomainID) (load_ids ?all c)"
      by (rule ids_from_load [OF c all])
    ultimately show ?thesis
      by (simp add: create_new_subdomains_refused [OF ne r])
  next
    case None
    define s1 where "s1 = create_subdomains True new s"
    let ?H = "id_held E ex s1 rootDomainID"
    let ?all = "case db_error E URL_Refresh of Some e \<Rightarrow> [] | None \<Rightarrow> find_subdomains rootDomainID s1"
    let ?created = "case db_error E URL_RefetchCreated of Some e \<Rightarrow> []
                    | None \<Rightarrow> find_subdomains_in rootDomainID (map sub_Hostname new) s1"
    let ?written = "filter (\<lambda>sub. sub_ID sub \<noteq> 0)
                      (map (\<lambda>sub. sub\<lparr>sub_ID := reported_id E (sub_Hostname sub)\<rparr>) new)"
    have sub: "set (map subdomain_ident (Subdomains s)) \<subseteq> set (map subdomain_ident (Subdomains s1))"
      unfolding s1_def by (rule continues_subset [OF create_subdomains_continues])
    have m1: "ids_from ?H m" by (rule ids_from_mono [OF m]) (rule id_held_mono [OF sub])
    have c1: "ids_from ?H c" by (rule ids_from_mono [OF c]) (rule id_held_mono [OF sub])
    have written: "\<forall>x \<in> set ?written. ?H (sub_Hostname x) (sub_ID x)"
      by (auto simp: id_held_def)
    have all: "\<forall>x \<in> set ?all. ?H (sub_Hostname x) (sub_ID x)"
      by (rule read_subdomains_held)
    have created: "\<forall>x \<in> set ?created. ?H (sub_Hostname x) (sub_ID x)"
      by (rule read_subdomains_in_held)
    let ?mc = "(load_ids ?written m, load_ids ?written c)"
    have "ids_from ?H (fst ?mc)" "ids_from ?H (snd ?mc)"
      using ids_from_load [OF m1 written] ids_from_load [OF c1 written] by simp_all
    from missed_ids [OF this created]
    have cache1: "ids_from ?H (snd (fold (\<lambda>sub (m, c).
                            if m (sub_Hostname sub) = None \<or> m (sub_Hostname sub) = Some 0
                            then (m(sub_Hostname sub \<mapsto> sub_ID sub), c(sub_Hostname sub \<mapsto> sub_ID sub))
                            else (m, c)) ?created ?mc))"
      by (rule conjunct1)
    have "ids_from ?H (load_ids ?all Map.empty)"
      by (rule ids_from_load [OF ids_from_empty all])
    moreover note ids_from_load [OF cache1 all]
    ultimately show ?thesis
      unfolding create_new_subdomains_created [OF ne None] s1_def [symmetric] by simp
  qed
qed

subsection \<open>The results that reach the endpoint loop\<close>

lemma resolve_endpoint_origin:
  assumes "resolve_endpoint E subdomainMap cache res = Some res'"
  shows "usr_FullURL res' = usr_FullURL res"
  using assms
  by (auto simp: resolve_endpoint_def Let_def split: option.splits if_splits)

lemma ids_fromD: "ids_from H m \<Longrightarrow> m h = Some i \<Longrightarrow> i \<noteq> 0 \<Longrightarrow> H h i"
  unfolding ids_from_def by blast

lemma ids_from_existing: "ids_from (id_held E ex s rootDomainID) ex"
  by (simp add: ids_from_def id_held_def)

lemma prepare_endpoints_unfold:
  "prepare_endpoints E rootDomain rootDomainID scanID results ex s =
     (fst (create_new_subdomains E rootDomainID
             (fst (snd (fold (collect_result E rootDomain rootDomainID scanID) results
                (load_ids (case db_error E URL_LoadExisting of Some e \<Rightarrow> [] | None \<Rightarrow> find_subdomains rootDomainID s) ex,
                 [], [])))) s
             (load_ids (case db_error E URL_LoadExisting of Some e \<Rightarrow> [] | None \<Rightarrow> find_subdomains rootDomainID s)
                Map.empty,
              fst (fold (collect_result E rootDomain rootDomainID scanID) results
                (load_ids (case db_error E URL_LoadExisting of Some e \<Rightarrow> [] | None \<Rightarrow> find_subdomains rootDomainID s) ex,
                 [], [])))),
      List.map_filter
        (resolve_endpoint E
           (fst (snd (create_new_subdomains E rootDomainID
             (fst (snd (fold (collect_result E rootDomain rootDomainID scanID) results
                (load_ids (case db_error E URL_LoadExisting of Some e \<Rightarrow> [] | None \<Rightarrow> find_subdomains rootDomainID s) ex,
                 [], [])))) s
             (load_ids (case db_error E URL_LoadExisting of Some e \<Rightarrow> [] | None \<Rightarrow> find_subdomains rootDomainID s)
                Map.empty,
              fst (fold (collect_result E rootDomain rootDomainID scanID) results
                (load_ids (case db_error E URL_LoadExisting of Some e \<Rightarrow> [] | None \<Rightarrow> find_subdomains rootDomainID s) ex,
                 [], []))))))
           (snd (snd (create_new_subdomains E rootDomainID
             (fst (snd (fold (collect_result E rootDomain rootDomainID scanID) results
                (load_ids (case db_error E URL_LoadExisting of Some e \<Rightarrow> [] | None \<Rightarrow> find_subdomains rootDomainID s) ex,
                 [], [])))) s
             (load_ids (case db_error E URL_LoadExisting of Some e \<Rightarrow> [] | None \<Rightarrow> find_subdomains rootDomainID s)
                Map.empty,
              fst (fold (collect_result E rootDomain rootDomainID scanID) results
                (load_ids (case db_error E URL_LoadExisting of Some e \<Rightarrow> [] | None \<Rightarrow> find_subdomains rootDomainID s) ex,
                 [], [])))))))
        (snd (snd (fold (collect_result E rootDomain rootDomainID scanID) results
                (load_ids (case db_error E URL_LoadExisting of Some e \<Rightarrow> [] | None \<Rightarrow> find_subdomains rootDomainID s) ex,
                 [], [])))))"
  by (simp add: prepare_endpoints_def Let_def case_prod_beta)

lemma prepare_endpoints_final:
  assumes "res' \<in> set (snd (prepare_endpoints E rootDomain rootDomainID scanID results ex s))"
  shows "ep_SubdomainID (usr_Endpoint res') \<noteq> 0"
    and "id_held E ex (fst (prepare_endpoints E rootDomain rootDomainID scanID results ex s)) rootDomainID
           (usr_Hostname res') (ep_SubdomainID (usr_Endpoint res'))"
    and "\<exists>res \<in> set results. usr_Hostname res' = usr_Hostname res \<and> usr_Params res' = usr_Params res
           \<and> usr_FullURL res' = usr_FullURL res"
proof -
  let ?rows = "case db_error E URL_LoadExisting of Some e \<Rightarrow> [] | None \<Rightarrow> find_subdomains rootDomainID s"
  define col where "col = fold (collect_result E rootDomain rootDomainID scanID) results (load_ids ?rows ex, [], [])"
  define cns where "cns = create_new_subdomains E rootDomainID (fst (snd col)) s (load_ids ?rows Map.empty, fst col)"
  have p: "prepare_endpoints E rootDomain rootDomainID scanID results ex s
             = (fst cns, List.map_filter (resolve_endpoint E (fst (snd cns)) (snd (snd cns))) (snd (snd col)))"
    unfolding cns_def col_def by (rule prepare_endpoints_unfold)
  have rows: "\<forall>x \<in> set ?rows. id_held E ex s rootDomainID (sub_Hostname x) (sub_ID x)"
    by (rule read_subdomains_held)
  have m0: "ids_from (id_held E ex s rootDomainID) (load_ids ?rows Map.empty)"
    by (rule ids_from_load [OF ids_from_empty rows])
  have "ids_from (id_held E ex s rootDomainID) (fst (load_ids ?rows ex, [] :: Subdomain list, [] :: urlScanResult list))"
    using ids_from_load [OF ids_from_existing rows] by simp
  from fold_collect_result [OF this, of E rootDomain rootDomainID scanID results]
  have c1: "ids_from (id_held E ex s rootDomainID) (fst col)" and buf: "snd (snd col) = results"
    by (simp_all add: col_def)
  from create_new_subdomains_ids [OF m0 c1, of "fst (snd col)"]
  have maps: "ids_from (id_held E ex (fst cns) rootDomainID) (fst (snd cns))"
    "ids_from (id_held E ex (fst cns) rootDomainID) (snd (snd cns))"
    by (simp_all add: cns_def)
  from assms obtain res where res: "res \<in> set results"
    and r: "resolve_endpoint E (fst (snd cns)) (snd (snd cns)) res = Some res'"
    by (auto simp: p buf map_filter_def)
  note R = resolve_endpoint_Some [OF r]
  from R show "ep_SubdomainID (usr_Endpoint res') \<noteq> 0" by simp
  from R have nz: "ep_SubdomainID (usr_Endpoint res') \<noteq> 0" and h: "usr_Hostname res' = usr_Hostname res"
    and "fst (snd cns) (usr_Hostname res) = Some (ep_SubdomainID (usr_Endpoint res'))
         \<or> snd (snd cns) (usr_Hostname res) = Some (ep_SubdomainID (usr_Endpoint res'))"
    by simp_all
  then have "id_held E ex (fst cns) rootDomainID (usr_Hostname res) (ep_SubdomainID (usr_Endpoint res'))"
    using ids_fromD [OF maps(1) _ nz] ids_fromD [OF maps(2) _ nz] by blast
  with h have "id_held E ex (fst cns) rootDomainID (usr_Hostname res') (ep_SubdomainID (usr_Endpoint res'))"
    by simp
  then show "id_held E ex (fst (prepare_endpoints E rootDomain rootDomainID scanID results ex s)) rootDomainID
           (usr_Hostname res') (ep_SubdomainID (usr_Endpoint res'))"
    by (simp add: p)
  from R resolve_endpoint_origin [OF r] res
  show "\<exists>res \<in> set results. usr_Hostname res' = usr_Hostname res \<and> usr_Params res' = usr_Params res
           \<and> usr_FullURL res' = usr_FullURL res"
    by blast
qed

subsection \<open>The endpoint and parameter tables under an upsert\<close>

lemma endpoint_key_simps [simp]:
  "endpoint_key (assign_endpoint a r) = endpoint_key r"
  "endpoint_key (ep\<lparr>ep_ID := n\<rparr>) = endpoint_key ep"
  by (simp_all add: endpoint_key_def)

lemma endpoint_ident_simps [simp]:
  "endpoint_ident (assign_endpoint a r) = endpoint_ident r"
  "endpoint_ident (ep\<lparr>ep_ID := n\<rparr>) = (n, endpoint_key ep)"
  "snd (endpoint_ident e) = endpoint_key e"
  "fst (endpoint_ident e) = ep_ID e"
  by (simp_all add: endpoint_ident_def)

lemma parameter_key_simps [simp]:
  "parameter_key (x\<lparr>par_DiscoveredAt := t\<rparr>) = parameter_key x"
  "parameter_key (p\<lparr>par_ID := n\<rparr>) = parameter_key p"
  by (simp_all add: parameter_key_def)

lemma parameter_ident_simps [simp]:
  "parameter_ident (x\<lparr>par_DiscoveredAt := t\<rparr>) = parameter_ident x"
  "parameter_ident (p\<lparr>par_ID := n\<rparr>) = (n, parameter_key p)"
  "snd (parameter_ident p) = parameter_key p"
  "fst (parameter_ident p) = par_ID p"
  by (simp_all add: parameter_ident_def)

lemma endpoint_key_matches: "endpoint_key x = endpoint_key ep \<Longrightarrow> endpoint_matches ep x"
  by (simp add: endpoint_key_def endpoint_matches_def)

lemma parameter_key_matches: "parameter_key x = parameter_key p \<Longrightarrow> parameter_matches p x"
  by (simp add: parameter_key_def parameter_matches_def)

lemma first_or_create_endpoint_idents:
  "map endpoint_ident (Endpoints (snd (first_or_create_endpoint ep s))) =
     (case find (endpoint_matches ep) (sort_key ep_ID (Endpoints s)) of
        Some r \<Rightarrow> map endpoint_ident (Endpoints s)
      | None \<Rightarrow> map endpoint_ident (Endpoints s) @ [(fresh_id (map ep_ID (Endpoints s)), endpoint_key ep)])"
proof (cases "find (endpoint_matches ep) (sort_key ep_ID (Endpoints s))")
  case None
  then show ?thesis by (simp add: first_or_create_endpoint_table)
next
  case (Some r)
  have "map endpoint_ident (map (\<lambda>x. if ep_ID x = ep_ID r then assign_endpoint ep x else x) xs)
          = map endpoint_ident xs" for xs
    by (induction xs) simp_all
  with Some show ?thesis by (simp add: first_or_create_endpoint_table del: map_map)
qed

lemma first_or_create_endpoint_continues:
  "continues (map endpoint_ident (Endpoints s))
             (map endpoint_ident (Endpoints (snd (first_or_create_endpoint ep s))))"
proof (cases "find (endpoint_matches ep) (sort_key ep_ID (Endpoints s))")
  case None
  then have "\<forall>x \<in> set (Endpoints s). \<not> endpoint_matches ep x"
    by (simp only: find_sort_key_None)
  then have "endpoint_key ep \<notin> endpoint_key ` set (Endpoints s)"
    using endpoint_key_matches by force
  then have "endpoint_key ep \<notin> set (map snd (map endpoint_ident (Endpoints s)))"
    by (simp add: image_image)
  from continues_snoc [OF this] None show ?thesis
    by (simp add: first_or_create_endpoint_idents)
next
  case (Some r)
  then show ?thesis by (simp add: first_or_create_endpoint_idents)
qed

lemma first_or_create_endpoint_rows:
  assumes "e \<in> set (Endpoints (snd (first_or_create_endpoint ep s)))"
  shows "endpoint_ident e \<in> set (map endpoint_ident (Endpoints s))
         \<or> (ep_ID e \<noteq> 0 \<and> endpoint_key e = endpoint_key ep)"
proof -
  from assms have "endpoint_ident e \<in> set (map endpoint_ident (Endpoints (snd (first_or_create_endpoint ep s))))"
    by simp
  then show ?thesis
    unfolding first_or_create_endpoint_idents
    by (cases "find (endpoint_matches ep) (sort_key ep_ID (Endpoints s))")
       (auto simp: endpoint_ident_def)
qed

lemma first_or_create_endpoint_row:
  assumes "ep_SubdomainID ep \<noteq> 0"
  shows "\<exists>e \<in> set (Endpoints (snd (first_or_create_endpoint ep s))).
           ep_ID e = ep_ID (fst (first_or_create_endpoint ep s)) \<and> ep_SubdomainID e = ep_SubdomainID ep"
proof (cases "find (endpoint_matches ep) (sort_key ep_ID (Endpoints s))")
  case None
  then show ?thesis
    by (simp add: first_or_create_endpoint_def Let_def)
next
  case (Some r)
  from find_sort_key_Some [OF Some] have r: "r \<in> set (Endpoints s)" "endpoint_matches ep r" by simp_all
  from r(2) assms have sub: "ep_SubdomainID r = ep_SubdomainID ep"
    by (simp add: endpoint_matches_def)
  have tbl: "Endpoints (snd (first_or_create_endpoint ep s))
               = map (\<lambda>x. if ep_ID x = ep_ID r then assign_endpoint ep x else x) (Endpoints s)"
    by (simp add: first_or_create_endpoint_table Some)
  have ret: "fst (first_or_create_endpoint ep s) = assign_endpoint ep r"
    by (simp add: first_or_create_endpoint_def Some)
  have "(\<lambda>x. if ep_ID x = ep_ID r then assign_endpoint ep x else x) r
          \<in> (\<lambda>x. if ep_ID x = ep_ID r then assign_endpoint ep x else x) ` set (Endpoints s)"
    using r(1) by (rule imageI)
  then have mem: "assign_endpoint ep r \<in> set (Endpoints (snd (first_or_create_endpoint ep s)))"
    unfolding tbl by simp
  show ?thesis
    by (rule bexI [OF _ mem]) (simp add: ret sub)
qed

lemma first_or_create_parameter_idents:
  "map parameter_ident (Parameters (first_or_create_parameter p s)) =
     (case find (parameter_matches p) (sort_key par_ID (Parameters s)) of
        Some r \<Rightarrow> map parameter_ident (Parameters s)
      | None \<Rightarrow> map parameter_ident (Parameters s) @ [(fresh_id (map par_ID (Parameters s)), parameter_key p)])"
proof (cases "find (parameter_matches p) (sort_key par_ID (Parameters s))")
  case None
  then show ?thesis by (simp add: first_or_create_parameter_table)
next
  case (Some r)
  have "map parameter_ident
          (map (\<lambda>x. if par_ID x = par_ID r then x\<lparr>par_DiscoveredAt := par_DiscoveredAt p\<rparr> else x) xs)
          = map parameter_ident xs" for xs
    by (induction xs) simp_all
  with Some show ?thesis by (simp add: first_or_create_parameter_table del: map_map)
qed

lemma first_or_create_parameter_continues:
  "continues (map parameter_ident (Parameters s))
             (map parameter_ident (Parameters (first_or_create_parameter p s)))"
proof (cases "find (parameter_matches p) (sort_key par_ID (Parameters s))")
  case None
  then have "\<forall>x \<in> set (Parameters s). \<not> parameter_matches p x"
    by (simp only: find_sort_key_None)
  then have "parameter_key p \<notin> parameter_key ` set (Parameters s)"
    using parameter_key_matches by force
  then have "parameter_key p \<notin> set (map snd (map parameter_ident (Parameters s)))"
    by (simp add: image_image)
  from continues_snoc [OF this] None show ?thesis
    by (simp add: first_or_create_parameter_idents)
next
  case (Some r)
  then show ?thesis by (simp add: first_or_create_parameter_idents)
qed

lemma first_or_create_parameter_rows:
  assumes "q \<in> set (Parameters (first_or_create_parameter p s))"
  shows "parameter_ident q \<in> set (map parameter_ident (Parameters s))
         \<or> (par_ID q \<noteq> 0 \<and> parameter_key q = parameter_key p)"
proof -
  from assms have "parameter_ident q \<in> set (map parameter_ident (Parameters (first_or_create_parameter p s)))"
    by simp
  then show ?thesis
    unfolding first_or_create_parameter_idents
    by (cases "find (parameter_matches p) (sort_key par_ID (Parameters s))")
       (auto simp: parameter_ident_def)
qed

lemma save_parameters_continues:
  "continues (map parameter_ident (Parameters s))
             (map parameter_ident (Parameters (save_parameters E i j endpointID params s)))"
proof (induction params arbitrary: j s)
  case Nil
  show ?case by simp
next
  case (Cons param params)
  show ?case
  proof (cases "refused E s (URL_ParamUpsert i j)")
    case None
    from continues_trans [OF first_or_create_parameter_continues Cons.IH] None show ?thesis
      by simp
  next
    case (Some e)
    with Cons.IH show ?thesis by simp
  qed
qed

lemma save_parameters_rows:
  assumes "q \<in> set (Parameters (save_parameters E i j endpointID params s))"
  shows "parameter_ident q \<in> set (map parameter_ident (Parameters s))
         \<or> (par_ID q \<noteq> 0 \<and> par_EndpointID q = endpointID
            \<and> (\<exists>p \<in> set params. par_Name p = par_Name q \<and> par_ParamType p = par_ParamType q))"
  using assms
proof (induction params arbitrary: j s)
  case Nil
  then show ?case by simp
next
  case (Cons param params)
  let ?s1 = "case refused E s (URL_ParamUpsert i j) of Some e \<Rightarrow> s
             | None \<Rightarrow> first_or_create_parameter (param\<lparr>par_EndpointID := endpointID\<rparr>) s"
  from Cons.prems have "q \<in> set (Parameters (save_parameters E i (Suc j) endpointID params ?s1))"
    by simp
  from Cons.IH [OF this] show ?case
  proof
    assume old: "parameter_ident q \<in> set (map parameter_ident (Parameters ?s1))"
    show ?thesis
    proof (cases "refused E s (URL_ParamUpsert i j)")
      case (Some e)
      with old show ?thesis by simp
    next
      case None
      with old obtain q1 where q1: "q1 \<in> set (Parameters (first_or_create_parameter (param\<lparr>par_EndpointID := endpointID\<rparr>) s))"
        "parameter_ident q1 = parameter_ident q"
        by auto
      from first_or_create_parameter_rows [OF q1(1)] show ?thesis
      proof
        assume "parameter_ident q1 \<in> set (map parameter_ident (Parameters s))"
        with q1(2) show ?thesis by simp
      next
        assume "par_ID q1 \<noteq> 0 \<and> parameter_key q1 = parameter_key (param\<lparr>par_EndpointID := endpointID\<rparr>)"
        with q1(2) have "par_ID q \<noteq> 0 \<and> par_EndpointID q = endpointID
                         \<and> par_Name param = par_Name q \<and> par_ParamType param = par_ParamType q"
          by (auto simp: parameter_ident_def parameter_key_def)
        then show ?thesis by auto
      qed
    qed
  next
    assume "par_ID q \<noteq> 0 \<and> par_EndpointID q = endpointID
            \<and> (\<exists>p \<in> set params. par_Name p = par_Name q \<and> par_ParamType p = par_ParamType q)"
    then show ?thesis by auto
  qed
qed

subsection \<open>The rows written by the endpoint loop\<close>

lemma endpoint_written_for_ident:
  "endpoint_ident e = endpoint_ident e' \<Longrightarrow> endpoint_written_for res e \<Longrightarrow> endpoint_written_for res e'"
  by (simp add: endpoint_written_for_def endpoint_ident_def)

lemma parameter_written_for_ident:
  "parameter_ident p = parameter_ident p' \<Longrightarrow> parameter_written_for s res p \<Longrightarrow> parameter_written_for s res p'"
  by (simp add: parameter_written_for_def parameter_ident_def parameter_key_def)

lemma parameter_written_for_mono:
  assumes "parameter_written_for s res p"
    and "set (map endpoint_ident (Endpoints s)) \<subseteq> set (map endpoint_ident (Endpoints s'))"
  shows "parameter_written_for s' res p"
proof -
  from assms(1) obtain e where e: "e \<in> set (Endpoints s)" "ep_ID e = par_EndpointID p"
    "ep_SubdomainID e = ep_SubdomainID (usr_Endpoint res)"
    by (auto simp: parameter_written_for_def list_ex_iff)
  from e(1) assms(2) have "endpoint_ident e \<in> set (map endpoint_ident (Endpoints s'))" by auto
  then obtain e' where e': "e' \<in> set (Endpoints s')" "endpoint_ident e' = endpoint_ident e" by auto
  from e'(2) e(2,3) have "ep_ID e' = par_EndpointID p \<and> ep_SubdomainID e' = ep_SubdomainID (usr_Endpoint res)"
    by (simp add: endpoint_ident_def endpoint_key_def)
  with e'(1) assms(1) show ?thesis
    by (auto simp: parameter_written_for_def list_ex_iff)
qed

lemma process_endpoint_endpoints:
  "continues (map endpoint_ident (Endpoints (db w)))
             (map endpoint_ident (Endpoints (db (process_endpoint E cap scanID se i res w))))"
  "e \<in> set (Endpoints (db (process_endpoint E cap scanID se i res w))) \<Longrightarrow>
     endpoint_ident e \<in> set (map endpoint_ident (Endpoints (db w))) \<or> endpoint_written_for res e"
proof -
  have "continues (map endpoint_ident (Endpoints (db w)))
             (map endpoint_ident (Endpoints (db (process_endpoint E cap scanID se i res w))))
        \<and> (e \<in> set (Endpoints (db (process_endpoint E cap scanID se i res w))) \<longrightarrow>
             endpoint_ident e \<in> set (map endpoint_ident (Endpoints (db w))) \<or> endpoint_written_for res e)"
  proof (cases "refused E (db w) (URL_EndpointUpsert i)")
    case (Some err)
    then have "process_endpoint E cap scanID se i res w = w"
      by (intro process_endpoint_failed) simp
    then show ?thesis by simp
  next
    case None
    have eq: "Endpoints (db (process_endpoint E cap scanID se i res w))
                = Endpoints (snd (first_or_create_endpoint (usr_Endpoint res) (db w)))"
      by (simp add: process_endpoint_upsert [OF None])
    show ?thesis
      unfolding eq
      using first_or_create_endpoint_continues [of "db w" "usr_Endpoint res"]
        first_or_create_endpoint_rows [of e "usr_Endpoint res" "db w"]
      by (auto simp: endpoint_written_for_def)
  qed
  then show "continues (map endpoint_ident (Endpoints (db w)))
             (map endpoint_ident (Endpoints (db (process_endpoint E cap scanID se i res w))))"
    and "e \<in> set (Endpoints (db (process_endpoint E cap scanID se i res w))) \<Longrightarrow>
     endpoint_ident e \<in> set (map endpoint_ident (Endpoints (db w))) \<or> endpoint_written_for res e"
    by blast+
qed

lemma process_endpoint_parameters:
  "continues (map parameter_ident (Parameters (db w)))
             (map parameter_ident (Parameters (db (process_endpoint E cap scanID se i res w))))"
  "ep_SubdomainID (usr_Endpoint res) \<noteq> 0 \<Longrightarrow>
   q \<in> set (Parameters (db (process_endpoint E cap scanID se i res w))) \<Longrightarrow>
     parameter_ident q \<in> set (map parameter_ident (Parameters (db w)))
     \<or> parameter_written_for (db (process_endpoint E cap scanID se i res w)) res q"
proof -
  have "continues (map parameter_ident (Parameters (db w)))
             (map parameter_ident (Parameters (db (process_endpoint E cap scanID se i res w))))
        \<and> (ep_SubdomainID (usr_Endpoint res) \<noteq> 0 \<longrightarrow>
           q \<in> set (Parameters (db (process_endpoint E cap scanID se i res w))) \<longrightarrow>
             parameter_ident q \<in> set (map parameter_ident (Parameters (db w)))
             \<or> parameter_written_for (db (process_endpoint E cap scanID se i res w)) res q)"
  proof (cases "refused E (db w) (URL_EndpointUpsert i)")
    case (Some err)
    then have "process_endpoint E cap scanID se i res w = w"
      by (intro process_endpoint_failed) simp
    then show ?thesis by simp
  next
    case None
    define r where "r = first_or_create_endpoint (usr_Endpoint res) (db w)"
    show ?thesis
    proof (cases "ep_ID (fst r) = 0")
      case True
      then have "db (process_endpoint E cap scanID se i res w) = snd r"
        unfolding r_def by (simp add: process_endpoint_upsert [OF None])
      then show ?thesis by (simp add: r_def)
    next
      case False
      then have d: "db (process_endpoint E cap scanID se i res w)
                 = save_parameters E i 0 (ep_ID (fst r)) (usr_Params res) (snd r)"
        unfolding r_def by (simp add: process_endpoint_upsert [OF None])
      have pr: "Parameters (snd r) = Parameters (db w)" by (simp add: r_def)
      have c: "continues (map parameter_ident (Parameters (db w)))
             (map parameter_ident (Parameters (db (process_endpoint E cap scanID se i res w))))"
        unfolding d using save_parameters_continues [of "snd r" E i 0 "ep_ID (fst r)" "usr_Params res"]
        by (simp add: pr)
      have "parameter_ident q \<in> set (map parameter_ident (Parameters (db w)))
             \<or> parameter_written_for (db (process_endpoint E cap scanID se i res w)) res q"
        if nz: "ep_SubdomainID (usr_Endpoint res) \<noteq> 0"
          and q: "q \<in> set (Parameters (db (process_endpoint E cap scanID se i res w)))"
      proof -
        from q have "q \<in> set (Parameters (save_parameters E i 0 (ep_ID (fst r)) (usr_Params res) (snd r)))"
          by (simp add: d)
        from save_parameters_rows [OF this] show ?thesis
        proof
          assume "parameter_ident q \<in> set (map parameter_ident (Parameters (snd r)))"
          then show ?thesis by (simp add: pr)
        next
          assume new: "par_ID q \<noteq> 0 \<and> par_EndpointID q = ep_ID (fst r)
            \<and> (\<exists>p \<in> set (usr_Params res). par_Name p = par_Name q \<and> par_ParamType p = par_ParamType q)"
          from first_or_create_endpoint_row [OF nz, of "db w"]
          obtain e where e: "e \<in> set (Endpoints (snd r))" "ep_ID e = ep_ID (fst r)"
            "ep_SubdomainID e = ep_SubdomainID (usr_Endpoint res)"
            unfolding r_def by blast
          have "Endpoints (db (process_endpoint E cap scanID se i res w)) = Endpoints (snd r)"
            by (simp add: d)
          with e new False have "parameter_written_for (db (process_endpoint E cap scanID se i res w)) res q"
            by (auto simp: parameter_written_for_def list_ex_iff)
          then show ?thesis ..
        qed
      qed
      with c show ?thesis by blast
    qed
  qed
  then show "continues (map parameter_ident (Parameters (db w)))
             (map parameter_ident (Parameters (db (process_endpoint E cap scanID se i res w))))"
    and "ep_SubdomainID (usr_Endpoint res) \<noteq> 0 \<Longrightarrow>
   q \<in> set (Parameters (db (process_endpoint E cap scanID se i res w))) \<Longrightarrow>
     parameter_ident q \<in> set (map parameter_ident (Parameters (db w)))
     \<or> parameter_written_for (db (process_endpoint E cap scanID se i res w)) res q"
    by blast+
qed

lemma process_endpoints_continues:
  "continues (map endpoint_ident (Endpoints (db w)))
             (map endpoint_ident (Endpoints (db (process_endpoints E cap scanID se i rs w))))
   \<and> continues (map parameter_ident (Parameters (db w)))
             (map parameter_ident (Parameters (db (process_endpoints E cap scanID se i rs w))))"
proof (induction rs arbitrary: i w)
  case Nil
  show ?case by simp
next
  case (Cons res rs)
  let ?w1 = "process_endpoint E cap scanID se i res w"
  from Cons.IH [where i = "Suc i" and w = ?w1]
  have 1: "continues (map endpoint_ident (Endpoints (db ?w1)))
             (map endpoint_ident (Endpoints (db (process_endpoints E cap scanID se (Suc i) rs ?w1))))"
    and 2: "continues (map parameter_ident (Parameters (db ?w1)))
             (map parameter_ident (Parameters (db (process_endpoints E cap scanID se (Suc i) rs ?w1))))"
    by simp_all
  have "continues (map endpoint_ident (Endpoints (db w)))
             (map endpoint_ident (Endpoints (db (process_endpoints E cap scanID se (Suc i) rs ?w1))))"
    by (rule continues_trans [OF process_endpoint_endpoints(1) 1])
  moreover have "continues (map parameter_ident (Parameters (db w)))
             (map parameter_ident (Parameters (db (process_endpoints E cap scanID se (Suc i) rs ?w1))))"
    by (rule continues_trans [OF process_endpoint_parameters(1) 2])
  ultimately show ?case by simp
qed

lemma process_endpoints_endpoints:
  assumes "e \<in> set (Endpoints (db (process_endpoints E cap scanID se i rs w)))"
  shows "endpoint_ident e \<in> set (map endpoint_ident (Endpoints (db w)))
         \<or> (\<exists>res \<in> set rs. endpoint_written_for res e)"
  using assms
proof (induction rs arbitrary: i w)
  case Nil
  then show ?case by simp
next
  case (Cons res rs)
  let ?w1 = "process_endpoint E cap scanID se i res w"
  from Cons.prems have "e \<in> set (Endpoints (db (process_endpoints E cap scanID se (Suc i) rs ?w1)))"
    by simp
  from Cons.IH [OF this] show ?case
  proof
    assume "endpoint_ident e \<in> set (map endpoint_ident (Endpoints (db ?w1)))"
    then obtain e1 where e1: "e1 \<in> set (Endpoints (db ?w1))" "endpoint_ident e1 = endpoint_ident e"
      by auto
    from process_endpoint_endpoints(2) [OF e1(1)] show ?thesis
    proof
      assume "endpoint_ident e1 \<in> set (map endpoint_ident (Endpoints (db w)))"
      with e1(2) show ?thesis by simp
    next
      assume "endpoint_written_for res e1"
      from endpoint_written_for_ident [OF e1(2) this] show ?thesis by simp
    qed
  next
    assume "\<exists>res \<in> set rs. endpoint_written_for res e"
    then show ?thesis by auto
  qed
qed

lemma process_endpoints_parameters:
  assumes "\<forall>res \<in> set rs. ep_SubdomainID (usr_Endpoint res) \<noteq> 0"
    and "q \<in> set (Parameters (db (process_endpoints E cap scanID se i rs w)))"
  shows "parameter_ident q \<in> set (map parameter_ident (Parameters (db w)))
         \<or> (\<exists>res \<in> set rs. parameter_written_for (db (process_endpoints E cap scanID se i rs w)) res q)"
  using assms
proof (induction rs arbitrary: i w)
  case Nil
  then show ?case by simp
next
  case (Cons res rs)
  let ?w1 = "process_endpoint E cap scanID se i res w"
  let ?w' = "process_endpoints E cap scanID se (Suc i) rs ?w1"
  from Cons.prems(1) have nz: "ep_SubdomainID (usr_Endpoint res) \<noteq> 0"
    and rest: "\<forall>res \<in> set rs. ep_SubdomainID (usr_Endpoint res) \<noteq> 0" by simp_all
  from Cons.prems(2) have "q \<in> set (Parameters (db ?w'))" by simp
  from Cons.IH [OF rest this] show ?case
  proof
    assume "parameter_ident q \<in> set (map parameter_ident (Parameters (db ?w1)))"
    then obtain q1 where q1: "q1 \<in> set (Parameters (db ?w1))" "parameter_ident q1 = parameter_ident q"
      by auto
    from process_endpoint_parameters(2) [OF nz q1(1)] show ?thesis
    proof
      assume "parameter_ident q1 \<in> set (map parameter_ident (Parameters (db w)))"
      with q1(2) show ?thesis by simp
    next
      assume "parameter_written_for (db ?w1) res q1"
      from parameter_written_for_ident [OF q1(2) this]
      have "parameter_written_for (db ?w1) res q" .
      moreover have "set (map endpoint_ident (Endpoints (db ?w1))) \<subseteq> set (map endpoint_ident (Endpoints (db ?w')))"
        using process_endpoints_continues [where w = ?w1 and E = E and cap = cap and scanID = scanID
            and se = se and i = "Suc i" and rs = rs]
        by (intro continues_subset) simp
      ultimately have "parameter_written_for (db ?w') res q"
        by (rule parameter_written_for_mono)
      then show ?thesis by simp
    qed
  next
    assume "\<exists>res \<in> set rs. parameter_written_for (db ?w') res q"
    then show ?thesis by auto
  qed
qed

lemma saveURLScanResults_unfold:
  "saveURLScanResults E cap rootDomain rootDomainID scanID results ex se w
     = process_endpoints E cap scanID se 0
         (snd (prepare_endpoints E rootDomain rootDomainID scanID results ex (db w)))
         (w\<lparr>db := fst (prepare_endpoints E rootDomain rootDomainID scanID results ex (db w))\<rparr>)"
  by (simp add: saveURLScanResults_def case_prod_beta)

lemma saveURLScanResults_endpoints:
  assumes "e \<in> set (Endpoints (db (saveURLScanResults E cap rootDomain rootDomainID scanID results ex se w)))"
  shows "endpoint_ident e \<in> set (map endpoint_ident (Endpoints (db w)))
         \<or> (\<exists>res' \<in> set (snd (prepare_endpoints E rootDomain rootDomainID scanID results ex (db w))).
               endpoint_written_for res' e)"
proof -
  from assms process_endpoints_endpoints
  have "endpoint_ident e \<in> set (map endpoint_ident (Endpoints (db
            (w\<lparr>db := fst (prepare_endpoints E rootDomain rootDomainID scanID results ex (db w))\<rparr>))))
         \<or> (\<exists>res' \<in> set (snd (prepare_endpoints E rootDomain rootDomainID scanID results ex (db w))).
               endpoint_written_for res' e)"
    unfolding saveURLScanResults_unfold by blast
  then show ?thesis by (simp add: prepare_endpoints_other)
qed

lemma saveURLScanResults_parameters:
  assumes "q \<in> set (Parameters (db (saveURLScanResults E cap rootDomain rootDomainID scanID results ex se w)))"
  shows "parameter_ident q \<in> set (map parameter_ident (Parameters (db w)))
         \<or> (\<exists>res' \<in> set (snd (prepare_endpoints E rootDomain rootDomainID scanID results ex (db w))).
               parameter_written_for
                 (db (saveURLScanResults E cap rootDomain rootDomainID scanID results ex se w)) res' q)"
proof -
  have nz: "\<forall>res' \<in> set (snd (prepare_endpoints E rootDomain rootDomainID scanID results ex (db w))).
              ep_SubdomainID (usr_Endpoint res') \<noteq> 0"
    using prepare_endpoints_final(1) by blast
  from process_endpoints_parameters [OF nz] assms
  have "parameter_ident q \<in> set (map parameter_ident (Parameters (db
            (w\<lparr>db := fst (prepare_endpoints E rootDomain rootDomainID scanID results ex (db w))\<rparr>))))
         \<or> (\<exists>res' \<in> set (snd (prepare_endpoints E rootDomain rootDomainID scanID results ex (db w))).
               parameter_written_for
                 (db (saveURLScanResults E cap rootDomain rootDomainID scanID results ex se w)) res' q)"
    unfolding saveURLScanResults_unfold by blast
  then show ?thesis by (simp add: prepare_endpoints_other)
qed

text \<open>
  C6. Every result that reaches the endpoint loop of \<open>saveURLScanResults\<close> is one of
  the crawl results, with its hostname, and carries a non-zero subdomain identifier
  that is held for that hostname: a result without one is dropped, and none is
  attributed to another subdomain. Every endpoint row after the phase was there
  before, with its identifier and key, or is written for a result that reached the
  loop, under that result's subdomain. Every parameter row after the phase was there
  before or has an identifier, a parameter of such a result, and a non-zero endpoint
  identifier, that of an endpoint row of the result's subdomain. So the phase never
  leaves an endpoint that points to subdomain 0 or a parameter that points to
  endpoint 0 in a store that had none.
\<close>

theorem no_write_with_zero_identifier:
  "(\<forall>res' \<in> set (snd (prepare_endpoints E rootDomain rootDomainID scanID results existing (db w))).
       ep_SubdomainID (usr_Endpoint res') \<noteq> 0
       \<and> id_held E existing (fst (prepare_endpoints E rootDomain rootDomainID scanID results existing (db w)))
           rootDomainID (usr_Hostname res') (ep_SubdomainID (usr_Endpoint res'))
       \<and> (\<exists>res \<in> set results. usr_Hostname res' = usr_Hostname res \<and> usr_Params res' = usr_Params res
             \<and> usr_FullURL res' = usr_FullURL res))
   \<and> (\<forall>e \<in> set (Endpoints (db (saveURLScanResults E cap rootDomain rootDomainID scanID results existing se w))).
         endpoint_ident e \<in> set (map endpoint_ident (Endpoints (db w)))
         \<or> (\<exists>res' \<in> set (snd (prepare_endpoints E rootDomain rootDomainID scanID results existing (db w))).
               endpoint_written_for res' e))
   \<and> (\<forall>p \<in> set (Parameters (db (saveURLScanResults E cap rootDomain rootDomainID scanID results existing se w))).
         parameter_ident p \<in> set (map parameter_ident (Parameters (db w)))
         \<or> (\<exists>res' \<in> set (snd (prepare_endpoints E rootDomain rootDomainID scanID results existing (db w))).
               parameter_written_for
                 (db (saveURLScanResults E cap rootDomain rootDomainID scanID results existing se w)) res' p))
   \<and> (no_zero_references (db w) \<longrightarrow>
        no_zero_references
          (db (saveURLScanResults E cap rootDomain rootDomainID scanID results existing se w)))"
proof (intro conjI ballI impI)
  fix res' assume r: "res' \<in> set (snd (prepare_endpoints E rootDomain rootDomainID scanID results existing (db w)))"
  from prepare_endpoints_final [OF r]
  show "ep_SubdomainID (usr_Endpoint res') \<noteq> 0"
    and "id_held E existing (fst (prepare_endpoints E rootDomain rootDomainID scanID results existing (db w)))
           rootDomainID (usr_Hostname res') (ep_SubdomainID (usr_Endpoint res'))"
    and "\<exists>res \<in> set results. usr_Hostname res' = usr_Hostname res \<and> usr_Params res' = usr_Params res
             \<and> usr_FullURL res' = usr_FullURL res"
    by blast+
next
  fix e assume "e \<in> set (Endpoints (db (saveURLScanResults E cap rootDomain rootDomainID scanID results existing se w)))"
  then show "endpoint_ident e \<in> set (map endpoint_ident (Endpoints (db w)))
         \<or> (\<exists>res' \<in> set (snd (prepare_endpoints E rootDomain rootDomainID scanID results existing (db w))).
               endpoint_written_for res' e)"
    by (rule saveURLScanResults_endpoints)
next
  fix p assume "p \<in> set (Parameters (db (saveURLScanResults E cap rootDomain rootDomainID scanID results existing se w)))"
  then show "parameter_ident p \<in> set (map parameter_ident (Parameters (db w)))
         \<or> (\<exists>res' \<in> set (snd (prepare_endpoints E rootDomain rootDomainID scanID results existing (db w))).
               parameter_written_for
                 (db (saveURLScanResults E cap rootDomain rootDomainID scanID results existing se w)) res' p)"
    by (rule saveURLScanResults_parameters)
next
  assume "no_zero_references (db w)"
  then show "no_zero_references
          (db (saveURLScanResults E cap rootDomain rootDomainID scanID results existing se w))"
    by (rule saveURLScanResults_refs)
qed

lemma ghost_result_dropped:
  "map usr_Hostname (snd (prepare_endpoints locked_env ''example.com'' 1 7 [login_result, ghost_result]
                             Map.empty (db known_world))) = [''example.com'']
   \<and> map ep_SubdomainID (Endpoints (db (saveURLScanResults locked_env example_capture ''example.com'' 1 7
                    [login_result, ghost_result] Map.empty False known_world))) = [1]
   \<and> map par_EndpointID (Parameters (db (saveURLScanResults locked_env example_capture ''example.com'' 1 7
                    [login_result, ghost_result] Map.empty False known_world))) = [1]"
  by code_simp

theorem no_write_with_zero_identifier_witness:
  "no_zero_references (db known_world)
   \<and> no_zero_references
        (db (saveURLScanResults locked_env example_capture ''example.com'' 1 7 [login_result, ghost_result]
               Map.empty False known_world))
   \<and> map usr_Hostname (snd (prepare_endpoints locked_env ''example.com'' 1 7 [login_result, ghost_result]
                             Map.empty (db known_world))) = [''example.com'']
   \<and> list_all (\<lambda>res'. id_held locked_env Map.empty
                          (fst (prepare_endpoints locked_env ''example.com'' 1 7 [login_result, ghost_result]
                                  Map.empty (db known_world)))
                          1 (usr_Hostname res') (ep_SubdomainID (usr_Endpoint res')))
        (snd (prepare_endpoints locked_env ''example.com'' 1 7 [login_result, ghost_result]
                Map.empty (db known_world)))
   \<and> map ep_SubdomainID (Endpoints (db (saveURLScanResults locked_env example_capture ''example.com'' 1 7
                    [login_result, ghost_result] Map.empty False known_world))) = [1]
   \<and> map par_EndpointID (Parameters (db (saveURLScanResults locked_env example_capture ''example.com'' 1 7
                    [login_result, ghost_result] Map.empty False known_world))) = [1]"
proof -
  note T = no_write_with_zero_identifier [where E = locked_env
      and rootDomain = "''example.com''" and rootDomainID = 1 and scanID = 7
      and results = "[login_result, ghost_result]" and existing = Map.empty and w = known_world
      and cap = example_capture and se = False]
  have z: "no_zero_references (db known_world)"
    by (simp add: no_zero_references_def known_world_def example_world_def)
  from T z have after: "no_zero_references
        (db (saveURLScanResults locked_env example_capture ''example.com'' 1 7 [login_result, ghost_result]
               Map.empty False known_world))"
    by blast
  from T have "\<forall>res' \<in> set (snd (prepare_endpoints locked_env ''example.com'' 1 7 [login_result, ghost_result]
                Map.empty (db known_world))).
          id_held locked_env Map.empty
                          (fst (prepare_endpoints locked_env ''example.com'' 1 7 [login_result, ghost_result]
                                  Map.empty (db known_world)))
                          1 (usr_Hostname res') (ep_SubdomainID (usr_Endpoint res'))"
    by blast
  then have held: "list_all (\<lambda>res'. id_held locked_env Map.empty
                          (fst (prepare_endpoints locked_env ''example.com'' 1 7 [login_result, ghost_result]
                                  Map.empty (db known_world)))
                          1 (usr_Hostname res') (ep_SubdomainID (usr_Endpoint res')))
        (snd (prepare_endpoints locked_env ''example.com'' 1 7 [login_result, ghost_result]
                Map.empty (db known_world)))"
    unfolding list_all_iff .
  from z after held ghost_result_dropped show ?thesis by blast
qed

end
